(* ===== verification/Prelude.thy ===== *)
theory Prelude
  imports Main "HOL-Library.Word"
begin

text \<open>
  Shared vocabulary of the development: the machine types of the Go program (bytes,
  16- and 32-bit words), the error model (a Go \<open>error\<close> value or a runtime panic),
  little-endian encoding as \<open>encoding/binary.LittleEndian\<close> does it, the slice
  overwrite that \<open>copy\<close> performs, and the few string helpers of the Go standard
  library that the sources call (\<open>strings.Contains\<close>, \<open>strings.Split\<close>,
  decimal formatting).  The helper lemmas are declared \<open>[simp]\<close> or collected in
  \<open>go_simps\<close> so that the component theories can evaluate concrete packets and
  strings by \<open>simp\<close>.
\<close>

unbundle bit_operations_syntax

named_theorems go_simps "evaluation rules for the Go library helpers"

type_synonym byte = "8 word"
type_synonym u16 = "16 word"
type_synonym u32 = "32 word"

text \<open>A Win32 window handle (\<open>HWND\<close>, \<open>syscall.Handle\<close>); 0 is \<open>NULL\<close>.\<close>

type_synonym hwnd = nat

text \<open>
  A Go function either returns an \<open>error\<close> value (modelled by its message) or
  panics at run time; a panic is not recovered anywhere in the program.
\<close>

datatype panic = SliceBoundsOutOfRange | IndexOutOfRange | CloseOfClosedChannel

datatype error = Err string | Panic panic

type_synonym 'a result = "error + 'a"

subsection \<open>Definitions\<close>

definition le16 :: "u16 \<Rightarrow> byte list" where
  "le16 v = [ucast v, ucast (drop_bit 8 v)]"

definition le32 :: "u32 \<Rightarrow> byte list" where
  "le32 v = [ucast v, ucast (drop_bit 8 v), ucast (drop_bit 16 v), ucast (drop_bit 24 v)]"

definition get_le16 :: "byte list \<Rightarrow> nat \<Rightarrow> u16" where
  "get_le16 bs i = ucast (bs ! i) OR push_bit 8 (ucast (bs ! (i + 1)))"

definition get_le32 :: "byte list \<Rightarrow> nat \<Rightarrow> u32" where
  "get_le32 bs i =
     ucast (bs ! i) OR push_bit 8 (ucast (bs ! (i + 1))) OR
     push_bit 16 (ucast (bs ! (i + 2))) OR push_bit 24 (ucast (bs ! (i + 3)))"

definition overwrite :: "'a list \<Rightarrow> nat \<Rightarrow> 'a list \<Rightarrow> 'a list" where
  "overwrite xs i ys = take i xs @ ys @ drop (i + length ys) xs"

text \<open>\<open>strings.Contains(s, c)\<close> for a one-character substring \<open>c\<close>.\<close>

definition str_contains :: "string \<Rightarrow> char \<Rightarrow> bool" where
  "str_contains s c \<longleftrightarrow> c \<in> set s"

text \<open>
  \<open>strings.Split(s, sep)\<close> for a one-character separator: every occurrence splits,
  and an empty string gives one empty field.
\<close>

fun split_on :: "char \<Rightarrow> string \<Rightarrow> string list" where
  "split_on c [] = [[]]"
| "split_on c (x # xs) =
     (if x = c then [] # split_on c xs
      else (case split_on c xs of w # ws \<Rightarrow> (x # w) # ws | [] \<Rightarrow> [[x]]))"

text \<open>Decimal digits of a natural number, as \<open>fmt\<close>'s \<open>%d\<close> and \<open>strconv.Itoa\<close> print it.\<close>

definition digit_char :: "nat \<Rightarrow> char" where
  "digit_char d = char_of (48 + d)"

fun dec_string :: "nat \<Rightarrow> string" where
  "dec_string n = (if n < 10 then [digit_char n] else dec_string (n div 10) @ [digit_char (n mod 10)])"

declare dec_string.simps [simp del]

definition is_digit :: "char \<Rightarrow> bool" where
  "is_digit c \<longleftrightarrow> 48 \<le> (of_char c :: nat) \<and> (of_char c :: nat) \<le> 57"

definition digit_val :: "char \<Rightarrow> nat" where
  "digit_val c = of_char c - 48"

fun dec_value :: "string \<Rightarrow> nat \<Rightarrow> nat" where
  "dec_value [] acc = acc"
| "dec_value (c # cs) acc = dec_value cs (10 * acc + digit_val c)"

subsection \<open>Lemmas\<close>

lemma length_le16 [simp]: "length (le16 v) = 2"
  by (simp add: le16_def)

lemma length_le32 [simp]: "length (le32 v) = 4"
  by (simp add: le32_def)

lemma get_le16_le16 [simp]: "get_le16 (le16 v) 0 = v"
  by (rule bit_word_eqI) (auto simp: get_le16_def le16_def bit_simps)

lemma get_le32_le32 [simp]: "get_le32 (le32 v) 0 = v"
proof (rule bit_word_eqI)
  fix n assume "n < LENGTH(32)"
  then show "bit (get_le32 (le32 v) 0) n = bit v n"
    by (cases "n < 8"; cases "n < 16"; cases "n < 24")
      (auto simp: get_le32_def le32_def bit_simps)
qed

lemma get_le32_append: "get_le32 (xs @ ys) (length xs + i) = get_le32 ys i"
  by (simp add: get_le32_def nth_append add.assoc)

lemma get_le32_prefix: "i + 4 \<le> length xs \<Longrightarrow> get_le32 (xs @ ys) i = get_le32 xs i"
  by (simp add: get_le32_def nth_append)

lemma get_le32_skip [simp]:
  "length xs \<le> i \<Longrightarrow> get_le32 (xs @ ys) i = get_le32 ys (i - length xs)"
  using get_le32_append [of xs ys "i - length xs"] by simp

lemma get_le32_here [simp]: "get_le32 (le32 v @ ys) 0 = v"
  using get_le32_prefix [of 0 "le32 v" ys] by simp

lemma length_concat_le16 [simp]: "length (concat (map le16 us)) = 2 * length us"
  by (induction us) simp_all

lemma length_overwrite [simp]:
  "i + length ys \<le> length xs \<Longrightarrow> length (overwrite xs i ys) = length xs"
  by (simp add: overwrite_def)

lemma take_overwrite [simp]:
  "i + length ys \<le> length xs \<Longrightarrow> take i (overwrite xs i ys) = take i xs"
  by (simp add: overwrite_def)

lemma slice_overwrite [simp]:
  "i + length ys \<le> length xs \<Longrightarrow> take (length ys) (drop i (overwrite xs i ys)) = ys"
  by (simp add: overwrite_def)

lemma drop_overwrite [simp]:
  "i + length ys \<le> length xs \<Longrightarrow> drop (i + length ys) (overwrite xs i ys) = drop (i + length ys) xs"
  by (simp add: overwrite_def)

lemma nth_overwrite:
  "i + length ys \<le> length xs \<Longrightarrow> k < length xs \<Longrightarrow>
   overwrite xs i ys ! k = (if i \<le> k \<and> k < i + length ys then ys ! (k - i) else xs ! k)"
  by (auto simp: overwrite_def nth_append min_def)

lemma split_on_nonempty [simp]: "split_on c s \<noteq> []"
  by (induction s) (auto split: list.splits)

lemma split_on_no_sep: "c \<notin> set s \<Longrightarrow> split_on c s = [s]"
  by (induction s) auto

lemma split_on_append_sep:
  "c \<notin> set w \<Longrightarrow> split_on c (w @ c # s) = w # split_on c s"
  by (induction w) auto

lemma split_on_fields_no_sep: "w \<in> set (split_on c s) \<Longrightarrow> c \<notin> set w"
proof (induction s arbitrary: w)
  case Nil
  then show ?case by simp
next
  case (Cons x xs)
  show ?case
  proof (cases "x = c")
    case True
    with Cons show ?thesis by auto
  next
    case False
    then obtain v vs where v: "split_on c xs = v # vs"
      using split_on_nonempty by (cases "split_on c xs") auto
    with False Cons.prems have "w = x # v \<or> w \<in> set vs" by simp
    with v False Cons.IH show ?thesis by auto
  qed
qed

lemma is_digit_digit_char [simp]: "d < 10 \<Longrightarrow> is_digit (digit_char d)"
  by (simp add: is_digit_def digit_char_def)

lemma digit_val_digit_char [simp]: "d < 10 \<Longrightarrow> digit_val (digit_char d) = d"
  by (simp add: digit_val_def digit_char_def)

lemma dot_not_digit [simp]: "\<not> is_digit (CHR ''.'')"
  by (simp add: is_digit_def)

lemma digit_char_not_dot [simp]: "d < 10 \<Longrightarrow> digit_char d \<noteq> CHR ''.''"
  using is_digit_digit_char dot_not_digit by metis

lemma map_of_put:
  "map_of (map (\<lambda>(k, w). if k = h then (k, f w) else (k, w)) xs) x =
     (if x = h then map_option f (map_of xs x) else map_of xs x)"
  by (induction xs) auto

lemma map_put_fresh:
  "h \<notin> fst ` set ws \<Longrightarrow> map (\<lambda>(k, w). if k = h then (k, f w) else (k, w)) ws = ws"
  by (induction ws) auto

lemma map_fst_put: "map fst (map (\<lambda>(k, w). if k = h then (k, f w) else (k, w)) ws) = map fst ws"
  by (induction ws) auto

lemma keys_put: "fst ` set (map (\<lambda>(k, w). if k = h then (k, f w) else (k, w)) ws) = fst ` set ws"
  by (induction ws) auto

lemma map_of_filter_none: "(\<And>v. \<not> P (k, v)) \<Longrightarrow> map_of (filter P xs) k = None"
  by (induction xs) auto

lemma map_of_append_hit: "map_of xs x = Some v \<Longrightarrow> map_of (xs @ ys) x = Some v"
  by (simp add: map_add_def)

lemma map_of_append_miss: "x \<notin> fst ` set xs \<Longrightarrow> map_of (xs @ ys) x = map_of ys x"
  by (simp add: map_add_def map_of_eq_None_iff [THEN iffD2] split: option.split)

lemma find_Some_mem: "find P xs = Some x \<Longrightarrow> x \<in> set xs \<and> P x"
  by (induction xs) (auto split: if_splits)

lemma find_append_split:
  "find P (xs @ ys) = (case find P xs of None \<Rightarrow> find P ys | Some x \<Rightarrow> Some x)"
  by (induction xs) auto

lemma dec_value_append: "dec_value (xs @ ys) acc = dec_value ys (dec_value xs acc)"
  by (induction xs arbitrary: acc) auto

lemma dec_string_digits: "\<forall>c \<in> set (dec_string n). is_digit c"
  by (induction n rule: dec_string.induct) (subst dec_string.simps, auto)

lemma dec_string_nonempty [simp]: "dec_string n \<noteq> []"
  by (subst dec_string.simps) auto

lemma dec_value_dec_string: "dec_value (dec_string n) 0 = n"
proof (induction n rule: dec_string.induct)
  case (1 n)
  show ?case
  proof (cases "n < 10")
    case True
    then show ?thesis by (subst dec_string.simps) simp
  next
    case False
    with "1.IH" show ?thesis by (subst dec_string.simps) (simp add: dec_value_append)
  qed
qed

lemma dot_notin_dec_string [simp]: "CHR ''.'' \<notin> set (dec_string n)"
  using dec_string_digits dot_not_digit by blast

end
