(* ===== verification/GoSlices.thy ===== *)
theory GoSlices
  imports Prelude
begin

text \<open>
  The byte-buffer writes the packet builders of \<open>src/udp.go\<close> perform on a buffer made
  by \<open>make([]byte, n)\<close>, with Go's run-time checks: a slice expression \<open>buf[a:b]\<close>
  panics unless \<open>a \<le> b \<le> cap(buf)\<close> (and \<open>cap = len\<close> for a fresh buffer),
  \<open>copy\<close> copies \<open>min(b - a, len(src))\<close> bytes, \<open>PutUint32\<close> panics on a slice
  shorter than four bytes, and \<open>buf[i] = v\<close> panics unless \<open>i < len(buf)\<close>.
  A builder is a list of such writes, run in order; the first panic ends it.
\<close>

datatype buf_op =
    CopyTo nat nat "byte list"  \<comment> \<open>\<open>copy(buf[a:b], src)\<close>\<close>
  | PutU32 nat nat u32          \<comment> \<open>\<open>binary.LittleEndian.PutUint32(buf[a:b], v)\<close>\<close>
  | SetByte nat byte            \<comment> \<open>\<open>buf[i] = v\<close>\<close>

definition make_bytes :: "nat \<Rightarrow> byte list" where
  "make_bytes n = replicate n 0"

fun run_op :: "byte list \<Rightarrow> buf_op \<Rightarrow> byte list result" where
  "run_op buf (CopyTo a b src) =
     (if a \<le> b \<and> b \<le> length buf then Inr (overwrite buf a (take (b - a) src))
      else Inl (Panic SliceBoundsOutOfRange))"
| "run_op buf (PutU32 a b v) =
     (if a \<le> b \<and> b \<le> length buf then
        (if b - a < 4 then Inl (Panic IndexOutOfRange) else Inr (overwrite buf a (le32 v)))
      else Inl (Panic SliceBoundsOutOfRange))"
| "run_op buf (SetByte i v) =
     (if i < length buf then Inr (buf[i := v]) else Inl (Panic IndexOutOfRange))"

fun run_ops :: "byte list \<Rightarrow> buf_op list \<Rightarrow> byte list result" where
  "run_ops buf [] = Inr buf"
| "run_ops buf (op # ops) = (case run_op buf op of Inl e \<Rightarrow> Inl e | Inr buf' \<Rightarrow> run_ops buf' ops)"

subsection \<open>Writes never change the length of the buffer\<close>

lemma run_op_length: "run_op buf op = Inr buf' \<Longrightarrow> length buf' = length buf"
  by (cases op) (auto split: if_splits)

lemma run_ops_length: "run_ops buf ops = Inr buf' \<Longrightarrow> length buf' = length buf"
  by (induction ops arbitrary: buf) (auto split: sum.splits dest: run_op_length)

lemma run_ops_append:
  "run_ops buf (ops1 @ ops2) = (case run_ops buf ops1 of Inl e \<Rightarrow> Inl e | Inr b \<Rightarrow> run_ops b ops2)"
  by (induction ops1 arbitrary: buf) (auto split: sum.splits)

subsection \<open>Sequential writes into a zeroed tail\<close>

text \<open>
  Every builder writes its fields left to right into the zeroed remainder of the
  buffer; the following rules compute such a write on a buffer of the shape
  \<open>written @ replicate n 0\<close>, which is how \<open>simp\<close> evaluates a whole builder.
\<close>

lemma overwrite_append_right [simp]:
  "length xs \<le> i \<Longrightarrow> overwrite (xs @ ys) i zs = xs @ overwrite ys (i - length xs) zs"
  by (simp add: overwrite_def)

lemma overwrite_replicate_head [simp]:
  "length ys \<le> n \<Longrightarrow> overwrite (replicate n z) 0 ys = ys @ replicate (n - length ys) z"
  by (simp add: overwrite_def)

lemma run_op_put_over:
  "length buf < b \<Longrightarrow> run_op buf (PutU32 a b v) = Inl (Panic SliceBoundsOutOfRange)"
  by simp

lemma run_op_set_over:
  "length buf \<le> i \<Longrightarrow> run_op buf (SetByte i v) = Inl (Panic IndexOutOfRange)"
  by simp

lemma run_op_copy_over:
  "length buf < b \<Longrightarrow> run_op buf (CopyTo a b src) = Inl (Panic SliceBoundsOutOfRange)"
  by simp

lemma run_ops_panic_first:
  "run_op buf op = Inl e \<Longrightarrow> run_ops buf (op # ops) = Inl e"
  by simp

end
