(* ===== verification/ProtocolCodec.thy ===== *)
theory ProtocolCodec
  imports GoSlices
begin

text \<open>
  The command packets of \<open>src/udp.go\<close>.  Each builder (\<open>SendMessage\<close>, \<open>Shutdown\<close>,
  \<open>Reboot\<close>, \<open>CloseApp\<close>, \<open>SetLoginMode\<close>, \<open>RunCommand\<close>) makes a zeroed buffer of
  a fixed size and performs a fixed sequence of writes into it; the model keeps each
  sequence write for write (\<open>*_ops\<close>) and runs it with the slice semantics of
  \<open>GoSlices\<close> (\<open>*_packet\<close>).  The sixteen random bytes and the four bytes of the
  teacher address are parameters; \<open>Transport\<close> supplies them as the methods do.
  Free text is encoded as \<open>stringToUTF16LE\<close> does: \<open>utf16.Encode\<close> of the runes, each
  unit written little-endian.
\<close>

subsection \<open>UTF-16LE text (\<open>stringToUTF16LE\<close>, Go's \<open>unicode/utf16\<close>)\<close>

text \<open>A Go \<open>rune\<close> is an \<open>int32\<close>; runes are integers here.\<close>

definition rune_len :: "int \<Rightarrow> int" where
  "rune_len r =
     (if (0 \<le> r \<and> r < 0xD800) \<or> (0xE000 \<le> r \<and> r < 0x10000) then 1
      else if 0x10000 \<le> r \<and> r \<le> 0x10FFFF then 2 else -1)"

definition encode_rune :: "int \<Rightarrow> int \<times> int" where
  "encode_rune r =
     (if r < 0x10000 \<or> 0x10FFFF < r then (0xFFFD, 0xFFFD)
      else (let r' = r - 0x10000
            in (0xD800 + (drop_bit 10 r' AND 0x3FF), 0xDC00 + (r' AND 0x3FF))))"

definition utf16_unit :: "int \<Rightarrow> u16 list" where
  "utf16_unit v =
     (if rune_len v = 1 then [word_of_int v]
      else if rune_len v = 2 then (case encode_rune v of (r1, r2) \<Rightarrow> [word_of_int r1, word_of_int r2])
      else [word_of_int 0xFFFD])"

definition utf16_encode :: "int list \<Rightarrow> u16 list" where
  "utf16_encode s = concat (map utf16_unit s)"

definition stringToUTF16LE :: "int list \<Rightarrow> byte list" where
  "stringToUTF16LE s = concat (map le16 (utf16_encode s))"

subsection \<open>Fixed bytes of the packets\<close>

definition magic :: "byte list" where
  "magic = [0x44, 0x4d, 0x4f, 0x43]"

definition shutdown_trailer :: "byte list" where
  "shutdown_trailer =
     [0x59, 0x65, 0x08, 0x5e, 0x06, 0x5c, 0x73, 0x51, 0xed, 0x95, 0xa8, 0x60, 0x84, 0x76, 0xa1, 0x8b,
      0x97, 0x7b, 0x3a, 0x67, 0x02, 0x30, 0x00, 0x00, 0x00, 0x00, 0x00, 0x00, 0x00, 0x00, 0x00, 0x00]"

definition reboot_trailer :: "byte list" where
  "reboot_trailer =
     [0x59, 0x65, 0x08, 0x5e, 0x06, 0x5c, 0xcd, 0x91, 0x2f, 0x54, 0xa8, 0x60, 0x84, 0x76, 0xa1, 0x8b,
      0x97, 0x7b, 0x3a, 0x67, 0x02, 0x30, 0x00, 0x00, 0x00, 0x00, 0x00, 0x00, 0x00, 0x00, 0x00, 0x00]"

definition closeapp_trailer :: "byte list" where
  "closeapp_trailer =
     [0x59, 0x65, 0x08, 0x5e, 0x06, 0x5c, 0x73, 0x51, 0xed, 0x95, 0xa8, 0x60, 0x84, 0x76, 0x94, 0x5e,
      0x28, 0x75, 0x0b, 0x7a, 0x8f, 0x5e, 0x00, 0x00, 0x00, 0x00, 0x00, 0x00, 0x00, 0x00, 0x00, 0x00]"

subsection \<open>The builders\<close>

definition message_ops :: "byte list \<Rightarrow> byte list \<Rightarrow> byte list \<Rightarrow> buf_op list" where
  "message_ops nonce tip msg =
     [CopyTo 0 4 magic, PutU32 4 8 0x100, PutU32 8 12 0x39e, CopyTo 12 28 nonce,
      PutU32 28 32 0x4e20, CopyTo 32 36 tip, PutU32 36 40 0x391, PutU32 40 44 0x391,
      PutU32 44 48 0x800, PutU32 48 52 0, PutU32 52 56 5, CopyTo 56 (56 + length msg) msg]"

definition message_packet :: "byte list \<Rightarrow> byte list \<Rightarrow> int list \<Rightarrow> byte list result" where
  "message_packet nonce tip message =
     run_ops (make_bytes 954) (message_ops nonce tip (stringToUTF16LE message))"

text \<open>\<open>Shutdown\<close>, \<open>Reboot\<close> and \<open>CloseApp\<close> share one layout; they differ in the command
  word at offset 52 and in the trailer.\<close>

definition control_ops :: "u32 \<Rightarrow> byte list \<Rightarrow> byte list \<Rightarrow> byte list \<Rightarrow> buf_op list" where
  "control_ops cmd trailer nonce tip =
     [CopyTo 0 4 magic, PutU32 4 8 0x100, PutU32 8 12 0x22a, CopyTo 12 28 nonce,
      PutU32 28 32 0x4e20, CopyTo 32 36 tip, PutU32 36 40 0x21d, PutU32 40 44 0x21d,
      PutU32 44 48 0x200, PutU32 48 52 0, PutU32 52 56 cmd, PutU32 56 60 0xf,
      PutU32 60 64 1, PutU32 64 68 0, CopyTo 68 100 trailer]"

definition shutdown_packet :: "byte list \<Rightarrow> byte list \<Rightarrow> byte list result" where
  "shutdown_packet nonce tip = run_ops (make_bytes 582) (control_ops 0x10000014 shutdown_trailer nonce tip)"

definition reboot_packet :: "byte list \<Rightarrow> byte list \<Rightarrow> byte list result" where
  "reboot_packet nonce tip = run_ops (make_bytes 582) (control_ops 0x10000013 reboot_trailer nonce tip)"

definition closeapp_packet :: "byte list \<Rightarrow> byte list \<Rightarrow> byte list result" where
  "closeapp_packet nonce tip = run_ops (make_bytes 582) (control_ops 0x10000002 closeapp_trailer nonce tip)"

definition login_ops :: "bool \<Rightarrow> int \<Rightarrow> byte list \<Rightarrow> byte list \<Rightarrow> buf_op list" where
  "login_ops autoLogin channelID nonce tip =
     [CopyTo 0 4 magic, PutU32 4 8 0x100, PutU32 8 12 0x2f, CopyTo 12 28 nonce,
      PutU32 28 32 0x4e20, CopyTo 32 36 tip, PutU32 36 40 0x22, PutU32 40 44 0x22,
      PutU32 44 48 0x4000, PutU32 48 52 0, PutU32 52 56 7, PutU32 56 60 0x15,
      PutU32 60 64 0, PutU32 64 68 (if autoLogin then 1 else 0),
      PutU32 68 72 (word_of_int channelID), SetByte 72 0, SetByte 73 0, SetByte 74 0x99]"

definition login_packet :: "bool \<Rightarrow> int \<Rightarrow> byte list \<Rightarrow> byte list \<Rightarrow> byte list result" where
  "login_packet autoLogin channelID nonce tip =
     run_ops (make_bytes 71) (login_ops autoLogin channelID nonce tip)"

definition command_ops :: "byte list \<Rightarrow> byte list \<Rightarrow> byte list \<Rightarrow> buf_op list" where
  "command_ops nonce tip cmd =
     [CopyTo 0 4 magic, PutU32 4 8 0x100, PutU32 8 12 0x36e, CopyTo 12 28 nonce,
      PutU32 28 32 0x4e20, CopyTo 32 36 tip, PutU32 36 40 0x361, PutU32 40 44 0x361,
      PutU32 44 48 0x200, PutU32 48 52 0, PutU32 52 56 0xf, PutU32 56 60 1,
      CopyTo 60 (60 + length cmd) cmd, SetByte 902 1, SetByte 906 1]"

definition command_packet :: "byte list \<Rightarrow> byte list \<Rightarrow> int list \<Rightarrow> byte list result" where
  "command_packet nonce tip command =
     run_ops (make_bytes 906) (command_ops nonce tip (stringToUTF16LE command))"

subsection \<open>Decoding, for the roundtrip\<close>

text \<open>
  The inverse direction is not part of the program; it is Go's \<open>utf16.Decode\<close>
  (what the receiving agent applies) and the little-endian reading of 16-bit units,
  used to state that the encoding loses nothing on valid runes.
\<close>

fun utf16_decode :: "u16 list \<Rightarrow> int list" where
  "utf16_decode [] = []"
| "utf16_decode (u # us) =
     (if 0xD800 \<le> uint u \<and> uint u < 0xDC00 then
        (case us of
           u2 # us' \<Rightarrow>
             if 0xDC00 \<le> uint u2 \<and> uint u2 < 0xE000
             then ((uint u - 0xD800) * 1024 + (uint u2 - 0xDC00) + 0x10000) # utf16_decode us'
             else 0xFFFD # utf16_decode us
         | [] \<Rightarrow> [0xFFFD])
      else if 0xDC00 \<le> uint u \<and> uint u < 0xE000 then 0xFFFD # utf16_decode us
      else uint u # utf16_decode us)"

fun le16_units :: "byte list \<Rightarrow> u16 list" where
  "le16_units (a # b # rest) = get_le16 [a, b] 0 # le16_units rest"
| "le16_units _ = []"

definition valid_rune :: "int \<Rightarrow> bool" where
  "valid_rune r \<longleftrightarrow> (0 \<le> r \<and> r < 0xD800) \<or> (0xE000 \<le> r \<and> r \<le> 0x10FFFF)"

text \<open>
  The byte images the builders are meant to produce, field by field: the 28-byte
  outer header (magic, version, declared length, nonce, port constant 20000, teacher
  address), the inner sizes and class words, then the payload and zero padding.
\<close>

definition message_layout :: "byte list \<Rightarrow> byte list \<Rightarrow> byte list \<Rightarrow> byte list" where
  "message_layout nonce tip text =
     magic @ le32 0x100 @ le32 0x39e @ nonce @ le32 0x4e20 @ tip @ le32 0x391 @ le32 0x391 @
     le32 0x800 @ le32 0 @ le32 5 @ text @ replicate (898 - length text) 0"

definition control_layout :: "u32 \<Rightarrow> byte list \<Rightarrow> byte list \<Rightarrow> byte list \<Rightarrow> byte list" where
  "control_layout cmd trailer nonce tip =
     magic @ le32 0x100 @ le32 0x22a @ nonce @ le32 0x4e20 @ tip @ le32 0x21d @ le32 0x21d @
     le32 0x200 @ le32 0 @ le32 cmd @ le32 0xf @ le32 1 @ le32 0 @ trailer @ replicate 482 0"

definition utf16le_decode :: "byte list \<Rightarrow> int list" where
  "utf16le_decode bs = utf16_decode (le16_units bs)"

subsection \<open>Helper facts\<close>

lemma length_magic [simp]: "length magic = 4"
  by (simp add: magic_def)

lemma length_trailers [simp]:
  "length shutdown_trailer = 32" "length reboot_trailer = 32" "length closeapp_trailer = 32"
  by (simp_all add: shutdown_trailer_def reboot_trailer_def closeapp_trailer_def)

lemma length_stringToUTF16LE [simp]: "length (stringToUTF16LE s) = 2 * length (utf16_encode s)"
  by (simp add: stringToUTF16LE_def)

lemmas packet_defs = make_bytes_def message_packet_def message_ops_def shutdown_packet_def
  reboot_packet_def closeapp_packet_def control_ops_def login_packet_def login_ops_def
  command_packet_def command_ops_def

lemma le16_units_le16 [simp]: "le16_units (le16 v @ rest) = v # le16_units rest"
  using get_le16_le16 [of v] by (simp add: le16_def)

lemma le16_units_concat: "le16_units (concat (map le16 us)) = us"
  by (induction us) simp_all

lemma uint_word_of_int_small: "0 \<le> r \<Longrightarrow> r < 65536 \<Longrightarrow> uint (word_of_int r :: u16) = r"
  by (simp add: uint_word_of_int_eq take_bit_int_eq_self)

lemma int_and_1023: "0 \<le> x \<Longrightarrow> (x::int) AND 0x3FF = x mod 1024"
proof -
  have "(x::int) AND 0x3FF = take_bit 10 x"
    by (simp add: take_bit_eq_mask mask_eq_exp_minus_1)
  then show ?thesis by (simp add: take_bit_eq_mod)
qed

lemma utf16_unit_decode:
  assumes "valid_rune r"
  shows "utf16_decode (utf16_unit r @ rest) = r # utf16_decode rest"
proof (cases "r < 0x10000")
  case True
  with assms have bmp: "rune_len r = 1" "0 \<le> r" "r < 65536" and nosurr: "\<not> (0xD800 \<le> r \<and> r < 0xE000)"
    by (auto simp: valid_rune_def rune_len_def)
  have u: "uint (word_of_int r :: u16) = r"
    using bmp by (simp add: uint_word_of_int_small)
  show ?thesis
    using nosurr by (auto simp: utf16_unit_def bmp(1) u)
next
  case False
  define r' where "r' = r - 0x10000"
  from False assms have r': "0 \<le> r'" "r' < 0x100000"
    by (auto simp: valid_rune_def r'_def)
  from False assms have len: "rune_len r = 2" by (auto simp: valid_rune_def rune_len_def)
  have hi: "drop_bit 10 r' AND 0x3FF = r' div 1024"
    using r' by (simp add: int_and_1023 drop_bit_eq_div)
  have lo: "r' AND 0x3FF = r' mod 1024"
    using r' by (simp add: int_and_1023)
  have enc: "encode_rune r = (0xD800 + r' div 1024, 0xDC00 + r' mod 1024)"
    using False assms hi lo by (auto simp: encode_rune_def valid_rune_def r'_def Let_def)
  have b1: "0 \<le> r' div 1024" "r' div 1024 < 1024" using r' by auto
  have b2: "0 \<le> r' mod 1024" "r' mod 1024 < 1024" using r' by auto
  define w1 where "w1 = (word_of_int (0xD800 + r' div 1024) :: u16)"
  define w2 where "w2 = (word_of_int (0xDC00 + r' mod 1024) :: u16)"
  have unit: "utf16_unit r = [w1, w2]"
    by (simp add: utf16_unit_def len enc w1_def w2_def)
  have u1: "uint w1 = 0xD800 + r' div 1024"
    unfolding w1_def using b1 by (intro uint_word_of_int_small) simp_all
  have u2: "uint w2 = 0xDC00 + r' mod 1024"
    unfolding w2_def using b2 by (intro uint_word_of_int_small) simp_all
  have "(r' div 1024) * 1024 + r' mod 1024 + 0x10000 = r"
    by (simp add: r'_def)
  then show ?thesis
    using b1 b2 by (simp add: unit u1 u2)
qed

lemma utf16_decode_encode: "list_all valid_rune rs \<Longrightarrow> utf16_decode (utf16_encode rs) = rs"
  by (induction rs) (simp_all add: utf16_encode_def utf16_unit_decode)


lemma control_packet_eq:
  assumes "length nonce = 16" "length tip = 4" "length trailer = 32"
  shows "run_ops (make_bytes 582) (control_ops cmd trailer nonce tip) =
           Inr (control_layout cmd trailer nonce tip)"
  using assms by (simp add: make_bytes_def control_ops_def control_layout_def)

lemma message_run_eq:
  assumes "length nonce = 16" "length tip = 4" "length payload \<le> 898"
  shows "run_ops (make_bytes 954) (message_ops nonce tip payload) = Inr (message_layout nonce tip payload)"
  using assms by (simp add: make_bytes_def message_ops_def message_layout_def)

lemma message_run_overflow:
  assumes "length nonce = 16" "length tip = 4" "898 < length payload"
  shows "run_ops (make_bytes 954) (message_ops nonce tip payload) = Inl (Panic SliceBoundsOutOfRange)"
  using assms by (simp add: make_bytes_def message_ops_def)

lemma message_run_fits:
  assumes "length nonce = 16" "length tip = 4"
    and "run_ops (make_bytes 954) (message_ops nonce tip payload) = Inr p"
  shows "length payload \<le> 898 \<and> p = message_layout nonce tip payload"
  using assms message_run_overflow [of nonce tip payload] message_run_eq [of nonce tip payload]
  by (cases "length payload \<le> 898") auto

lemma length_message_layout [simp]:
  "length text \<le> 898 \<Longrightarrow> length nonce = 16 \<Longrightarrow> length tip = 4 \<Longrightarrow>
   length (message_layout nonce tip text) = 954"
  by (simp add: message_layout_def)

lemma length_control_layout [simp]:
  "length trailer = 32 \<Longrightarrow> length nonce = 16 \<Longrightarrow> length tip = 4 \<Longrightarrow>
   length (control_layout cmd trailer nonce tip) = 582"
  by (simp add: control_layout_def)

subsection \<open>Properties of the builders\<close>

text \<open>
  C1. \<open>SendMessage\<close> builds its packet as the wire format says: a text whose UTF-16LE
  encoding fits in the 898 bytes after offset 56 gives the 954-byte image of
  \<open>message_layout\<close> (magic, version \<open>0x100\<close>, declared length \<open>0x39e\<close>, the nonce at
  12, port constant at 28, teacher address at 32, sizes \<open>0x391\<close>, class \<open>0x800\<close>,
  opcode 5, the text at 56, zeros after it).
\<close>

theorem message_packet_layout:
  assumes "length nonce = 16" "length tip = 4" "length (stringToUTF16LE m) \<le> 898"
  shows "message_packet nonce tip m = Inr (message_layout nonce tip (stringToUTF16LE m))"
  using assms by (simp add: message_packet_def message_run_eq)

text \<open>
  C2. \<open>Shutdown\<close>, \<open>Reboot\<close> and \<open>CloseApp\<close> build 582-byte packets of one layout
  that differ only in the command word at offset 52 (\<open>0x10000014\<close>, \<open>0x10000013\<close>,
  \<open>0x10000002\<close>) and in the 32-byte trailer at offset 68.
\<close>

theorem control_packets_layout:
  assumes "length nonce = 16" "length tip = 4"
  shows "shutdown_packet nonce tip = Inr (control_layout 0x10000014 shutdown_trailer nonce tip)
       \<and> reboot_packet nonce tip = Inr (control_layout 0x10000013 reboot_trailer nonce tip)
       \<and> closeapp_packet nonce tip = Inr (control_layout 0x10000002 closeapp_trailer nonce tip)"
  using assms by (simp add: shutdown_packet_def reboot_packet_def closeapp_packet_def control_packet_eq)

text \<open>
  C3. \<open>SetLoginMode\<close> never produces a packet: its buffer is made 71 bytes long but the
  writes reach offset 74, so \<open>PutUint32(packet[68:72], ...)\<close> slices past the capacity
  and panics, whatever the arguments.  The same writes fit a 75-byte buffer, the size
  that the declared-length fields (\<open>0x2f = 75 - 28\<close>, \<open>0x22 = 75 - 41\<close>) describe.
\<close>

theorem login_packet_always_panics:
  assumes "length nonce = 16" "length tip = 4"
  shows "login_packet autoLogin channelID nonce tip = Inl (Panic SliceBoundsOutOfRange)
       \<and> (\<exists>p. run_ops (make_bytes 75) (login_ops autoLogin channelID nonce tip) = Inr p
              \<and> get_le32 p 8 = of_nat (length p - 28) \<and> get_le32 p 36 = of_nat (length p - 41))"
  using assms by (simp add: login_packet_def login_ops_def make_bytes_def list_update_append)

text \<open>
  C4. \<open>RunCommand\<close> never produces a packet either: it writes \<open>packet[906]\<close> into a
  906-byte buffer (index out of range), and a command longer than 846 bytes of UTF-16
  already overflows the \<open>copy\<close> slice before that.
\<close>

theorem command_packet_always_panics:
  assumes "length nonce = 16" "length tip = 4"
  shows "command_packet nonce tip command =
           Inl (Panic (if length (stringToUTF16LE command) \<le> 846 then IndexOutOfRange
                       else SliceBoundsOutOfRange))"
  using assms by (simp add: command_packet_def command_ops_def make_bytes_def)

text \<open>
  C5. A message whose UTF-16LE encoding is longer than 898 bytes makes \<open>SendMessage\<close>
  panic at \<open>copy(packet[56:56+len(messageBytes)], ...)\<close>: the text is never truncated.
\<close>

theorem message_packet_too_long:
  assumes "length nonce = 16" "length tip = 4" "898 < length (stringToUTF16LE m)"
  shows "message_packet nonce tip m = Inl (Panic SliceBoundsOutOfRange)"
  using assms by (simp add: message_packet_def message_run_overflow)

text \<open>
  C6. \<open>stringToUTF16LE\<close> loses nothing on valid runes: decoding its bytes as
  little-endian UTF-16 gives the runes back, surrogate pairs included.
\<close>

theorem utf16le_roundtrip:
  "list_all valid_rune rs \<Longrightarrow> utf16le_decode (stringToUTF16LE rs) = rs"
  by (simp add: utf16le_decode_def stringToUTF16LE_def le16_units_concat utf16_decode_encode)

text \<open>
  C7. In every packet the builders do produce, the declared-length field at offset 8
  is the packet length minus the 28-byte outer header, and the size fields at 36 and
  40 are the length minus 41.
\<close>

theorem packet_length_fields:
  assumes "length nonce = 16" "length tip = 4"
    and "message_packet nonce tip m = Inr p \<or> shutdown_packet nonce tip = Inr p \<or>
         reboot_packet nonce tip = Inr p \<or> closeapp_packet nonce tip = Inr p"
  shows "get_le32 p 8 = of_nat (length p - 28) \<and> get_le32 p 36 = of_nat (length p - 41)
       \<and> get_le32 p 40 = of_nat (length p - 41)"
proof -
  from assms(3) consider
      (msg) "run_ops (make_bytes 954) (message_ops nonce tip (stringToUTF16LE m)) = Inr p"
    | (ctl) "p \<in> {control_layout 0x10000014 shutdown_trailer nonce tip,
                  control_layout 0x10000013 reboot_trailer nonce tip,
                  control_layout 0x10000002 closeapp_trailer nonce tip}"
    using assms(1,2) by (auto simp: message_packet_def shutdown_packet_def reboot_packet_def
                                   closeapp_packet_def control_packet_eq)
  then show ?thesis
  proof cases
    case msg
    with assms(1,2) have "p = message_layout nonce tip (stringToUTF16LE m)"
      by (auto dest: message_run_fits)
    with assms(1,2) msg show ?thesis
      using message_run_fits [OF assms(1,2) msg] by (simp add: message_layout_def)
  next
    case ctl
    with assms(1,2) show ?thesis
      by (auto simp: control_layout_def)
  qed
qed

subsection \<open>Witnesses\<close>

text \<open>
  The example of the specification: the message \<open>"hi"\<close> gives a 954-byte packet with
  the magic at 0, the declared length \<open>0x39e\<close> at 8, the nonce at 12 and the UTF-16LE
  bytes of the text at 56.
\<close>

theorem message_packet_layout_witness:
  "\<exists>p. message_packet (replicate 16 0xAB) [192, 168, 1, 10] [104, 105] = Inr p
      \<and> length p = 954 \<and> take 4 p = [0x44, 0x4D, 0x4F, 0x43] \<and> get_le32 p 8 = 0x39e
      \<and> take 16 (drop 12 p) = replicate 16 0xAB \<and> take 4 (drop 56 p) = [0x68, 0, 0x69, 0]"
proof -
  have enc: "stringToUTF16LE [104, 105] = [0x68, 0, 0x69, 0]"
    by (simp add: stringToUTF16LE_def utf16_encode_def utf16_unit_def rune_len_def le16_def)
  have msg: "message_packet (replicate 16 0xAB) [192, 168, 1, 10] [104, 105] =
          Inr (message_layout (replicate 16 0xAB) [192, 168, 1, 10] [0x68, 0, 0x69, 0])"
    using message_packet_layout [of "replicate 16 0xAB" "[192, 168, 1, 10]" "[104, 105]"]
    by (simp add: enc)
  show ?thesis
    by (intro exI [of _ "message_layout (replicate 16 0xAB) [192, 168, 1, 10] [0x68, 0, 0x69, 0]"])
      (simp add: msg message_layout_def; simp add: magic_def)
qed

theorem control_packets_layout_witness:
  "shutdown_packet (replicate 16 0xAB) [192, 168, 1, 10] =
     Inr (control_layout 0x10000014 shutdown_trailer (replicate 16 0xAB) [192, 168, 1, 10])
   \<and> reboot_packet (replicate 16 0xAB) [192, 168, 1, 10] =
     Inr (control_layout 0x10000013 reboot_trailer (replicate 16 0xAB) [192, 168, 1, 10])
   \<and> closeapp_packet (replicate 16 0xAB) [192, 168, 1, 10] =
     Inr (control_layout 0x10000002 closeapp_trailer (replicate 16 0xAB) [192, 168, 1, 10])"
  using control_packets_layout [of "replicate 16 0xAB" "[192, 168, 1, 10]"] by simp

theorem login_packet_always_panics_witness:
  "login_packet True 5 (replicate 16 0xAB) [192, 168, 1, 10] = Inl (Panic SliceBoundsOutOfRange)"
  using login_packet_always_panics [of "replicate 16 0xAB" "[192, 168, 1, 10]" True 5] by simp

theorem command_packet_always_panics_witness:
  "command_packet (replicate 16 0xAB) [192, 168, 1, 10] [100, 105, 114] = Inl (Panic IndexOutOfRange)"
  using command_packet_always_panics [of "replicate 16 0xAB" "[192, 168, 1, 10]" "[100, 105, 114]"]
  by (simp add: utf16_encode_def utf16_unit_def rune_len_def)

theorem message_packet_too_long_witness:
  "message_packet (replicate 16 0xAB) [192, 168, 1, 10] (replicate 450 97) = Inl (Panic SliceBoundsOutOfRange)"
  using message_packet_too_long [of "replicate 16 0xAB" "[192, 168, 1, 10]" "replicate 450 97"]
  by (simp add: utf16_encode_def utf16_unit_def rune_len_def length_concat sum_list_replicate)

theorem utf16le_roundtrip_witness:
  "utf16le_decode (stringToUTF16LE [104, 0x1F600]) = [104, 0x1F600]"
  using utf16le_roundtrip [of "[104, 0x1F600]"] by (simp add: valid_rune_def)

theorem packet_length_fields_witness:
  "get_le32 (control_layout 0x10000014 shutdown_trailer (replicate 16 0xAB) [192, 168, 1, 10]) 8 = 554"
proof -
  have "shutdown_packet (replicate 16 0xAB) [192, 168, 1, 10] =
          Inr (control_layout 0x10000014 shutdown_trailer (replicate 16 0xAB) [192, 168, 1, 10])"
    by (simp add: shutdown_packet_def control_packet_eq)
  then show ?thesis
    using packet_length_fields [of "replicate 16 0xAB" "[192, 168, 1, 10]" _
            "control_layout 0x10000014 shutdown_trailer (replicate 16 0xAB) [192, 168, 1, 10]"]
    by simp
qed

end
