(* ===== verification/GoNet.thy ===== *)
theory GoNet
  imports Prelude
begin

text \<open>
  The parts of Go's \<open>net\<close> and \<open>net/netip\<close> packages that \<open>src/udp.go\<close> calls on
  IPv4 text: \<open>net.ParseIP\<close> (through \<open>netip.ParseAddr\<close>), \<open>IP.String\<close>,
  \<open>net.ParseCIDR\<close> with \<open>CIDRMask\<close>, \<open>IP.Mask\<close> and \<open>IPNet.Contains\<close>.  They are
  library code, modelled from their documented behaviour on IPv4: an address is the
  four-byte \<open>net.IP\<close> that \<open>To4\<close> returns.  Text that \<open>netip.ParseAddr\<close> would read
  as IPv6 (its first separator is a colon) is outside the model and parses to
  \<open>None\<close>, as does every other text that is not a dotted quad.
\<close>

type_synonym ip4 = "byte list"

subsection \<open>Definitions\<close>

text \<open>
  One field of a dotted quad as \<open>netip.parseIPv4\<close> accepts it: one to three decimal
  digits, no leading zero unless the field is \<open>0\<close>, value at most 255.
\<close>

definition octet_field :: "string \<Rightarrow> nat option" where
  "octet_field w =
     (if w \<noteq> [] \<and> list_all is_digit w \<and> (length w = 1 \<or> hd w \<noteq> CHR ''0'') \<and> dec_value w 0 \<le> 255
      then Some (dec_value w 0) else None)"

definition parse_ipv4 :: "string \<Rightarrow> ip4 option" where
  "parse_ipv4 s =
     (if length (split_on CHR ''.'' s) = 4
      then map_option (map of_nat) (those (map octet_field (split_on CHR ''.'' s)))
      else None)"

text \<open>\<open>netip.ParseAddr\<close> dispatches on the first \<open>.\<close>, \<open>:\<close> or \<open>%\<close> of the text.\<close>

definition parse_ip :: "string \<Rightarrow> ip4 option" where
  "parse_ip s =
     (case find (\<lambda>c. c = CHR ''.'' \<or> c = CHR '':'' \<or> c = CHR ''%'') s of
        Some c \<Rightarrow> if c = CHR ''.'' then parse_ipv4 s else None
      | None \<Rightarrow> None)"

text \<open>\<open>IP.String\<close> of a four-byte address.\<close>

fun ip_string :: "ip4 \<Rightarrow> string" where
  "ip_string [a, b, c, d] =
     dec_string (unat a) @ ''.'' @ dec_string (unat b) @ ''.'' @ dec_string (unat c) @ ''.'' @
     dec_string (unat d)"
| "ip_string _ = ''?''"

text \<open>\<open>CIDRMask(ones, 32)\<close>: whole \<open>0xff\<close> bytes while eight or more ones remain, then
  \<open>^byte(0xff >> n)\<close>.\<close>

fun mask_bytes :: "nat \<Rightarrow> nat \<Rightarrow> byte list" where
  "mask_bytes 0 n = []"
| "mask_bytes (Suc l) n =
     (if 8 \<le> n then 0xFF # mask_bytes l (n - 8) else NOT (drop_bit n 0xFF) # mask_bytes l 0)"

definition cidr_mask :: "nat \<Rightarrow> byte list" where
  "cidr_mask n = mask_bytes 4 n"

text \<open>\<open>IP.Mask\<close> and \<open>IPNet.Contains\<close> on four-byte addresses and masks.\<close>

definition ip_mask :: "ip4 \<Rightarrow> byte list \<Rightarrow> ip4" where
  "ip_mask ip m = map2 (AND) ip m"

definition ipnet_contains :: "ip4 \<times> byte list \<Rightarrow> ip4 \<Rightarrow> bool" where
  "ipnet_contains ipnet ip =
     (case ipnet of (nn, m) \<Rightarrow> length ip = length nn \<and> ip_mask nn m = ip_mask ip m)"

text \<open>
  \<open>dtoi\<close> applied to the prefix length of \<open>net.ParseCIDR\<close>: the whole text must be
  decimal digits, and the value at most 32 for IPv4.
\<close>

definition prefix_len :: "string \<Rightarrow> nat option" where
  "prefix_len m = (if m \<noteq> [] \<and> list_all is_digit m \<and> dec_value m 0 \<le> 32 then Some (dec_value m 0) else None)"

text \<open>\<open>net.ParseCIDR\<close>: cut at the first slash; the result is the network
  (\<open>ip.Mask(mask)\<close>) with its mask.\<close>

definition parse_cidr :: "string \<Rightarrow> (ip4 \<times> byte list) option" where
  "parse_cidr s =
     (let addr = takeWhile (\<lambda>c. c \<noteq> CHR ''/'') s; mask = drop (Suc (length addr)) s in
      if length addr = length s then None
      else (case (parse_ip addr, prefix_len mask) of
              (Some ip, Some n) \<Rightarrow> Some (ip_mask ip (cidr_mask n), cidr_mask n)
            | _ \<Rightarrow> None))"

text \<open>The abstract value of an address: its four bytes read big-endian.\<close>

definition ip_nat :: "ip4 \<Rightarrow> nat" where
  "ip_nat ip = foldl (\<lambda>n b. n * 256 + unat b) 0 ip"

text \<open>The inverse view: the low \<open>l\<close> bytes of a number, most significant first.\<close>

fun nat_to_bytes :: "nat \<Rightarrow> nat \<Rightarrow> byte list" where
  "nat_to_bytes 0 x = []"
| "nat_to_bytes (Suc l) x = nat_to_bytes l (x div 256) @ [of_nat (x mod 256)]"

subsection \<open>Lemmas\<close>

lemma ip_nat_snoc [simp]: "ip_nat (xs @ [b]) = ip_nat xs * 256 + unat b"
  by (simp add: ip_nat_def)

lemma ip_nat_Nil [simp]: "ip_nat [] = 0"
  by (simp add: ip_nat_def)

lemma ip_nat_bound: "ip_nat ip < 256 ^ length ip"
proof (induction ip rule: rev_induct)
  case Nil
  then show ?case by simp
next
  case (snoc b xs)
  have "unat b < 256" using unsigned_less [of b] by simp
  with snoc show ?case by simp
qed

lemma those_length: "those xs = Some ys \<Longrightarrow> length ys = length xs"
  by (induction xs arbitrary: ys) (auto split: option.splits)

lemma parse_ip_length: "parse_ip s = Some x \<Longrightarrow> length x = 4"
  by (auto simp: parse_ip_def parse_ipv4_def dest!: those_length split: option.splits if_splits)

lemma cidr_mask_0: "cidr_mask 0 = [0, 0, 0, 0]"
  by code_simp

lemma length_ip_mask [simp]: "length (ip_mask x m) = min (length x) (length m)"
  by (simp add: ip_mask_def)

lemma ip_mask_zero: "length x = 4 \<Longrightarrow> ip_mask x [0, 0, 0, 0] = [0, 0, 0, 0]"
  by (auto simp: ip_mask_def numeral_eq_Suc length_Suc_conv)

lemma parse_cidr_split:
  "CHR ''/'' \<notin> set a \<Longrightarrow> parse_cidr (a @ CHR ''/'' # m) =
     (case (parse_ip a, prefix_len m) of (Some ip, Some n) \<Rightarrow> Some (ip_mask ip (cidr_mask n), cidr_mask n) | _ \<Rightarrow> None)"
proof -
  assume a: "CHR ''/'' \<notin> set a"
  have tw: "takeWhile (\<lambda>c. c \<noteq> CHR ''/'') (a @ CHR ''/'' # m) = a"
    using a by (induction a) auto
  show ?thesis by (simp add: parse_cidr_def tw)
qed

lemma byte_high_bits:
  assumes "n < 8"
  shows "(b :: byte) AND NOT (drop_bit n 0xFF) = push_bit (8 - n) (drop_bit (8 - n) b)"
proof (rule bit_word_eqI)
  fix i assume i: "i < LENGTH(8)"
  have ff: "(0xFF :: byte) = mask 8" by (simp add: mask_eq_exp_minus_1)
  show "bit (b AND NOT (drop_bit n 0xFF)) i = bit (push_bit (8 - n) (drop_bit (8 - n) b)) i"
    using i assms by (auto simp: ff bit_simps)
qed

lemma unat_high_bits:
  assumes "k \<le> 8"
  shows "unat (push_bit k (drop_bit k (b :: byte))) = unat b div 2 ^ k * 2 ^ k"
proof -
  have "unat b div 2 ^ k * 2 ^ k \<le> unat b" by (rule div_times_less_eq_dividend)
  also have "unat b < 2 ^ 8" using unsigned_less [of b] by simp
  finally have "unat b div 2 ^ k * 2 ^ k < 2 ^ 8" .
  moreover have "unat (push_bit k (drop_bit k b)) = take_bit 8 (push_bit k (drop_bit k (unat b)))"
  proof -
    have tb: "take_bit 8 (unat b) = unat b"
      using unsigned_less [of b, where ?'a = nat] by (simp add: take_bit_nat_eq_self)
    show ?thesis by (simp add: unsigned_push_bit_eq unsigned_drop_bit_eq tb)
  qed
  ultimately show ?thesis
    by (simp add: push_bit_eq_mult drop_bit_eq_div take_bit_eq_mod)
qed

lemma length_nat_to_bytes [simp]: "length (nat_to_bytes l x) = l"
  by (induction l arbitrary: x) simp_all

lemma ip_nat_nat_to_bytes: "ip_nat (nat_to_bytes l x) = x mod 256 ^ l"
proof (induction l arbitrary: x)
  case 0
  then show ?case by simp
next
  case (Suc l)
  have "unat (of_nat (x mod 256) :: byte) = x mod 256"
    by (simp add: unat_of_nat take_bit_eq_mod)
  with Suc show ?case
    by (simp add: mod_mult2_eq mult.commute)
qed

lemma ip_nat_foldl: "foldl (\<lambda>n b. n * 256 + unat b) a xs = a * 256 ^ length xs + ip_nat xs"
proof (induction xs arbitrary: a rule: rev_induct)
  case Nil
  then show ?case by simp
next
  case (snoc x xs)
  then show ?case by (simp add: algebra_simps)
qed

lemma ip_nat_Cons: "ip_nat (b # rest) = unat b * 256 ^ length rest + ip_nat rest"
  using ip_nat_foldl [of "unat b" rest] by (simp add: ip_nat_def)

lemma ip_nat_inj: "length xs = length ys \<Longrightarrow> ip_nat xs = ip_nat ys \<Longrightarrow> xs = ys"
proof (induction xs ys rule: list_induct2)
  case Nil
  then show ?case by simp
next
  case (Cons a as b bs)
  have ra: "ip_nat as < 256 ^ length as" and rb: "ip_nat bs < 256 ^ length as"
    using ip_nat_bound [of as] ip_nat_bound [of bs] Cons.hyps by simp_all
  have eq: "unat a * 256 ^ length as + ip_nat as = unat b * 256 ^ length as + ip_nat bs"
    using Cons.prems Cons.hyps by (simp add: ip_nat_Cons)
  then have "(unat a * 256 ^ length as + ip_nat as) div 256 ^ length as =
             (unat b * 256 ^ length as + ip_nat bs) div 256 ^ length as" by simp
  then have "unat a = unat b" using ra rb by simp
  moreover from this eq have "ip_nat as = ip_nat bs" by simp
  then have "as = bs" by (rule Cons.IH)
  ultimately show ?case by (simp add: word_unat_eq_iff)
qed

lemma not_ff_byte: "NOT (0xFF :: byte) = 0"
  by (simp add: mask_eq_exp_minus_1 [symmetric, of 8, simplified])

lemma mask_bytes_0: "mask_bytes l 0 = replicate l 0"
  by (induction l) (simp_all add: not_ff_byte)

lemma ip_nat_replicate_0: "ip_nat (replicate l 0) = 0"
  by (induction l) (simp_all add: ip_nat_Cons)

lemma map2_and_zero: "length x = l \<Longrightarrow> map2 (AND) x (replicate l (0::byte)) = replicate l 0"
  by (induction x arbitrary: l) auto

lemma div_shift_low:
  "(r::nat) < 2 ^ m \<Longrightarrow> (a * 2 ^ m + r) div 2 ^ (m + j) = a div 2 ^ j"
  by (simp add: power_add div_mult2_eq)

lemma round_down_high:
  "((a::nat) * 2 ^ (k + j) + r) div 2 ^ k * 2 ^ k = a * 2 ^ (k + j) + r div 2 ^ k * 2 ^ k"
proof -
  have "a * 2 ^ (k + j) + r = r + (a * 2 ^ j) * 2 ^ k"
    by (simp add: power_add algebra_simps)
  then have "(a * 2 ^ (k + j) + r) div 2 ^ k = (r + (a * 2 ^ j) * 2 ^ k) div 2 ^ k"
    by (simp only:)
  also have "\<dots> = a * 2 ^ j + r div 2 ^ k"
    by (simp only: div_mult_self1 [of "2 ^ k :: nat"] power_not_zero zero_neq_numeral[symmetric] not_False_eq_True add.commute)
  finally have "(a * 2 ^ (k + j) + r) div 2 ^ k = a * 2 ^ j + r div 2 ^ k" .
  then show ?thesis by (simp add: algebra_simps power_add)
qed

lemma and_ff_byte [simp]: "(b :: byte) AND 0xFF = b"
proof (rule bit_word_eqI)
  fix i assume i: "i < LENGTH(8)"
  have ff: "(0xFF :: byte) = mask 8" by (simp add: mask_eq_exp_minus_1)
  show "bit (b AND 0xFF) i = bit b i" using i by (auto simp: ff bit_simps)
qed

lemma length_mask_bytes [simp]: "length (mask_bytes l n) = l"
  by (induction l arbitrary: n) simp_all

lemma pow256: "(256::nat) ^ l = 2 ^ (8 * l)"
  by (simp add: power_mult)

lemma ip_nat_mask_bytes:
  "length ip = l \<Longrightarrow> n \<le> 8 * l \<Longrightarrow>
   ip_nat (map2 (AND) ip (mask_bytes l n)) = ip_nat ip div 2 ^ (8 * l - n) * 2 ^ (8 * l - n)"
proof (induction ip arbitrary: l n)
  case Nil
  then show ?case by simp
next
  case (Cons b rest)
  then obtain l' where l: "l = Suc l'" and len: "length rest = l'" by auto
  have bound: "ip_nat rest < 2 ^ (8 * l')"
    using ip_nat_bound [of rest] len by (simp add: pow256)
  have cons: "ip_nat (b # rest) = unat b * 2 ^ (8 * l') + ip_nat rest"
    using len by (simp add: ip_nat_Cons pow256)
  show ?case
  proof (cases "8 \<le> n")
    case True
    define k where "k = 8 * l' - (n - 8)"
    have kl: "8 * l' = k + (n - 8)" and kk: "8 * l - n = k"
      using True Cons.prems l unfolding k_def by simp_all
    have IH: "ip_nat (map2 (AND) rest (mask_bytes l' (n - 8))) = ip_nat rest div 2 ^ k * 2 ^ k"
      using Cons.IH [of l' "n - 8"] True Cons.prems l len unfolding k_def by simp
    have m: "map2 (AND) (b # rest) (mask_bytes l n) = b # map2 (AND) rest (mask_bytes l' (n - 8))"
      using True l by simp
    have "ip_nat (map2 (AND) (b # rest) (mask_bytes l n)) = unat b * 2 ^ (k + (n - 8)) + ip_nat rest div 2 ^ k * 2 ^ k"
      using len by (simp only: m ip_nat_Cons IH length_map length_zip length_mask_bytes) (simp add: pow256 kl)
    also have "\<dots> = (unat b * 2 ^ (k + (n - 8)) + ip_nat rest) div 2 ^ k * 2 ^ k"
      by (simp only: round_down_high)
    also have "\<dots> = ip_nat (b # rest) div 2 ^ (8 * l - n) * 2 ^ (8 * l - n)"
      by (simp only: cons kl kk)
    finally show ?thesis .
  next
    case False
    have z: "map2 (AND) rest (mask_bytes l' 0) = replicate l' 0"
      using len by (simp add: mask_bytes_0 map2_and_zero)
    have hb: "unat (b AND NOT (drop_bit n 0xFF)) = unat b div 2 ^ (8 - n) * 2 ^ (8 - n)"
      using False by (simp add: byte_high_bits unat_high_bits)
    have m: "map2 (AND) (b # rest) (mask_bytes l n) = (b AND NOT (drop_bit n 0xFF)) # replicate l' 0"
      using False l z by simp
    have "ip_nat (map2 (AND) (b # rest) (mask_bytes l n)) = unat b div 2 ^ (8 - n) * 2 ^ (8 - n) * 2 ^ (8 * l')"
      by (simp only: m ip_nat_Cons hb length_replicate ip_nat_replicate_0 pow256)
    also have "\<dots> = (unat b * 2 ^ (8 * l') + ip_nat rest) div 2 ^ (8 * l' + (8 - n)) * 2 ^ (8 * l' + (8 - n))"
    proof -
      have d: "(unat b * 2 ^ (8 * l') + ip_nat rest) div 2 ^ (8 * l' + (8 - n)) = unat b div 2 ^ (8 - n)"
        by (rule div_shift_low [OF bound])
      show ?thesis unfolding d by (simp only: power_add mult_ac)
    qed
    also have "\<dots> = ip_nat (b # rest) div 2 ^ (8 * l - n) * 2 ^ (8 * l - n)"
    proof -
      have "8 * l - n = 8 * l' + (8 - n)" using False l by simp
      then show ?thesis by (simp only: cons)
    qed
    finally show ?thesis .
  qed
qed

lemma length_cidr_mask [simp]: "length (cidr_mask n) = 4"
  by (simp add: cidr_mask_def)

lemma length_ip_mask4: "length x = 4 \<Longrightarrow> length (ip_mask x (cidr_mask n)) = 4"
  by (simp add: cidr_mask_def)

lemma ip_nat_ip_mask:
  "length x = 4 \<Longrightarrow> n \<le> 32 \<Longrightarrow> ip_nat (ip_mask x (cidr_mask n)) = ip_nat x div 2 ^ (32 - n) * 2 ^ (32 - n)"
  using ip_nat_mask_bytes [of x 4 n] by (simp add: ip_mask_def cidr_mask_def)

lemma ipnet_contains_block:
  assumes "length nn = 4" "n \<le> 32"
  shows "ipnet_contains (ip_mask nn (cidr_mask n), cidr_mask n) ip \<longleftrightarrow>
           length ip = 4 \<and> ip_nat ip div 2 ^ (32 - n) = ip_nat nn div 2 ^ (32 - n)"
proof -
  let ?k = "32 - n" and ?net = "ip_mask nn (cidr_mask n)"
  have lnet: "length ?net = 4" using assms(1) by (rule length_ip_mask4)
  have netv: "ip_nat ?net = ip_nat nn div 2 ^ ?k * 2 ^ ?k" using assms by (rule ip_nat_ip_mask)
  have nn2: "ip_nat (ip_mask ?net (cidr_mask n)) = ip_nat nn div 2 ^ ?k * 2 ^ ?k"
    using ip_nat_ip_mask [OF lnet assms(2)] netv by simp
  show ?thesis
  proof (cases "length ip = 4")
    case True
    have "ip_mask ?net (cidr_mask n) = ip_mask ip (cidr_mask n) \<longleftrightarrow>
          ip_nat (ip_mask ?net (cidr_mask n)) = ip_nat (ip_mask ip (cidr_mask n))"
      using ip_nat_inj [of "ip_mask ?net (cidr_mask n)" "ip_mask ip (cidr_mask n)"] lnet True by auto
    also have "\<dots> \<longleftrightarrow> ip_nat ip div 2 ^ ?k = ip_nat nn div 2 ^ ?k"
      using nn2 ip_nat_ip_mask [OF True assms(2)] by auto
    finally show ?thesis using True lnet by (simp add: ipnet_contains_def)
  next
    case False
    then show ?thesis using lnet by (simp add: ipnet_contains_def)
  qed
qed

lemma ip_nat_bound4: "length ip = 4 \<Longrightarrow> ip_nat ip < 2 ^ 32"
  using ip_nat_bound [of ip] by simp

lemma nat_to_bytes_ip:
  assumes "length ip = 4" "ip_nat ip = x"
  shows "ip = nat_to_bytes 4 x"
proof (rule ip_nat_inj)
  have "x < 2 ^ 32" using ip_nat_bound4 [OF assms(1)] assms(2) by simp
  then show "ip_nat ip = ip_nat (nat_to_bytes 4 x)" using assms(2) by (simp add: ip_nat_nat_to_bytes)
qed (simp add: assms(1))

lemma prefix_len_le: "prefix_len m = Some n \<Longrightarrow> n \<le> 32"
  by (simp add: prefix_len_def split: if_splits)

lemma nat_to_bytes_4:
  "nat_to_bytes 4 x = [of_nat (x div 256 div 256 div 256 mod 256), of_nat (x div 256 div 256 mod 256),
                        of_nat (x div 256 mod 256), of_nat (x mod 256)]"
proof -
  have "(4::nat) = Suc (Suc (Suc (Suc 0)))" by simp
  then show ?thesis by (simp only:) simp
qed

lemma dec_string_hd: "length (dec_string n) = 1 \<or> hd (dec_string n) \<noteq> CHR ''0''"
proof (induction n rule: dec_string.induct)
  case (1 n)
  show ?case
  proof (cases "n < 10")
    case True
    then show ?thesis by (subst dec_string.simps) simp
  next
    case False
    then have "0 < n div 10" by simp
    have "hd (dec_string (n div 10)) \<noteq> CHR ''0''"
    proof (cases "n div 10 < 10")
      case True
      have "digit_char (n div 10) \<noteq> CHR ''0''"
      proof
        assume "digit_char (n div 10) = CHR ''0''"
        then have "digit_val (digit_char (n div 10)) = digit_val (CHR ''0'')" by simp
        then have "n div 10 = digit_val (CHR ''0'')" using True by simp
        then show False using \<open>0 < n div 10\<close> by (simp add: digit_val_def)
      qed
      with True show ?thesis by (subst dec_string.simps) simp
    next
      case False
      with "1.IH" \<open>\<not> n < 10\<close> show ?thesis
        by (subst (asm) dec_string.simps) (auto simp: not_less)
    qed
    with False show ?thesis by (subst dec_string.simps) simp
  qed
qed

lemma octet_field_dec_string: "n < 256 \<Longrightarrow> octet_field (dec_string n) = Some n"
  using dec_string_digits [of n] dec_string_hd [of n]
  by (simp add: octet_field_def dec_value_dec_string list_all_iff)

lemma octet_field_digits: "octet_field w = Some v \<Longrightarrow> list_all is_digit w \<and> v < 256 \<and> w \<noteq> []"
  by (simp add: octet_field_def split: if_splits)

lemma digit_not_sep: "is_digit c \<Longrightarrow> c \<noteq> CHR ''.'' \<and> c \<noteq> CHR '':'' \<and> c \<noteq> CHR ''%''"
  by (auto simp: is_digit_def)

lemma parse_ip_quad:
  assumes "octet_field w0 = Some v0" "octet_field w1 = Some v1" "octet_field w2 = Some v2" "octet_field w3 = Some v3"
  shows "parse_ip (w0 @ CHR ''.'' # w1 @ CHR ''.'' # w2 @ CHR ''.'' # w3) = Some [of_nat v0, of_nat v1, of_nat v2, of_nat v3]"
proof -
  have d: "list_all is_digit w0" "list_all is_digit w1" "list_all is_digit w2" "list_all is_digit w3"
    using assms by (simp_all add: octet_field_digits)
  have nodot: "CHR ''.'' \<notin> set w0" "CHR ''.'' \<notin> set w1" "CHR ''.'' \<notin> set w2" "CHR ''.'' \<notin> set w3"
    using d digit_not_sep by (fastforce simp: list_all_iff)+
  have f: "find (\<lambda>c. c = CHR ''.'' \<or> c = CHR '':'' \<or> c = CHR ''%'') w0 = None"
    using d(1) digit_not_sep by (auto simp: find_None_iff list_all_iff)
  have sp: "split_on CHR ''.'' (w0 @ CHR ''.'' # w1 @ CHR ''.'' # w2 @ CHR ''.'' # w3) = [w0, w1, w2, w3]"
    using nodot by (simp add: split_on_append_sep split_on_no_sep)
  show ?thesis
    using f sp assms by (simp add: parse_ip_def parse_ipv4_def find_append_split)
qed

lemma dec_string_inj: "dec_string i = dec_string j \<Longrightarrow> i = j"
  by (metis dec_value_dec_string)

end
