(* ===== verification/AddressResolver.thy ===== *)
theory AddressResolver
  imports GoNet
begin

text \<open>
  \<open>parseIPRange\<close> and \<open>incrementIP\<close> of \<open>src/udp.go\<close> (lines 119--193), which expand
  the target specification of a broadcast into address strings.  The three loops of
  the Go code become recursive functions: the CIDR and range loops may run forever,
  so they are \<open>partial_function (option)\<close> and \<open>None\<close> is a call that never returns;
  the wildcard loop is two nested bounded loops.  A run-time panic of the Go code
  (indexing a missing field) is \<open>Panic\<close> in the result.
\<close>

subsection \<open>Definitions\<close>

text \<open>\<open>incrementIP\<close>: add one to the last byte, carrying into the earlier bytes while
  a byte wraps to zero.\<close>

function incrementIP :: "ip4 \<Rightarrow> ip4" where
  "incrementIP ip =
     (if ip = [] then []
      else (let b = last ip + 1 in
            if 0 < b then butlast ip @ [b] else incrementIP (butlast ip) @ [b]))"
  by pat_completeness auto
termination
  by (relation "measure length") auto

declare incrementIP.simps [simp del]

text \<open>
  The CIDR loop \<open>for ip := ipNet.IP.Mask(ipNet.Mask); ipNet.Contains(ip); c.incrementIP(ip)\<close>
  collecting \<open>ip.String()\<close>.
\<close>

partial_function (option) cidr_loop :: "ip4 \<times> byte list \<Rightarrow> ip4 \<Rightarrow> string list \<Rightarrow> string list option"
where
  "cidr_loop ipnet ip acc =
     (if ipnet_contains ipnet ip then cidr_loop ipnet (incrementIP ip) (acc @ [ip_string ip])
      else Some acc)"

text \<open>
  The range loop \<open>for ip := make(net.IP, len(startIP)); ; c.incrementIP(ip)\<close> whose
  body first does \<open>copy(ip, startIP)\<close>, then appends \<open>ip.String()\<close> and stops when
  \<open>ip.Equal(endIP)\<close>.
\<close>

partial_function (option) range_loop :: "ip4 \<Rightarrow> ip4 \<Rightarrow> ip4 \<Rightarrow> string list \<Rightarrow> string list option"
where
  "range_loop startIP endIP ip acc =
     (let ip' = overwrite ip 0 (take (length ip) startIP);
          acc' = acc @ [ip_string ip']
      in if ip' = endIP then Some acc' else range_loop startIP endIP (incrementIP ip') acc')"

text \<open>The wildcard expansion: \<open>fmt.Sprintf("%s.%s.%d.%d", base[0], base[1], i, j)\<close>
  for \<open>i, j < 256\<close>.\<close>

definition wildcard_ips :: "string \<Rightarrow> string \<Rightarrow> string list" where
  "wildcard_ips b0 b1 =
     concat (map (\<lambda>i. map (\<lambda>j. b0 @ ''.'' @ b1 @ ''.'' @ dec_string i @ ''.'' @ dec_string j)
                          [0..<256]) [0..<256])"

text \<open>
  \<open>parseIPRange\<close>.  The outer \<open>option\<close> is termination (\<open>None\<close>: the call never
  returns), the inner sum the Go result (an \<open>error\<close>, a panic, or the list).
\<close>

definition parseIPRange :: "string \<Rightarrow> (string list result) option" where
  "parseIPRange ipRange =
     (if str_contains ipRange CHR ''/'' then
        (case parse_cidr ipRange of
           None \<Rightarrow> Some (Inl (Err ''invalid CIDR address''))
         | Some ipnet \<Rightarrow>
             map_option (\<lambda>ips. Inr (if 2 < length ips then butlast (tl ips) else ips))
               (cidr_loop ipnet (ip_mask (fst ipnet) (snd ipnet)) []))
      else if str_contains ipRange CHR ''*'' then
        (let base = split_on CHR ''.'' ipRange in
         if length base < 2 then Some (Inl (Panic IndexOutOfRange))
         else Some (Inr (wildcard_ips (base ! 0) (base ! 1))))
      else if str_contains ipRange CHR ''-'' then
        (let parts = split_on CHR ''-'' ipRange in
         if length parts \<noteq> 2 then Some (Inl (Err ''invalid IP range format''))
         else (case (parse_ip (parts ! 0), parse_ip (parts ! 1)) of
                 (Some startIP, Some endIP) \<Rightarrow>
                   map_option Inr (range_loop startIP endIP (replicate (length startIP) 0) [])
               | _ \<Rightarrow> Some (Inl (Err ''invalid IP address in range''))))
      else Some (Inr [ipRange]))"

text \<open>
  The abstract result of the CIDR loop: the \<open>2 ^ (32 - n)\<close> addresses of the block of
  \<open>a\<close>, in increasing order, printed.
\<close>

definition cidr_hosts :: "ip4 \<Rightarrow> nat \<Rightarrow> string list" where
  "cidr_hosts a n =
     (let k = 32 - n; base = ip_nat a div 2 ^ k * 2 ^ k
      in map (\<lambda>j. ip_string (nat_to_bytes 4 (base + j))) [0..<2 ^ k])"

subsection \<open>Lemmas\<close>

declare cidr_loop.simps [code] range_loop.simps [code]

lemma length_incrementIP [simp]: "length (incrementIP ip) = length ip"
proof (induction ip rule: incrementIP.induct)
  case (1 ip)
  then show ?case by (subst incrementIP.simps) (auto simp: Let_def)
qed

lemma incrementIP_nat: "ip_nat (incrementIP ip) = (ip_nat ip + 1) mod 256 ^ length ip"
proof (induction ip rule: incrementIP.induct)
  case (1 ip)
  show ?case
  proof (cases "ip = []")
    case True
    then show ?thesis by (subst incrementIP.simps) simp
  next
    case False
    then obtain xs b where ip: "ip = xs @ [b]" by (cases ip rule: rev_cases) auto
    show ?thesis
    proof (cases "b + 1 = 0")
      case True
      then have "b = - 1" by (rule max_word_wrap)
      then have b: "unat b = 255" by (simp add: unsigned_minus_1_eq_mask mask_eq_exp_minus_1)
      have IH: "ip_nat (incrementIP xs) = (ip_nat xs + 1) mod 256 ^ length xs"
        using "1.IH" False True ip by (simp add: Let_def)
      have "ip_nat (incrementIP ip) = ip_nat (incrementIP xs) * 256"
        using True ip by (subst incrementIP.simps) (simp add: Let_def)
      also have "\<dots> = ((ip_nat xs + 1) mod 256 ^ length xs) * 256" by (simp add: IH)
      also have "\<dots> = ((ip_nat xs + 1) * 256) mod 256 ^ length ip"
        by (metis mod_mult_mult2 ip length_append_singleton power_Suc2)
      also have "\<dots> = (ip_nat ip + 1) mod 256 ^ length ip"
        by (simp add: ip b algebra_simps)
      finally show ?thesis .
    next
      case False
      then have ub: "unat (b + 1) = unat b + 1"
        using unatSuc [of b] by (simp add: add.commute)
      have "ip_nat (incrementIP ip) = ip_nat xs * 256 + unat b + 1"
        using False ip ub by (subst incrementIP.simps) (simp add: Let_def word_neq_0_conv)
      moreover have "ip_nat xs * 256 + unat b + 1 < 256 ^ length ip"
      proof -
        have "ip_nat (xs @ [b + 1]) < 256 ^ length (xs @ [b + 1])" by (rule ip_nat_bound)
        then show ?thesis using ip ub by simp
      qed
      ultimately show ?thesis using ip by simp
    qed
  qed
qed

lemma copy_start: "length ip = length s \<Longrightarrow> overwrite ip 0 s = s"
  by (simp add: overwrite_def)

lemma range_loop_returns_only_if_equal:
  assumes ret: "range_loop s e ip acc = Some r"
  shows "length ip = length s \<longrightarrow> s = e"
proof (rule range_loop.raw_induct [where P = "\<lambda>s e ip acc r. length ip = length s \<longrightarrow> s = e", OF _ ret])
  fix f s e ip acc r
  assume IH: "\<And>s e ip acc r. f s e ip acc = Some r \<Longrightarrow> length ip = length s \<longrightarrow> s = e"
    and eq: "(let ip' = overwrite ip 0 (take (length ip) s); acc' = acc @ [ip_string ip']
              in if ip' = e then Some acc' else f s e (incrementIP ip') acc') = Some r"
  show "length ip = length s \<longrightarrow> s = e"
  proof
    assume len: "length ip = length s"
    show "s = e"
    proof (rule ccontr)
      assume "s \<noteq> e"
      with eq len have "f s e (incrementIP s) (acc @ [ip_string s]) = Some r"
        by (simp add: copy_start Let_def)
      then show False using IH \<open>s \<noteq> e\<close> by fastforce
    qed
  qed
qed

lemma range_loop_same: "length ip = length s \<Longrightarrow> range_loop s s ip acc = Some (acc @ [ip_string s])"
  by (subst range_loop.simps) (simp add: copy_start Let_def)

lemma range_loop_diverges: "length ip = length s \<Longrightarrow> s \<noteq> e \<Longrightarrow> range_loop s e ip acc = None"
  using range_loop_returns_only_if_equal by (cases "range_loop s e ip acc") auto

lemma cidr_loop_returns_only_if_exit:
  assumes ret: "cidr_loop ipnet ip acc = Some r"
  shows "length ip = 4 \<longrightarrow> (\<exists>x. length x = 4 \<and> \<not> ipnet_contains ipnet x)"
proof (rule cidr_loop.raw_induct [where P = "\<lambda>ipnet ip acc r. length ip = 4 \<longrightarrow> (\<exists>x. length x = 4 \<and> \<not> ipnet_contains ipnet x)", OF _ ret])
  fix f ipnet ip acc r
  assume IH: "\<And>ipnet ip acc r. f ipnet ip acc = Some r \<Longrightarrow> length ip = 4 \<longrightarrow> (\<exists>x. length x = 4 \<and> \<not> ipnet_contains ipnet x)"
    and eq: "(if ipnet_contains ipnet ip then f ipnet (incrementIP ip) (acc @ [ip_string ip]) else Some acc) = Some r"
  show "length ip = 4 \<longrightarrow> (\<exists>x. length x = 4 \<and> \<not> ipnet_contains ipnet x)"
  proof
    assume len: "length ip = 4"
    show "\<exists>x. length x = 4 \<and> \<not> ipnet_contains ipnet x"
    proof (cases "ipnet_contains ipnet ip")
      case True
      with eq have "f ipnet (incrementIP ip) (acc @ [ip_string ip]) = Some r" by simp
      with IH len show ?thesis by fastforce
    next
      case False
      with len show ?thesis by blast
    qed
  qed
qed

lemma cidr_loop_diverges:
  "(\<And>x. length x = 4 \<Longrightarrow> ipnet_contains ipnet x) \<Longrightarrow> length ip = 4 \<Longrightarrow> cidr_loop ipnet ip acc = None"
  using cidr_loop_returns_only_if_exit by (cases "cidr_loop ipnet ip acc") blast+

lemma split_range: "c \<notin> set a \<Longrightarrow> c \<notin> set b \<Longrightarrow> split_on c (a @ c # b) = [a, b]"
  by (simp add: split_on_append_sep split_on_no_sep)

lemma block_facts:
  assumes nn: "length nn = 4" and n: "1 \<le> n" "n \<le> 32"
  defines "K \<equiv> (2::nat) ^ (32 - n)" and "B \<equiv> ip_nat nn div 2 ^ (32 - n)"
  shows "B * K + K \<le> 2 ^ 32" and "B * K + K = 2 ^ 32 \<Longrightarrow> 1 \<le> B"
proof -
  have pow: "(2::nat) ^ 32 = 2 ^ n * K"
    using n by (simp add: K_def power_add [symmetric])
  have "B < 2 ^ n"
    using ip_nat_bound4 [OF nn] pow by (simp add: B_def K_def less_mult_imp_div_less)
  then have "B + 1 \<le> 2 ^ n" by simp
  then have "(B + 1) * K \<le> 2 ^ n * K" by (rule mult_right_mono) simp
  then show "B * K + K \<le> 2 ^ 32" using pow by (simp add: algebra_simps)
  show "1 \<le> B" if eq: "B * K + K = 2 ^ 32"
  proof (rule ccontr)
    assume "\<not> 1 \<le> B"
    then have "B = 0" by simp
    with eq have "K = 2 ^ 32" by simp
    moreover have "K < 2 ^ 32"
    proof -
      have "32 - n < 32" using n by simp
      then show ?thesis unfolding K_def by (rule power_strict_increasing) simp
    qed
    ultimately show False by simp
  qed
qed

lemma cidr_loop_block:
  assumes nn: "length nn = 4" and n: "1 \<le> n" "n \<le> 32"
  shows "2 ^ (32 - n) - i = d \<Longrightarrow> i \<le> 2 ^ (32 - n) \<Longrightarrow> length ip = 4 \<Longrightarrow>
         ip_nat ip = (ip_nat nn div 2 ^ (32 - n) * 2 ^ (32 - n) + i) mod 2 ^ 32 \<Longrightarrow>
         cidr_loop (ip_mask nn (cidr_mask n), cidr_mask n) ip acc =
           Some (acc @ map (\<lambda>j. ip_string (nat_to_bytes 4 (ip_nat nn div 2 ^ (32 - n) * 2 ^ (32 - n) + j)))
                           [i..<2 ^ (32 - n)])"
proof (induction d arbitrary: i ip acc)
  let ?K = "(2::nat) ^ (32 - n)" and ?B = "ip_nat nn div 2 ^ (32 - n)"
  have bf: "?B * ?K + ?K \<le> 2 ^ 32" "?B * ?K + ?K = 2 ^ 32 \<Longrightarrow> 1 \<le> ?B"
    using block_facts [OF nn n] by simp_all
  have Kpos: "0 < ?K" by simp
  have contains: "\<And>x. ipnet_contains (ip_mask nn (cidr_mask n), cidr_mask n) x \<longleftrightarrow>
                     length x = 4 \<and> ip_nat x div ?K = ?B"
    using ipnet_contains_block [OF nn n(2)] by simp
  case 0
  then have i: "i = ?K" by simp
  have "\<not> ipnet_contains (ip_mask nn (cidr_mask n), cidr_mask n) ip"
  proof (cases "?B * ?K + ?K = 2 ^ 32")
    case True
    then have "ip_nat ip = 0" using 0 i by simp
    then show ?thesis using bf(2) True contains by simp
  next
    case False
    then have "ip_nat ip = ?B * ?K + ?K" using 0 i bf(1) by simp
    then have "ip_nat ip div ?K = ?B + 1" using Kpos by simp
    then show ?thesis using contains by simp
  qed
  then show ?case using i by (subst cidr_loop.simps) simp
next
  let ?K = "(2::nat) ^ (32 - n)" and ?B = "ip_nat nn div 2 ^ (32 - n)"
  have bf: "?B * ?K + ?K \<le> 2 ^ 32"
    using block_facts [OF nn n] by simp_all
  have contains: "\<And>x. ipnet_contains (ip_mask nn (cidr_mask n), cidr_mask n) x \<longleftrightarrow>
                     length x = 4 \<and> ip_nat x div ?K = ?B"
    using ipnet_contains_block [OF nn n(2)] by simp
  case (Suc d)
  then have i: "i < ?K" by simp
  have val: "ip_nat ip = ?B * ?K + i" using Suc.prems i bf by simp
  have "(?B * ?K + i) div ?K = ?B" using i by simp
  then have c: "ipnet_contains (ip_mask nn (cidr_mask n), cidr_mask n) ip"
    using contains Suc.prems val i by simp
  have ipeq: "ip = nat_to_bytes 4 (?B * ?K + i)" using Suc.prems(3) val by (rule nat_to_bytes_ip)
  have inc: "ip_nat (incrementIP ip) = (?B * ?K + Suc i) mod 2 ^ 32"
    using val Suc.prems(3) by (simp add: incrementIP_nat)
  have rest: "cidr_loop (ip_mask nn (cidr_mask n), cidr_mask n) (incrementIP ip) (acc @ [ip_string ip]) =
     Some ((acc @ [ip_string ip]) @ map (\<lambda>j. ip_string (nat_to_bytes 4 (?B * ?K + j))) [Suc i..<?K])"
  proof -
    have d': "?K - Suc i = d" using Suc.prems(1) by simp
    have si: "Suc i \<le> ?K" using i by simp
    have len': "length (incrementIP ip) = 4" using Suc.prems(3) by simp
    show ?thesis using Suc.IH [OF d' si len' inc] by simp
  qed
  show ?case
    using c rest i ipeq by (subst cidr_loop.simps) (simp add: upt_conv_Cons)
qed

lemma wildcard_ips_product:
  "wildcard_ips b0 b1 =
     map (\<lambda>(i, j). b0 @ ''.'' @ b1 @ ''.'' @ dec_string i @ ''.'' @ dec_string j) (List.product [0..<256] [0..<256])"
  by (simp add: wildcard_ips_def product_concat_map map_concat comp_def)

lemma wildcard_ips_distinct:
  assumes "CHR ''.'' \<notin> set b0" "CHR ''.'' \<notin> set b1"
  shows "distinct (wildcard_ips b0 b1)"
proof -
  let ?g = "\<lambda>(i, j). b0 @ ''.'' @ b1 @ ''.'' @ dec_string i @ ''.'' @ dec_string j"
  have sp: "split_on CHR ''.'' (?g (i, j)) = [b0, b1, dec_string i, dec_string j]" for i j
    using assms by (simp add: split_on_append_sep split_on_no_sep)
  have "inj_on ?g (set (List.product [0..<256] [0..<256]))"
  proof (rule inj_onI)
    fix p q assume "?g p = ?g q" and "p \<in> set (List.product [0..<256] [0..<256])" "q \<in> set (List.product [0..<256] [0..<256])"
    then show "p = q"
      using sp [of "fst p" "snd p"] sp [of "fst q" "snd q"]
      by (cases p; cases q) (auto dest: dec_string_inj)
  qed
  then show ?thesis
    by (simp add: wildcard_ips_product distinct_map distinct_product)
qed

lemma length_wildcard_ips: "length (wildcard_ips b0 b1) = 65536"
  by (simp add: wildcard_ips_product)

lemma wildcard_ips_parse:
  assumes "octet_field b0 = Some v0" "octet_field b1 = Some v1"
  shows "map parse_ip (wildcard_ips b0 b1) =
           map (\<lambda>(i, j). Some [of_nat v0, of_nat v1, of_nat i, of_nat j]) (List.product [0..<256] [0..<256])"
  using assms by (auto simp: wildcard_ips_product parse_ip_quad octet_field_dec_string)

subsection \<open>Properties of \<open>parseIPRange\<close>\<close>

text \<open>
  C8. A CIDR specification \<open>a/n\<close> with \<open>1 \<le> n\<close> terminates and yields the addresses
  of the block of \<open>a\<close> in increasing order, without the first (network) and last
  (broadcast) address when the block has more than two.
\<close>

theorem parseIPRange_cidr:
  assumes "CHR ''/'' \<notin> set a" "parse_ip a = Some x" "prefix_len m = Some n" "1 \<le> n"
  shows "parseIPRange (a @ CHR ''/'' # m) =
           Some (Inr (let hs = cidr_hosts x n in if 2 < length hs then butlast (tl hs) else hs))"
proof -
  have len: "length x = 4" using assms(2) by (rule parse_ip_length)
  have n32: "n \<le> 32" using assms(3) by (rule prefix_len_le)
  let ?net = "ip_mask x (cidr_mask n)"
  have start: "ip_nat (ip_mask ?net (cidr_mask n)) = (ip_nat x div 2 ^ (32 - n) * 2 ^ (32 - n) + 0) mod 2 ^ 32"
  proof -
    have "ip_nat ?net = ip_nat x div 2 ^ (32 - n) * 2 ^ (32 - n)" using len n32 by (rule ip_nat_ip_mask)
    moreover have "ip_nat x div 2 ^ (32 - n) * 2 ^ (32 - n) < 2 ^ 32"
      using ip_nat_bound4 [OF len] div_times_less_eq_dividend [of "ip_nat x" "2 ^ (32 - n)"] by linarith
    ultimately show ?thesis using ip_nat_ip_mask [OF length_ip_mask4 [OF len] n32] by simp
  qed
  have loop: "cidr_loop (?net, cidr_mask n) (ip_mask ?net (cidr_mask n)) [] = Some (cidr_hosts x n)"
    using cidr_loop_block [OF len assms(4) n32 refl _ _ start, of "[]"] len
    by (simp add: cidr_hosts_def length_ip_mask4 Let_def)
  show ?thesis
    using assms loop by (simp add: parseIPRange_def str_contains_def parse_cidr_split Let_def)
qed

text \<open>
  C9. A CIDR specification with prefix length 0 never returns: every address is in
  the block, and \<open>incrementIP\<close> wraps from \<open>255.255.255.255\<close> to \<open>0.0.0.0\<close>, so
  \<open>ipNet.Contains(ip)\<close> never fails.
\<close>

theorem parseIPRange_cidr_zero:
  assumes "CHR ''/'' \<notin> set a" "parse_ip a = Some x" "prefix_len m = Some 0"
  shows "parseIPRange (a @ CHR ''/'' # m) = None"
proof -
  have len: "length x = 4" using assms(2) by (rule parse_ip_length)
  have all: "\<And>y. length y = 4 \<Longrightarrow> ipnet_contains (ip_mask x (cidr_mask 0), cidr_mask 0) y"
    using len by (simp add: ipnet_contains_def cidr_mask_0 ip_mask_zero)
  have "length (ip_mask (ip_mask x (cidr_mask 0)) (cidr_mask 0)) = 4"
    using len by (simp add: cidr_mask_0)
  then show ?thesis
    using assms cidr_loop_diverges [OF all]
    by (simp add: parseIPRange_def str_contains_def parse_cidr_split)
qed

text \<open>
  C10. A range \<open>a-b\<close> of two addresses returns only when they are equal: the loop body
  starts with \<open>copy(ip, startIP)\<close>, which undoes every \<open>incrementIP\<close>, so for
  \<open>a \<noteq> b\<close> the loop appends the start address forever.
\<close>

theorem parseIPRange_range:
  assumes "CHR ''/'' \<notin> set a" "CHR ''/'' \<notin> set b" "CHR ''*'' \<notin> set a" "CHR ''*'' \<notin> set b"
    "CHR ''-'' \<notin> set a" "CHR ''-'' \<notin> set b" "parse_ip a = Some x" "parse_ip b = Some y"
  shows "parseIPRange (a @ CHR ''-'' # b) = (if x = y then Some (Inr [ip_string x]) else None)"
  using assms parse_ip_length[OF assms(7)] parse_ip_length[OF assms(8)]
  by (simp add: parseIPRange_def str_contains_def split_range range_loop_same range_loop_diverges)

text \<open>
  C11. A specification with \<open>*\<close> (and no \<open>/\<close>) expands to exactly 65536 distinct
  strings built from its first two dotted fields.
\<close>

theorem parseIPRange_wildcard:
  assumes "CHR ''/'' \<notin> set s" "CHR ''*'' \<in> set s" "split_on CHR ''.'' s = b0 # b1 # rest"
  shows "parseIPRange s = Some (Inr (wildcard_ips b0 b1)) \<and> length (wildcard_ips b0 b1) = 65536
       \<and> distinct (wildcard_ips b0 b1)"
proof -
  have "CHR ''.'' \<notin> set b0" "CHR ''.'' \<notin> set b1"
    using split_on_fields_no_sep [of _ "CHR ''.''" s] assms(3) by auto
  then show ?thesis
    using assms by (simp add: parseIPRange_def str_contains_def wildcard_ips_distinct length_wildcard_ips)
qed

text \<open>
  C13. \<open>incrementIP\<close> is the successor on the big-endian value of the address,
  modulo \<open>256 ^ len\<close>, and keeps the length.
\<close>

theorem incrementIP_refines_succ:
  "ip_nat (incrementIP ip) = (ip_nat ip + 1) mod 256 ^ length ip \<and> length (incrementIP ip) = length ip"
  by (simp add: incrementIP_nat)

text \<open>
  C14. A specification without \<open>/\<close>, \<open>*\<close> or \<open>-\<close> is returned as the only target,
  unchecked: malformed text is not rejected here.
\<close>

theorem parseIPRange_literal:
  assumes "CHR ''/'' \<notin> set s" "CHR ''*'' \<notin> set s" "CHR ''-'' \<notin> set s"
  shows "parseIPRange s = Some (Inr [s])"
  using assms by (simp add: parseIPRange_def str_contains_def)

text \<open>
  C15. A specification with \<open>*\<close> but no dot makes \<open>base[1]\<close> index past the end
  of \<open>strings.Split\<close>'s result: the Go code panics.
\<close>

theorem parseIPRange_wildcard_panic:
  assumes "CHR ''/'' \<notin> set s" "CHR ''*'' \<in> set s" "CHR ''.'' \<notin> set s"
  shows "parseIPRange s = Some (Inl (Panic IndexOutOfRange))"
  using assms by (simp add: parseIPRange_def str_contains_def split_on_no_sep)

subsection \<open>Witnesses\<close>

theorem parseIPRange_cidr_witness:
  "parseIPRange ''192.168.1.0/30'' = Some (Inr [''192.168.1.1'', ''192.168.1.2''])"
proof -
  have "parseIPRange (''192.168.1.0'' @ CHR ''/'' # ''30'') =
          Some (Inr (let hs = cidr_hosts [192, 168, 1, 0] 30 in if 2 < length hs then butlast (tl hs) else hs))"
    by (rule parseIPRange_cidr)
      (simp_all add: parse_ip_def parse_ipv4_def octet_field_def is_digit_def digit_val_def prefix_len_def)
  moreover have "cidr_hosts [192, 168, 1, 0] 30 = [''192.168.1.0'', ''192.168.1.1'', ''192.168.1.2'', ''192.168.1.3'']"
    by (simp add: cidr_hosts_def nat_to_bytes_4 upt_rec ip_nat_def) code_simp
  ultimately show ?thesis by simp
qed

theorem parseIPRange_cidr_zero_witness: "parseIPRange ''10.0.0.0/0'' = None"
  using parseIPRange_cidr_zero [of "''10.0.0.0''" "[10, 0, 0, 0]" "''0''"]
  by (simp add: parse_ip_def parse_ipv4_def octet_field_def is_digit_def digit_val_def prefix_len_def)

theorem parseIPRange_range_witness: "parseIPRange ''192.168.1.5-192.168.1.8'' = None"
  using parseIPRange_range [of "''192.168.1.5''" "''192.168.1.8''" "[192, 168, 1, 5]" "[192, 168, 1, 8]"]
  by (simp add: parse_ip_def parse_ipv4_def octet_field_def is_digit_def digit_val_def)

theorem parseIPRange_wildcard_witness:
  "parseIPRange ''10.0.*.*'' = Some (Inr (wildcard_ips ''10'' ''0'')) \<and> length (wildcard_ips ''10'' ''0'') = 65536
   \<and> distinct (wildcard_ips ''10'' ''0'')"
  using parseIPRange_wildcard [of "''10.0.*.*''" "''10''" "''0''" "[''*'', ''*'']"] by simp

theorem parseIPRange_literal_witness: "parseIPRange ''not an address'' = Some (Inr [''not an address''])"
  using parseIPRange_literal [of "''not an address''"] by simp

theorem parseIPRange_wildcard_panic_witness: "parseIPRange ''*'' = Some (Inl (Panic IndexOutOfRange))"
  using parseIPRange_wildcard_panic [of "''*''"] by simp

end
