(* ===== verification/Transport.thy ===== *)
theory Transport
  imports ProtocolCodec AddressResolver
begin

text \<open>
  The UDP client of \<open>src/udp.go\<close>: the \<open>UDPClient\<close> struct, \<open>NewUDPClient\<close>,
  \<open>Connect\<close>, \<open>Close\<close>, \<open>generateRandomBytes\<close>, \<open>ipToBytes\<close>, \<open>SendPacket\<close>,
  \<open>SendBroadcastPacket\<close> and the six Send* methods, composed with the packet
  builders of \<open>ProtocolCodec\<close> and the resolver of \<open>AddressResolver\<close>.

  The socket calls are I/O; their outcomes are the fields of an environment
  \<open>net_env\<close> (whether a host name resolves by DNS, whether dial, listen and the two
  socket options succeed, whether a write to a host succeeds, and the bytes
  \<open>crypto/rand\<close> returns).  The operating system's side is the record \<open>net_os\<close>:
  the set of open sockets, the next socket number, and the log of datagrams sent
  (destination host, port, payload).  Every method is a function of the client, the
  environment and the OS state; a method that calls \<open>parseIPRange\<close> returns
  \<open>None\<close> when the resolver never returns.
\<close>

type_synonym sock = nat

record UDPClient =
  TargetIP :: string
  TargetPort :: int
  TeacherIP :: string
  Broadcast :: bool
  conn :: "sock option"
  ipv4Handler :: "sock option"

record net_env =
  dns :: "string \<Rightarrow> bool"
  dial_ok :: bool
  listen_ok :: bool
  ctl_ok :: bool
  ttl_ok :: bool
  write_ok :: "string \<Rightarrow> bool"
  rand_ok :: bool
  rand_bytes :: "nat \<Rightarrow> byte"

record net_os =
  open_socks :: "sock set"
  next_sock :: sock
  sent :: "(string \<times> int \<times> byte list) list"

type_synonym send_result = "(unit result \<times> net_os) option"

subsection \<open>Definitions\<close>

definition NewUDPClient :: "string \<Rightarrow> int \<Rightarrow> string \<Rightarrow> bool \<Rightarrow> UDPClient" where
  "NewUDPClient targetIP targetPort teacherIP broadcast =
     \<lparr>TargetIP = targetIP, TargetPort = targetPort, TeacherIP = teacherIP,
      Broadcast = broadcast, conn = None, ipv4Handler = None\<rparr>"

text \<open>
  \<open>net.ResolveUDPAddr("udp4", host:port)\<close>: the port must be in range, the host must
  not contain a colon (the joined text would not split), and it is either an IPv4
  literal or a name that DNS resolves.
\<close>

definition resolve_udp :: "net_env \<Rightarrow> string \<Rightarrow> int \<Rightarrow> bool" where
  "resolve_udp env host port \<longleftrightarrow>
     0 \<le> port \<and> port \<le> 65535 \<and> CHR '':'' \<notin> set host \<and> (parse_ip host \<noteq> None \<or> dns env host)"

definition open_sock :: "net_os \<Rightarrow> sock \<times> net_os" where
  "open_sock os =
     (next_sock os, os\<lparr>open_socks := insert (next_sock os) (open_socks os), next_sock := Suc (next_sock os)\<rparr>)"

definition close_sock :: "sock \<Rightarrow> net_os \<Rightarrow> net_os" where
  "close_sock s os = os\<lparr>open_socks := open_socks os - {s}\<rparr>"

text \<open>
  \<open>Connect\<close>: the dialled socket is stored in \<open>c.conn\<close> before the broadcast
  branch; the listening socket is stored in \<open>c.ipv4Handler\<close> only once both socket
  options are set.
\<close>

definition Connect :: "net_env \<Rightarrow> UDPClient \<Rightarrow> net_os \<Rightarrow> unit result \<times> UDPClient \<times> net_os" where
  "Connect env c os =
     (if \<not> resolve_udp env (TargetIP c) (TargetPort c) then (Inl (Err ''resolve''), c, os)
      else if \<not> dial_ok env then (Inl (Err ''dial''), c, os)
      else
        (let (s, os1) = open_sock os; c1 = c\<lparr>conn := Some s\<rparr> in
         if \<not> Broadcast c then (Inr (), c1, os1)
         else if \<not> listen_ok env then (Inl (Err ''listen''), c1, os1)
         else
           (let (u, os2) = open_sock os1 in
            if \<not> ctl_ok env then (Inl (Err ''set control message''), c1, os2)
            else if \<not> ttl_ok env then (Inl (Err ''set multicast TTL''), c1, os2)
            else (Inr (), c1\<lparr>ipv4Handler := Some u\<rparr>, os2))))"

definition Close :: "UDPClient \<Rightarrow> net_os \<Rightarrow> UDPClient \<times> net_os" where
  "Close c os =
     (let (c1, os1) = (case conn c of
                         Some s \<Rightarrow> (c\<lparr>conn := None\<rparr>, close_sock s os)
                       | None \<Rightarrow> (c, os))
      in case ipv4Handler c1 of
           Some u \<Rightarrow> (c1\<lparr>ipv4Handler := None\<rparr>, close_sock u os1)
         | None \<Rightarrow> (c1, os1))"

definition generateRandomBytes :: "net_env \<Rightarrow> nat \<Rightarrow> byte list result" where
  "generateRandomBytes env n =
     (if rand_ok env then Inr (map (rand_bytes env) [0..<n]) else Inl (Err ''crypto/rand''))"

definition ipToBytes :: "string \<Rightarrow> byte list result" where
  "ipToBytes ipStr =
     (case parse_ip ipStr of
        None \<Rightarrow> Inl (Err ''invalid IP address'')
      | Some ip \<Rightarrow> Inr [ip ! 0, ip ! 1, ip ! 2, ip ! 3])"

definition SendPacket :: "net_env \<Rightarrow> UDPClient \<Rightarrow> byte list \<Rightarrow> net_os \<Rightarrow> unit result \<times> net_os" where
  "SendPacket env c packet os =
     (if conn c = None then (Inl (Err ''connection not established''), os)
      else if \<not> write_ok env (TargetIP c) then (Inl (Err ''write''), os)
      else (Inr (), os\<lparr>sent := sent os @ [(TargetIP c, TargetPort c, packet)]\<rparr>))"

text \<open>The fan-out loop of \<open>SendBroadcastPacket\<close>: a target that does not resolve or
  whose write fails is skipped; \<open>n\<close> is \<open>successCount\<close>.\<close>

fun broadcast_loop :: "net_env \<Rightarrow> int \<Rightarrow> byte list \<Rightarrow> string list \<Rightarrow> nat \<Rightarrow> net_os \<Rightarrow> nat \<times> net_os" where
  "broadcast_loop env port packet [] n os = (n, os)"
| "broadcast_loop env port packet (target # targets) n os =
     (if \<not> resolve_udp env target port then broadcast_loop env port packet targets n os
      else if \<not> write_ok env target then broadcast_loop env port packet targets n os
      else broadcast_loop env port packet targets (Suc n)
             (os\<lparr>sent := sent os @ [(target, port, packet)]\<rparr>))"

definition broadcast_send :: "net_env \<Rightarrow> int \<Rightarrow> byte list \<Rightarrow> string list \<Rightarrow> net_os \<Rightarrow> unit result \<times> net_os" where
  "broadcast_send env port packet targets os =
     (let (n, os') = broadcast_loop env port packet targets 0 os in
      if n = 0 then (Inl (Err ''failed to send to any target''), os') else (Inr (), os'))"

definition SendBroadcastPacket :: "net_env \<Rightarrow> UDPClient \<Rightarrow> byte list \<Rightarrow> net_os \<Rightarrow> send_result" where
  "SendBroadcastPacket env c packet os =
     (if ipv4Handler c = None then Some (Inl (Err ''broadcast not enabled''), os)
      else (case parseIPRange (TargetIP c) of
              None \<Rightarrow> None
            | Some (Inl e) \<Rightarrow> Some (Inl e, os)
            | Some (Inr targets) \<Rightarrow> Some (broadcast_send env (TargetPort c) packet targets os)))"

text \<open>The common prologue and epilogue of the Send* methods: the nonce, the teacher's
  address, the packet (built by the method's own writes, which may panic), and
  \<open>if c.Broadcast { SendBroadcastPacket } else { SendPacket }\<close>.\<close>

definition dispatch :: "net_env \<Rightarrow> UDPClient \<Rightarrow> byte list \<Rightarrow> net_os \<Rightarrow> send_result" where
  "dispatch env c packet os =
     (if Broadcast c then SendBroadcastPacket env c packet os else Some (SendPacket env c packet os))"

definition send_built ::
  "net_env \<Rightarrow> UDPClient \<Rightarrow> (byte list \<Rightarrow> byte list \<Rightarrow> byte list result) \<Rightarrow> net_os \<Rightarrow> send_result" where
  "send_built env c build os =
     (case generateRandomBytes env 16 of
        Inl e \<Rightarrow> Some (Inl e, os)
      | Inr randomBytes \<Rightarrow>
          (case ipToBytes (TeacherIP c) of
             Inl e \<Rightarrow> Some (Inl e, os)
           | Inr teacherIPBytes \<Rightarrow>
               (case build randomBytes teacherIPBytes of
                  Inl e \<Rightarrow> Some (Inl e, os)
                | Inr packet \<Rightarrow> dispatch env c packet os)))"

definition SendMessage :: "net_env \<Rightarrow> UDPClient \<Rightarrow> int list \<Rightarrow> net_os \<Rightarrow> send_result" where
  "SendMessage env c message os = send_built env c (\<lambda>nonce tip. message_packet nonce tip message) os"

definition Shutdown :: "net_env \<Rightarrow> UDPClient \<Rightarrow> net_os \<Rightarrow> send_result" where
  "Shutdown env c os = send_built env c shutdown_packet os"

definition Reboot :: "net_env \<Rightarrow> UDPClient \<Rightarrow> net_os \<Rightarrow> send_result" where
  "Reboot env c os = send_built env c reboot_packet os"

definition CloseApp :: "net_env \<Rightarrow> UDPClient \<Rightarrow> net_os \<Rightarrow> send_result" where
  "CloseApp env c os = send_built env c closeapp_packet os"

definition SetLoginMode :: "net_env \<Rightarrow> UDPClient \<Rightarrow> bool \<Rightarrow> int \<Rightarrow> net_os \<Rightarrow> send_result" where
  "SetLoginMode env c autoLogin channelID os =
     (if channelID < 1 \<or> 32 < channelID then Some (Inl (Err ''channel ID must be between 1 and 32''), os)
      else send_built env c (login_packet autoLogin channelID) os)"

definition RunCommand :: "net_env \<Rightarrow> UDPClient \<Rightarrow> int list \<Rightarrow> net_os \<Rightarrow> send_result" where
  "RunCommand env c command os = send_built env c (\<lambda>nonce tip. command_packet nonce tip command) os"

definition ParseTargetIP :: "string \<Rightarrow> (string list result) option" where
  "ParseTargetIP ipStr = parseIPRange ipStr"

text \<open>
  The socket discipline the client should keep: the open sockets are exactly those
  the client references, and all of them are below the next socket number.
\<close>

definition sock_inv :: "UDPClient \<Rightarrow> net_os \<Rightarrow> bool" where
  "sock_inv c os \<longleftrightarrow>
     open_socks os = set_option (conn c) \<union> set_option (ipv4Handler c) \<and>
     (\<forall>s \<in> open_socks os. s < next_sock os)"

definition send_ok :: "net_env \<Rightarrow> int \<Rightarrow> string \<Rightarrow> bool" where
  "send_ok env port t \<longleftrightarrow> resolve_udp env t port \<and> write_ok env t"

text \<open>A laboratory network used by the examples: DNS resolves nothing, every socket
  call succeeds, and only \<open>10.0.0.2\<close> and \<open>10.0.0.4\<close> accept datagrams.\<close>

definition lab_env :: net_env where
  "lab_env = \<lparr>dns = (\<lambda>_. False), dial_ok = True, listen_ok = True, ctl_ok = True, ttl_ok = True,
              write_ok = (\<lambda>t. t = ''10.0.0.2'' \<or> t = ''10.0.0.4''), rand_ok = True,
              rand_bytes = (\<lambda>i. of_nat i)\<rparr>"

definition lab_os :: net_os where
  "lab_os = \<lparr>open_socks = {}, next_sock = 3, sent = []\<rparr>"

subsection \<open>Lemmas\<close>

lemma broadcast_loop_eq:
  "broadcast_loop env port packet ts n os =
     (n + length (filter (send_ok env port) ts),
      os\<lparr>sent := sent os @ map (\<lambda>t. (t, port, packet)) (filter (send_ok env port) ts)\<rparr>)"
  by (induction ts arbitrary: n os) (auto simp: send_ok_def)

lemma ip_string_parse: "length x = 4 \<Longrightarrow> parse_ip (ip_string x) = Some x"
proof -
  assume "length x = 4"
  then obtain a b c d where x: "x = [a, b, c, d]"
    by (auto simp: length_Suc_conv eval_nat_numeral)
  have u: "unat (w :: byte) < 256" for w using unsigned_less [of w] by simp
  show ?thesis
    using parse_ip_quad [OF octet_field_dec_string [OF u] octet_field_dec_string [OF u]
                            octet_field_dec_string [OF u] octet_field_dec_string [OF u], of a b c d]
    by (simp add: x)
qed

lemma set_split_on: "set s \<subseteq> insert c (\<Union>w \<in> set (split_on c s). set w)"
proof (induction s)
  case Nil
  then show ?case by simp
next
  case (Cons x xs)
  then show ?case by (auto split: list.splits) blast
qed

lemma those_all: "those xs = Some ys \<Longrightarrow> x \<in> set xs \<Longrightarrow> x \<noteq> None"
  by (induction xs arbitrary: ys) (auto split: option.splits)

lemma parse_ip_chars: "parse_ip s = Some x \<Longrightarrow> c \<in> set s \<Longrightarrow> is_digit c \<or> c = CHR ''.''"
proof -
  assume p: "parse_ip s = Some x" and cs: "c \<in> set s"
  then obtain vs where th: "those (map octet_field (split_on CHR ''.'' s)) = Some vs"
    by (auto simp: parse_ip_def parse_ipv4_def split: option.splits if_splits)
  have fields: "\<forall>w \<in> set (split_on CHR ''.'' s). list_all is_digit w"
  proof
    fix w assume "w \<in> set (split_on CHR ''.'' s)"
    then have "octet_field w \<noteq> None" using those_all [OF th] by auto
    then show "list_all is_digit w" using octet_field_digits by fastforce
  qed
  show ?thesis using cs set_split_on [of s "CHR ''.''"] fields by (auto simp: list_all_iff)
qed

lemma spec_not_literal:
  "CHR ''/'' \<in> set s \<or> CHR ''*'' \<in> set s \<or> CHR ''-'' \<in> set s \<Longrightarrow> parse_ip s = None"
proof (rule ccontr)
  assume c: "CHR ''/'' \<in> set s \<or> CHR ''*'' \<in> set s \<or> CHR ''-'' \<in> set s" and "parse_ip s \<noteq> None"
  then obtain x where "parse_ip s = Some x" by blast
  moreover have "\<not> is_digit CHR ''/''" "\<not> is_digit CHR ''*''" "\<not> is_digit CHR ''-''"
    by (simp_all add: is_digit_def)
  ultimately show False using c parse_ip_chars [of s x] by fastforce
qed

lemma login_run_panics:
  "length nonce = 16 \<Longrightarrow> length tip = 4 \<Longrightarrow>
   login_packet autoLogin channelID nonce tip = Inl (Panic SliceBoundsOutOfRange)"
  by (simp add: login_packet_def login_ops_def make_bytes_def)

lemma command_run_panics:
  "length nonce = 16 \<Longrightarrow> length tip = 4 \<Longrightarrow> \<exists>p. command_packet nonce tip command = Inl (Panic p)"
  by (simp add: command_packet_def command_ops_def make_bytes_def)

lemma ip4_nth: "length ip = 4 \<Longrightarrow> [ip ! 0, ip ! 1, ip ! 2, ip ! 3] = ip"
  by (auto simp: length_Suc_conv eval_nat_numeral)

lemma ipToBytes_parse: "parse_ip s = Some ip \<Longrightarrow> ipToBytes s = Inr ip"
proof -
  assume p: "parse_ip s = Some ip"
  then have "length ip = 4" by (rule parse_ip_length)
  then show ?thesis unfolding ipToBytes_def using p ip4_nth by simp
qed

lemma ipToBytes_length: "ipToBytes s = Inr t \<Longrightarrow> length t = 4"
  by (auto simp: ipToBytes_def split: option.splits)

lemma generateRandomBytes_length: "generateRandomBytes env n = Inr r \<Longrightarrow> length r = n"
  by (auto simp: generateRandomBytes_def split: if_splits)

lemma send_built_fails:
  assumes "\<And>nonce tip. length nonce = 16 \<Longrightarrow> length tip = 4 \<Longrightarrow> isl (build nonce tip)"
  shows "\<exists>e. send_built env c build os = Some (Inl e, os)"
  using assms generateRandomBytes_length [of env 16] ipToBytes_length [of "TeacherIP c"]
  by (auto simp: send_built_def split: sum.splits) (metis sum.disc(2))

lemma Close_sock_inv:
  "sock_inv c os \<Longrightarrow> open_socks (snd (Close c os)) = {}"
  by (auto simp: sock_inv_def Close_def close_sock_def split: option.splits)

lemma Connect_fresh_cases:
  assumes "Connect env c os = (r, c', os')"
  shows "(r, c', os') \<in> {(Inl (Err ''resolve''), c, os), (Inl (Err ''dial''), c, os),
            (Inr (), c\<lparr>conn := Some (next_sock os)\<rparr>,
               os\<lparr>open_socks := insert (next_sock os) (open_socks os), next_sock := Suc (next_sock os)\<rparr>),
            (Inl (Err ''listen''), c\<lparr>conn := Some (next_sock os)\<rparr>,
               os\<lparr>open_socks := insert (next_sock os) (open_socks os), next_sock := Suc (next_sock os)\<rparr>)}
        \<or> (let os2 = os\<lparr>open_socks := insert (Suc (next_sock os)) (insert (next_sock os) (open_socks os)),
                         next_sock := Suc (Suc (next_sock os))\<rparr>
           in (r, c', os') \<in> {(Inl (Err ''set control message''), c\<lparr>conn := Some (next_sock os)\<rparr>, os2),
                              (Inl (Err ''set multicast TTL''), c\<lparr>conn := Some (next_sock os)\<rparr>, os2),
                              (Inr (), c\<lparr>conn := Some (next_sock os), ipv4Handler := Some (Suc (next_sock os))\<rparr>, os2)})"
  using assms by (auto simp: Connect_def open_sock_def Let_def split: if_splits)

lemmas lab_parse = parse_ip_def parse_ipv4_def octet_field_def is_digit_def digit_val_def

subsection \<open>Properties of the client\<close>

text \<open>
  C16. \<open>SendBroadcastPacket\<close>'s fan-out sends the packet to every target that
  resolves and accepts the write, in order, skipping the others; it reports success
  exactly when at least one send succeeded (partial failure is tolerated) and
  "failed to send to any target" when none did.
\<close>

theorem broadcast_send_counts:
  "broadcast_send env port packet ts os =
     (if filter (send_ok env port) ts = [] then Inl (Err ''failed to send to any target'') else Inr (),
      os\<lparr>sent := sent os @ map (\<lambda>t. (t, port, packet)) (filter (send_ok env port) ts)\<rparr>)"
  by (simp add: broadcast_send_def broadcast_loop_eq)

text \<open>
  C17. In unicast mode, a connected client with working randomness and a valid
  teacher address sends exactly one datagram for \<open>SendMessage\<close>: to its target
  and port, carrying the 954-byte message packet with the random bytes as nonce.
\<close>

theorem SendMessage_unicast:
  assumes "\<not> Broadcast c" "conn c \<noteq> None" "rand_ok env" "parse_ip (TeacherIP c) = Some tip"
    "length (stringToUTF16LE m) \<le> 898" "write_ok env (TargetIP c)"
  shows "SendMessage env c m os =
           Some (Inr (), os\<lparr>sent := sent os @ [(TargetIP c, TargetPort c,
                   message_layout (map (rand_bytes env) [0..<16]) tip (stringToUTF16LE m))]\<rparr>)"
  using assms parse_ip_length [OF assms(4)]
  by (simp add: SendMessage_def send_built_def generateRandomBytes_def ipToBytes_parse
      message_packet_def message_run_eq dispatch_def SendPacket_def)

text \<open>
  C18. In broadcast mode with the fan-out socket open, \<open>SendMessage\<close> resolves the
  target specification and fans the same message packet out to the resolved
  addresses.
\<close>

theorem SendMessage_broadcast:
  assumes "Broadcast c" "ipv4Handler c \<noteq> None" "rand_ok env" "parse_ip (TeacherIP c) = Some tip"
    "length (stringToUTF16LE m) \<le> 898" "parseIPRange (TargetIP c) = Some (Inr targets)"
  shows "SendMessage env c m os =
           Some (broadcast_send env (TargetPort c)
                   (message_layout (map (rand_bytes env) [0..<16]) tip (stringToUTF16LE m)) targets os)"
  using assms(1,3-6) parse_ip_length [OF assms(4)]
  by (simp add: SendMessage_def send_built_def generateRandomBytes_def ipToBytes_parse
      message_packet_def message_run_eq dispatch_def SendBroadcastPacket_def assms(2))

text \<open>
  C19. \<open>SetLoginMode\<close> and \<open>RunCommand\<close> never send anything: for every client,
  environment and argument they return an error or a panic and leave the network
  state unchanged.
\<close>

theorem login_command_never_send:
  "(\<exists>e. SetLoginMode env c autoLogin channelID os = Some (Inl e, os))
   \<and> (\<exists>e. RunCommand env c command os = Some (Inl e, os))"
proof
  show "\<exists>e. SetLoginMode env c autoLogin channelID os = Some (Inl e, os)"
    by (simp add: SetLoginMode_def send_built_fails login_run_panics)
  show "\<exists>e. RunCommand env c command os = Some (Inl e, os)"
    unfolding RunCommand_def by (rule send_built_fails) (auto dest: command_run_panics [of _ _ command])
qed

text \<open>
  C20. A successful \<open>Connect\<close> from a client without sockets keeps the socket
  discipline (the open sockets are exactly those the client references), and the
  following \<open>Close\<close> closes all of them.
\<close>

theorem Connect_Close_no_leak:
  assumes "sock_inv c os" "conn c = None" "ipv4Handler c = None" "Connect env c os = (Inr (), c', os')"
  shows "sock_inv c' os' \<and> open_socks (snd (Close c' os')) = {}"
proof -
  have "sock_inv c' os'"
    using Connect_fresh_cases [OF assms(4)] assms(1-3) by (auto simp: sock_inv_def Let_def)
  then show ?thesis using Close_sock_inv by blast
qed

text \<open>
  C21. When \<open>Connect\<close> fails in broadcast mode after \<open>ListenPacket\<close> succeeded
  (\<open>SetControlMessage\<close> or \<open>SetMulticastTTL\<close> fails), the listening socket is
  neither stored nor closed: the socket discipline is broken and \<open>Close\<close> leaves it
  open.
\<close>

theorem Connect_failure_leaks_socket:
  assumes "Broadcast c" "resolve_udp env (TargetIP c) (TargetPort c)" "dial_ok env" "listen_ok env"
    "\<not> ctl_ok env \<or> \<not> ttl_ok env" "sock_inv c os" "conn c = None" "ipv4Handler c = None"
    "Connect env c os = (r, c', os')"
  shows "isl r \<and> \<not> sock_inv c' os' \<and> open_socks (snd (Close c' os')) = {Suc (next_sock os)}"
proof -
  have os: "open_socks os = {}" using assms(6-8) by (simp add: sock_inv_def)
  have c': "c' = c\<lparr>conn := Some (next_sock os)\<rparr>" and isl: "isl r"
    and os': "open_socks os' = {next_sock os, Suc (next_sock os)}"
    using assms(9) assms(1-5) os by (auto simp: Connect_def open_sock_def Let_def split: if_splits)
  have "\<not> sock_inv c' os'" using os' assms(8) by (auto simp: sock_inv_def c')
  moreover have "open_socks (snd (Close c' os')) = {Suc (next_sock os)}"
    using os' assms(8) by (auto simp: Close_def close_sock_def c')
  ultimately show ?thesis using isl by blast
qed

text \<open>
  C22. \<open>Connect\<close> resolves the whole target specification as one host name.  A
  CIDR, wildcard or range specification is never an IPv4 literal, so unless DNS
  resolves that text, \<open>Connect\<close> fails and every broadcast send reports
  "broadcast not enabled".
\<close>

theorem Connect_broadcast_range_spec:
  assumes "CHR ''/'' \<in> set (TargetIP c) \<or> CHR ''*'' \<in> set (TargetIP c) \<or> CHR ''-'' \<in> set (TargetIP c)"
    "\<not> dns env (TargetIP c)" "ipv4Handler c = None" "Connect env c os = (r, c', os')"
  shows "r = Inl (Err ''resolve'') \<and> SendBroadcastPacket env c' packet os' = Some (Inl (Err ''broadcast not enabled''), os')"
  using assms spec_not_literal [OF assms(1)]
  by (auto simp: Connect_def resolve_udp_def SendBroadcastPacket_def)

text \<open>
  \<open>ipToBytes\<close> reads back every four-byte address that \<open>IP.String\<close> prints.
\<close>

lemma ipToBytes_ip_string: "length ip = 4 \<Longrightarrow> ipToBytes (ip_string ip) = Inr ip"
  by (simp add: ipToBytes_parse ip_string_parse)

subsection \<open>Witnesses\<close>

theorem broadcast_send_counts_witness:
  "fst (broadcast_send lab_env 4705 [1, 2, 3]
          [''10.0.0.1'', ''10.0.0.2'', ''10.0.0.3'', ''10.0.0.4'', ''10.0.0.5''] lab_os) = Inr ()
   \<and> map fst (sent (snd (broadcast_send lab_env 4705 [1, 2, 3]
          [''10.0.0.1'', ''10.0.0.2'', ''10.0.0.3'', ''10.0.0.4'', ''10.0.0.5''] lab_os))) = [''10.0.0.2'', ''10.0.0.4'']
   \<and> fst (broadcast_send (lab_env\<lparr>write_ok := \<lambda>_. False\<rparr>) 4705 [1, 2, 3]
          [''10.0.0.1'', ''10.0.0.2'', ''10.0.0.3'', ''10.0.0.4'', ''10.0.0.5''] lab_os)
       = Inl (Err ''failed to send to any target'')"
  by (simp add: broadcast_send_counts send_ok_def resolve_udp_def lab_env_def lab_os_def lab_parse)

theorem Connect_Close_no_leak_witness:
  "sock_inv (NewUDPClient ''10.0.0.5'' 4705 ''192.168.1.10'' True\<lparr>conn := Some 3, ipv4Handler := Some 4\<rparr>)
            \<lparr>open_socks = {4, 3}, next_sock = 5, sent = []\<rparr>
   \<and> open_socks (snd (Close (NewUDPClient ''10.0.0.5'' 4705 ''192.168.1.10'' True\<lparr>conn := Some 3, ipv4Handler := Some 4\<rparr>)
                            \<lparr>open_socks = {4, 3}, next_sock = 5, sent = []\<rparr>)) = {}"
proof -
  have "Connect lab_env (NewUDPClient ''10.0.0.5'' 4705 ''192.168.1.10'' True) lab_os =
          (Inr (), NewUDPClient ''10.0.0.5'' 4705 ''192.168.1.10'' True\<lparr>conn := Some 3, ipv4Handler := Some 4\<rparr>,
           \<lparr>open_socks = {4, 3}, next_sock = 5, sent = []\<rparr>)"
    by (simp add: Connect_def resolve_udp_def open_sock_def NewUDPClient_def lab_env_def lab_os_def lab_parse)
  then show ?thesis
    using Connect_Close_no_leak [of "NewUDPClient ''10.0.0.5'' 4705 ''192.168.1.10'' True" lab_os lab_env]
    by (simp add: sock_inv_def NewUDPClient_def lab_os_def)
qed

theorem Connect_failure_leaks_socket_witness:
  "Connect (lab_env\<lparr>ctl_ok := False\<rparr>) (NewUDPClient ''10.0.0.5'' 4705 ''192.168.1.10'' True) lab_os =
     (Inl (Err ''set control message''), NewUDPClient ''10.0.0.5'' 4705 ''192.168.1.10'' True\<lparr>conn := Some 3\<rparr>,
      \<lparr>open_socks = {4, 3}, next_sock = 5, sent = []\<rparr>)
   \<and> open_socks (snd (Close (NewUDPClient ''10.0.0.5'' 4705 ''192.168.1.10'' True\<lparr>conn := Some 3\<rparr>)
                            \<lparr>open_socks = {4, 3}, next_sock = 5, sent = []\<rparr>)) = {4}"
proof -
  have r: "resolve_udp (lab_env\<lparr>ctl_ok := False\<rparr>) ''10.0.0.5'' 4705"
    by (simp add: resolve_udp_def lab_env_def lab_parse)
  have c: "Connect (lab_env\<lparr>ctl_ok := False\<rparr>) (NewUDPClient ''10.0.0.5'' 4705 ''192.168.1.10'' True) lab_os =
     (Inl (Err ''set control message''), NewUDPClient ''10.0.0.5'' 4705 ''192.168.1.10'' True\<lparr>conn := Some 3\<rparr>,
      \<lparr>open_socks = {4, 3}, next_sock = 5, sent = []\<rparr>)"
    using r by (simp add: Connect_def open_sock_def NewUDPClient_def lab_env_def lab_os_def)
  show ?thesis
    using Connect_failure_leaks_socket [of "NewUDPClient ''10.0.0.5'' 4705 ''192.168.1.10'' True"
            "lab_env\<lparr>ctl_ok := False\<rparr>" lab_os "Inl (Err ''set control message'')"
            "NewUDPClient ''10.0.0.5'' 4705 ''192.168.1.10'' True\<lparr>conn := Some 3\<rparr>"
            "\<lparr>open_socks = {4, 3}, next_sock = 5, sent = []\<rparr>"] c r
    by (simp add: NewUDPClient_def lab_env_def lab_os_def sock_inv_def)
qed

theorem Connect_broadcast_range_spec_witness:
  "Connect lab_env (NewUDPClient ''192.168.1.0/24'' 4705 ''192.168.1.10'' True) lab_os =
     (Inl (Err ''resolve''), NewUDPClient ''192.168.1.0/24'' 4705 ''192.168.1.10'' True, lab_os)
   \<and> SendBroadcastPacket lab_env (NewUDPClient ''192.168.1.0/24'' 4705 ''192.168.1.10'' True) [1, 2, 3] lab_os
     = Some (Inl (Err ''broadcast not enabled''), lab_os)"
proof -
  have c: "Connect lab_env (NewUDPClient ''192.168.1.0/24'' 4705 ''192.168.1.10'' True) lab_os =
             (Inl (Err ''resolve''), NewUDPClient ''192.168.1.0/24'' 4705 ''192.168.1.10'' True, lab_os)"
    by (simp add: Connect_def resolve_udp_def spec_not_literal lab_env_def NewUDPClient_def)
  show ?thesis
    using Connect_broadcast_range_spec [of "NewUDPClient ''192.168.1.0/24'' 4705 ''192.168.1.10'' True" lab_env
            lab_os "Inl (Err ''resolve'')" "NewUDPClient ''192.168.1.0/24'' 4705 ''192.168.1.10'' True" lab_os "[1, 2, 3]"] c
    by (simp add: NewUDPClient_def lab_env_def)
qed

theorem SendMessage_unicast_witness:
  "SendMessage lab_env (NewUDPClient ''10.0.0.2'' 4705 ''192.168.1.10'' False\<lparr>conn := Some 3\<rparr>) [104, 105] lab_os =
     Some (Inr (), lab_os\<lparr>sent := [(''10.0.0.2'', 4705,
             message_layout (map of_nat [0..<16]) [192, 168, 1, 10] [0x68, 0, 0x69, 0])]\<rparr>)"
proof -
  have enc: "stringToUTF16LE [104, 105] = [0x68, 0, 0x69, 0]"
    by (simp add: stringToUTF16LE_def utf16_encode_def utf16_unit_def rune_len_def le16_def)
  show ?thesis
    using SendMessage_unicast [of "NewUDPClient ''10.0.0.2'' 4705 ''192.168.1.10'' False\<lparr>conn := Some 3\<rparr>"
            lab_env "[192, 168, 1, 10]" "[104, 105]" lab_os]
    by (simp add: enc NewUDPClient_def lab_env_def lab_os_def lab_parse)
qed

theorem SendMessage_broadcast_witness:
  "SendMessage lab_env (NewUDPClient ''10.0.0.2'' 4705 ''192.168.1.10'' True\<lparr>conn := Some 3, ipv4Handler := Some 4\<rparr>)
     [104, 105] lab_os =
   Some (broadcast_send lab_env 4705 (message_layout (map of_nat [0..<16]) [192, 168, 1, 10] [0x68, 0, 0x69, 0])
           [''10.0.0.2''] lab_os)"
proof -
  have enc: "stringToUTF16LE [104, 105] = [0x68, 0, 0x69, 0]"
    by (simp add: stringToUTF16LE_def utf16_encode_def utf16_unit_def rune_len_def le16_def)
  have lit: "parseIPRange ''10.0.0.2'' = Some (Inr [''10.0.0.2''])"
    by (simp add: parseIPRange_def str_contains_def)
  show ?thesis
    using SendMessage_broadcast [of "NewUDPClient ''10.0.0.2'' 4705 ''192.168.1.10'' True\<lparr>conn := Some 3, ipv4Handler := Some 4\<rparr>"
            lab_env "[192, 168, 1, 10]" "[104, 105]" "[''10.0.0.2'']" lab_os]
    by (simp add: enc lit NewUDPClient_def lab_env_def lab_parse)
qed


end
