(* ===== verification/ProcessController.thy ===== *)
theory ProcessController
  imports Prelude
begin

text \<open>
  The process controller of \<open>src/process.go\<close>: \<open>FindMythwareProcess\<close>,
  \<open>GetProcessState\<close>, \<open>GetMythwareProcessState\<close>, \<open>IsMythwareRunning\<close>,
  \<open>IsMythwareSuspended\<close>, \<open>KillMythwareProcess\<close> with \<open>KillProcessByThreads\<close>,
  \<open>SuspendMythwareProcess\<close>, \<open>ResumeMythwareProcess\<close>, \<open>StartMythwareProcess\<close> and
  \<open>GetMythwareInstallPath\<close>.

  The Win32 side is an explicit state \<open>win_os\<close>: the process list and the thread list
  (each thread with its owner and its suspend count) in the order a Toolhelp
  snapshot returns them, whether snapshots can be taken, which \<open>OpenThread\<close> and
  \<open>OpenProcess\<close> requests are granted, which \<open>TerminateThread\<close> calls succeed, the
  registry (key path to value map) and the executables present on disk.  The
  kernel calls (\<open>SuspendThread\<close>, \<open>ResumeThread\<close>, \<open>TerminateThread\<close>,
  \<open>NtSuspendProcess\<close>, \<open>NtResumeProcess\<close>, \<open>CreateProcess\<close>) are modelled from their
  documentation, including \<open>MAXIMUM_SUSPEND_COUNT\<close> and the \<open>(DWORD) -1\<close> failure
  value of \<open>SuspendThread\<close>.  A loop of the source walks a snapshot (a copy of the
  list taken at its start) while the live state changes under it.
\<close>

record proc_entry =
  ProcessID :: u32
  ExeFile :: string

record thread_entry =
  ThreadID :: u32
  OwnerProcessID :: u32
  SuspendCount :: nat

record win_os =
  procs :: "proc_entry list"
  threads :: "thread_entry list"
  snap_ok :: bool
  thread_grant :: "u32 \<Rightarrow> u32 \<Rightarrow> bool"
  terminate_ok :: "u32 \<Rightarrow> bool"
  process_grant :: "u32 \<Rightarrow> u32 \<Rightarrow> bool"
  registry :: "string \<Rightarrow> (string \<Rightarrow> string option) option"
  exe_exists :: "string \<Rightarrow> bool"
  next_pid :: u32
  next_tid :: u32

type_synonym handle = "64 word"

subsection \<open>Definitions: the Win32 calls\<close>

definition TH32CS_SNAPPROCESS :: u32 where "TH32CS_SNAPPROCESS = 0x2"
definition TH32CS_SNAPTHREAD :: u32 where "TH32CS_SNAPTHREAD = 0x4"
definition THREAD_TERMINATE :: u32 where "THREAD_TERMINATE = 0x1"
definition THREAD_SUSPEND_RESUME :: u32 where "THREAD_SUSPEND_RESUME = 0x2"
definition THREAD_QUERY_INFORMATION :: u32 where "THREAD_QUERY_INFORMATION = 0x40"
definition PROCESS_SUSPEND_RESUME :: u32 where "PROCESS_SUSPEND_RESUME = 0x800"

definition MAXIMUM_SUSPEND_COUNT :: nat where "MAXIMUM_SUSPEND_COUNT = 127"

definition INVALID_HANDLE_VALUE :: handle where "INVALID_HANDLE_VALUE = - 1"

text \<open>\<open>CreateToolhelp32Snapshot\<close> returns \<open>INVALID_HANDLE_VALUE\<close> on failure (never 0).\<close>

definition CreateToolhelp32Snapshot :: "win_os \<Rightarrow> handle" where
  "CreateToolhelp32Snapshot os = (if snap_ok os then 0x100 else INVALID_HANDLE_VALUE)"

definition snapshot_procs :: "handle \<Rightarrow> win_os \<Rightarrow> proc_entry list" where
  "snapshot_procs h os = (if h = INVALID_HANDLE_VALUE then [] else procs os)"

definition snapshot_threads :: "handle \<Rightarrow> win_os \<Rightarrow> thread_entry list" where
  "snapshot_threads h os = (if h = INVALID_HANDLE_VALUE then [] else threads os)"

definition thread_exists :: "u32 \<Rightarrow> win_os \<Rightarrow> bool" where
  "thread_exists t os \<longleftrightarrow> list_ex (\<lambda>th. ThreadID th = t) (threads os)"

definition OpenThread :: "u32 \<Rightarrow> u32 \<Rightarrow> win_os \<Rightarrow> bool" where
  "OpenThread access t os \<longleftrightarrow> thread_exists t os \<and> thread_grant os access t"

definition update_thread :: "u32 \<Rightarrow> (nat \<Rightarrow> nat) \<Rightarrow> win_os \<Rightarrow> win_os" where
  "update_thread t f os =
     os\<lparr>threads := map (\<lambda>th. if ThreadID th = t then th\<lparr>SuspendCount := f (SuspendCount th)\<rparr> else th)
                      (threads os)\<rparr>"

definition suspend_count :: "u32 \<Rightarrow> win_os \<Rightarrow> nat option" where
  "suspend_count t os = map_option SuspendCount (find (\<lambda>th. ThreadID th = t) (threads os))"

text \<open>\<open>SuspendThread\<close>: the previous count, or \<open>(DWORD) -1\<close> when the count is already
  at \<open>MAXIMUM_SUSPEND_COUNT\<close>.  \<open>ResumeThread\<close>: the previous count; a count of 0 is
  left alone.\<close>

definition SuspendThread :: "u32 \<Rightarrow> win_os \<Rightarrow> u32 \<times> win_os" where
  "SuspendThread t os =
     (case suspend_count t os of
        None \<Rightarrow> (0xFFFFFFFF, os)
      | Some n \<Rightarrow> if n < MAXIMUM_SUSPEND_COUNT then (of_nat n, update_thread t Suc os)
                  else (0xFFFFFFFF, os))"

definition ResumeThread :: "u32 \<Rightarrow> win_os \<Rightarrow> u32 \<times> win_os" where
  "ResumeThread t os =
     (case suspend_count t os of
        None \<Rightarrow> (0xFFFFFFFF, os)
      | Some n \<Rightarrow> (of_nat n, if 0 < n then update_thread t (\<lambda>k. k - 1) os else os))"

text \<open>\<open>TerminateThread\<close> removes the thread; a process whose last thread ends exits.\<close>

definition TerminateThread :: "u32 \<Rightarrow> win_os \<Rightarrow> bool \<times> win_os" where
  "TerminateThread t os =
     (if terminate_ok os t then
        (let ths = filter (\<lambda>th. ThreadID th \<noteq> t) (threads os) in
         (True, os\<lparr>threads := ths,
                   procs := filter (\<lambda>p. list_ex (\<lambda>th. OwnerProcessID th = ProcessID p) ths) (procs os)\<rparr>))
      else (False, os))"

definition OpenProcess :: "u32 \<Rightarrow> u32 \<Rightarrow> win_os \<Rightarrow> bool" where
  "OpenProcess access p os \<longleftrightarrow> list_ex (\<lambda>e. ProcessID e = p) (procs os) \<and> process_grant os access p"

text \<open>\<open>NtSuspendProcess\<close> / \<open>NtResumeProcess\<close>: every thread of the process is
  suspended (up to the maximum count) or resumed once; the status is \<open>STATUS_SUCCESS\<close>.\<close>

definition NtSuspendProcess :: "u32 \<Rightarrow> win_os \<Rightarrow> u32 \<times> win_os" where
  "NtSuspendProcess p os =
     (0, os\<lparr>threads := map (\<lambda>th. if OwnerProcessID th = p \<and> SuspendCount th < MAXIMUM_SUSPEND_COUNT
                                  then th\<lparr>SuspendCount := Suc (SuspendCount th)\<rparr> else th) (threads os)\<rparr>)"

definition NtResumeProcess :: "u32 \<Rightarrow> win_os \<Rightarrow> u32 \<times> win_os" where
  "NtResumeProcess p os =
     (0, os\<lparr>threads := map (\<lambda>th. if OwnerProcessID th = p then th\<lparr>SuspendCount := SuspendCount th - 1\<rparr>
                               else th) (threads os)\<rparr>)"

text \<open>\<open>registry.OpenKey\<close> and \<open>Key.GetStringValue\<close>.\<close>

definition reg_open :: "string \<Rightarrow> win_os \<Rightarrow> (string \<Rightarrow> string option) result" where
  "reg_open path os = (case registry os path of None \<Rightarrow> Inl (Err ''key not found'') | Some k \<Rightarrow> Inr k)"

definition reg_value :: "(string \<Rightarrow> string option) \<Rightarrow> string \<Rightarrow> string result" where
  "reg_value k name = (case k name of None \<Rightarrow> Inl (Err ''value not found'') | Some v \<Rightarrow> Inr v)"

text \<open>\<open>CreateProcess\<close> of an executable path: the new process gets the next process
  and thread identifiers, one running thread, and the file name as \<open>ExeFile\<close>.
  \<open>syscall.UTF16PtrFromString\<close> rejects a path with a NUL character, and the source
  then passes a nil application name, which \<open>CreateProcess\<close> refuses.\<close>

definition CreateProcess :: "string \<Rightarrow> string \<Rightarrow> win_os \<Rightarrow> bool \<times> win_os" where
  "CreateProcess path name os =
     (if CHR 0x00 \<in> set path \<or> \<not> exe_exists os path then (False, os)
      else (True, os\<lparr>procs := procs os @ [\<lparr>ProcessID = next_pid os, ExeFile = name\<rparr>],
                     threads := threads os @ [\<lparr>ThreadID = next_tid os, OwnerProcessID = next_pid os,
                                                SuspendCount = 0\<rparr>],
                     next_pid := next_pid os + 4, next_tid := next_tid os + 4\<rparr>))"

subsection \<open>Definitions: \<open>process.go\<close>\<close>

text \<open>\<open>FindMythwareProcess\<close> (lines 86-114): the first process of the snapshot whose
  executable name is \<open>StudentMain.exe\<close>, 0 when there is none.  The source tests the
  snapshot handle against 0, not against \<open>INVALID_HANDLE_VALUE\<close>.\<close>

fun find_loop :: "proc_entry list \<Rightarrow> u32" where
  "find_loop [] = 0"
| "find_loop (e # es) = (if ExeFile e = ''StudentMain.exe'' then ProcessID e else find_loop es)"

definition FindMythwareProcess :: "win_os \<Rightarrow> u32" where
  "FindMythwareProcess os =
     (let snapshot = CreateToolhelp32Snapshot os in
      if snapshot = 0 then 0
      else (let es = snapshot_procs snapshot os in if es = [] then 0 else find_loop es))"

text \<open>The loop of \<open>GetProcessState\<close> (lines 135-155): for each thread of the process
  that opens, \<open>SuspendThread\<close>, classify by the value it returned, \<open>ResumeThread\<close>.\<close>

fun state_loop :: "u32 \<Rightarrow> thread_entry list \<Rightarrow> bool \<Rightarrow> bool \<Rightarrow> win_os \<Rightarrow> bool \<times> bool \<times> win_os" where
  "state_loop pid [] running suspended os = (running, suspended, os)"
| "state_loop pid (e # es) running suspended os =
     (if OwnerProcessID e = pid \<and> OpenThread (THREAD_SUSPEND_RESUME OR THREAD_QUERY_INFORMATION) (ThreadID e) os
      then
        (let (prev, os1) = SuspendThread (ThreadID e) os;
             os2 = snd (ResumeThread (ThreadID e) os1)
         in if prev = 0 then state_loop pid es True suspended os2
            else state_loop pid es running True os2)
      else state_loop pid es running suspended os)"

definition GetProcessState :: "u32 \<Rightarrow> win_os \<Rightarrow> int \<times> win_os" where
  "GetProcessState pid os =
     (let snapshot = CreateToolhelp32Snapshot os in
      if snapshot = 0 then (-1, os)
      else
        (let es = snapshot_threads snapshot os in
         if es = [] then (-1, os)
         else
           (let (running, suspended, os') = state_loop pid es False False os in
            (if running then 0 else if suspended then 1 else -1, os'))))"

definition GetMythwareProcessState :: "win_os \<Rightarrow> (u32 \<times> int) \<times> win_os" where
  "GetMythwareProcessState os =
     (let pid = FindMythwareProcess os in
      if pid = 0 then ((0, -1), os)
      else (let (state, os') = GetProcessState pid os in ((pid, state), os')))"

definition IsMythwareRunning :: "win_os \<Rightarrow> bool \<times> win_os" where
  "IsMythwareRunning os =
     (let ((pid, state), os') = GetMythwareProcessState os in (pid \<noteq> 0 \<and> state = 0, os'))"

definition IsMythwareSuspended :: "win_os \<Rightarrow> bool \<times> win_os" where
  "IsMythwareSuspended os = (let ((_, state), os') = GetMythwareProcessState os in (state = 1, os'))"

text \<open>The loop of \<open>KillProcessByThreads\<close> (lines 203-218).\<close>

fun kill_loop :: "u32 \<Rightarrow> thread_entry list \<Rightarrow> bool \<Rightarrow> win_os \<Rightarrow> bool \<times> win_os" where
  "kill_loop pid [] success os = (success, os)"
| "kill_loop pid (e # es) success os =
     (if OwnerProcessID e = pid \<and> OpenThread THREAD_TERMINATE (ThreadID e) os then
        (let (ret, os1) = TerminateThread (ThreadID e) os in kill_loop pid es (success \<or> ret) os1)
      else kill_loop pid es success os)"

definition KillProcessByThreads :: "u32 \<Rightarrow> win_os \<Rightarrow> bool \<times> win_os" where
  "KillProcessByThreads pid os =
     (let snapshot = CreateToolhelp32Snapshot os in
      if snapshot = 0 then (False, os)
      else (let es = snapshot_threads snapshot os in
            if es = [] then (False, os) else kill_loop pid es False os))"

definition KillMythwareProcess :: "win_os \<Rightarrow> bool \<times> win_os" where
  "KillMythwareProcess os =
     (let pid = FindMythwareProcess os in if pid = 0 then (False, os) else KillProcessByThreads pid os)"

definition SuspendMythwareProcess :: "win_os \<Rightarrow> bool \<times> win_os" where
  "SuspendMythwareProcess os =
     (let pid = FindMythwareProcess os in
      if pid = 0 then (False, os)
      else if \<not> OpenProcess PROCESS_SUSPEND_RESUME pid os then (False, os)
      else (let (ret, os') = NtSuspendProcess pid os in (ret = 0, os')))"

definition ResumeMythwareProcess :: "win_os \<Rightarrow> bool \<times> win_os" where
  "ResumeMythwareProcess os =
     (let pid = FindMythwareProcess os in
      if pid = 0 then (False, os)
      else if \<not> OpenProcess PROCESS_SUSPEND_RESUME pid os then (False, os)
      else (let (ret, os') = NtResumeProcess pid os in (ret = 0, os')))"

text \<open>Registry paths are written with the backslash character \<open>CHR 0x5C\<close>.\<close>

fun path_join :: "string list \<Rightarrow> string" where
  "path_join [] = []"
| "path_join [x] = x"
| "path_join (x # xs) = x @ CHR 0x5C # path_join xs"

definition key_wow64 :: string where
  "key_wow64 = path_join [''SOFTWARE'', ''WOW6432Node'', ''TopDomain'', ''e-Learning Class Standard'', ''1.00'']"

definition key_native :: string where
  "key_native = path_join [''SOFTWARE'', ''TopDomain'', ''e-Learning Class Standard'', ''1.00'']"

definition GetMythwareInstallPath :: "win_os \<Rightarrow> string result" where
  "GetMythwareInstallPath os =
     (let key = (case reg_open key_wow64 os of
                   Inl _ \<Rightarrow> reg_open key_native os
                 | Inr k \<Rightarrow> Inr k)
      in case key of
           Inl e \<Rightarrow> Inl e
         | Inr k \<Rightarrow> reg_value k ''TargetDirectory'')"

text \<open>\<open>exePath := path + "\\StudentMain.exe"\<close>.\<close>

definition student_exe :: "string \<Rightarrow> string" where
  "student_exe path = path @ CHR 0x5C # ''StudentMain.exe''"

definition StartMythwareProcess :: "win_os \<Rightarrow> bool \<times> win_os" where
  "StartMythwareProcess os =
     (case GetMythwareInstallPath os of
        Inl _ \<Rightarrow> (False, os)
      | Inr path \<Rightarrow> CreateProcess (student_exe path) ''StudentMain.exe'' os)"

subsection \<open>Definitions: the abstract view\<close>

text \<open>\<open>GetProcessState\<close> opens threads with \<open>THREAD_SUSPEND_RESUME | THREAD_QUERY_INFORMATION\<close>;
  the threads of a process it can probe; the specification's classification of the
  counts it reads; the threads \<open>KillProcessByThreads\<close> can end.  Two concrete systems
  for the examples: \<open>lab_win\<close> runs the agent (pid 1200) with one running and one
  suspended thread, \<open>lab_fresh\<close> has the agent installed but not running.\<close>

definition state_access :: u32 where
  "state_access = THREAD_SUSPEND_RESUME OR THREAD_QUERY_INFORMATION"

definition pid_threads :: "u32 \<Rightarrow> win_os \<Rightarrow> thread_entry list" where
  "pid_threads pid os =
     filter (\<lambda>e. OwnerProcessID e = pid \<and> thread_grant os state_access (ThreadID e)) (threads os)"

definition classify :: "nat list \<Rightarrow> int" where
  "classify ns = (if 0 \<in> set ns then 0 else if ns \<noteq> [] then 1 else -1)"

definition killable :: "win_os \<Rightarrow> u32 \<Rightarrow> thread_entry \<Rightarrow> bool" where
  "killable os pid th \<longleftrightarrow>
     OwnerProcessID th = pid \<and> thread_grant os THREAD_TERMINATE (ThreadID th) \<and> terminate_ok os (ThreadID th)"

definition lab_win :: win_os where
  "lab_win =
     \<lparr>procs = [\<lparr>ProcessID = 4, ExeFile = ''System''\<rparr>, \<lparr>ProcessID = 1200, ExeFile = ''StudentMain.exe''\<rparr>],
      threads = [\<lparr>ThreadID = 8, OwnerProcessID = 4, SuspendCount = 0\<rparr>,
                 \<lparr>ThreadID = 1204, OwnerProcessID = 1200, SuspendCount = 0\<rparr>,
                 \<lparr>ThreadID = 1208, OwnerProcessID = 1200, SuspendCount = 1\<rparr>],
      snap_ok = True, thread_grant = (\<lambda>a t. t \<noteq> 8), terminate_ok = (\<lambda>t. True),
      process_grant = (\<lambda>a p. a = PROCESS_SUSPEND_RESUME \<and> p = 1200),
      registry = (\<lambda>k. if k = key_native
                        then Some (\<lambda>v. if v = ''TargetDirectory'' then Some (path_join [''C:'', ''Mythware'']) else None)
                        else None),
      exe_exists = (\<lambda>p. p = student_exe (path_join [''C:'', ''Mythware''])),
      next_pid = 2000, next_tid = 2004\<rparr>"

definition lab_fresh :: win_os where
  "lab_fresh = lab_win\<lparr>procs := [\<lparr>ProcessID = 4, ExeFile = ''System''\<rparr>],
                       threads := [\<lparr>ThreadID = 8, OwnerProcessID = 4, SuspendCount = 0\<rparr>]\<rparr>"

subsection \<open>Lemmas\<close>

lemma tids_update_thread [simp]: "map ThreadID (threads (update_thread t f os)) = map ThreadID (threads os)"
  unfolding update_thread_def by (induction "threads os") auto

lemma thread_exists_tids: "thread_exists t os \<longleftrightarrow> t \<in> set (map ThreadID (threads os))"
  by (auto simp: thread_exists_def list_ex_iff)

lemma OpenThread_update [simp]: "OpenThread a t (update_thread t' f os) = OpenThread a t os"
proof -
  have "thread_exists t (update_thread t' f os) = thread_exists t os"
    unfolding thread_exists_tids by (simp only: tids_update_thread)
  then show ?thesis by (simp add: OpenThread_def update_thread_def)
qed

lemma find_map_tid:
  "find (\<lambda>th. ThreadID th = t) (map (\<lambda>th. if ThreadID th = t' then th\<lparr>SuspendCount := g th\<rparr> else th) xs) =
   map_option (\<lambda>th. if ThreadID th = t' then th\<lparr>SuspendCount := g th\<rparr> else th) (find (\<lambda>th. ThreadID th = t) xs)"
  by (induction xs) auto

lemma suspend_count_update:
  "suspend_count t (update_thread t' f os) =
     (if t = t' then map_option f (suspend_count t os) else suspend_count t os)"
  by (auto simp: suspend_count_def update_thread_def find_map_tid option.map_comp comp_def
           intro!: option.map_cong0 dest!: find_Some_iff [THEN iffD1])

lemma update_thread_comp: "update_thread t f (update_thread t g os) = update_thread t (f \<circ> g) os"
  unfolding update_thread_def by (induction "threads os") auto

lemma update_thread_ident: "update_thread t id os = os"
proof -
  have "map (\<lambda>th. if ThreadID th = t then th\<lparr>SuspendCount := id (SuspendCount th)\<rparr> else th) (threads os) = threads os"
    by (rule map_idI) simp
  then show ?thesis by (simp add: update_thread_def)
qed

lemma suspend_resume_restore:
  assumes "suspend_count t os = Some n" "n < MAXIMUM_SUSPEND_COUNT"
  shows "SuspendThread t os = (of_nat n, update_thread t Suc os)"
    and "snd (ResumeThread t (update_thread t Suc os)) = os"
proof -
  show "SuspendThread t os = (of_nat n, update_thread t Suc os)"
    using assms by (simp add: SuspendThread_def)
  have "update_thread t (\<lambda>k. k - 1) (update_thread t Suc os) = os"
    by (simp add: update_thread_comp comp_def update_thread_ident [unfolded id_def])
  then show "snd (ResumeThread t (update_thread t Suc os)) = os"
    using assms by (simp add: ResumeThread_def suspend_count_update)
qed

lemma suspend_at_max:
  assumes "suspend_count t os = Some MAXIMUM_SUSPEND_COUNT"
  shows "SuspendThread t os = (0xFFFFFFFF, os)"
    and "snd (ResumeThread t os) = update_thread t (\<lambda>k. k - 1) os"
  using assms by (simp_all add: SuspendThread_def ResumeThread_def MAXIMUM_SUSPEND_COUNT_def)

lemma find_tid_distinct:
  "distinct (map ThreadID xs) \<Longrightarrow> e \<in> set xs \<Longrightarrow> find (\<lambda>th. ThreadID th = ThreadID e) xs = Some e"
  by (induction xs) (auto simp: rev_image_eqI)

lemma suspend_count_distinct:
  "distinct (map ThreadID (threads os)) \<Longrightarrow> e \<in> set (threads os) \<Longrightarrow> suspend_count (ThreadID e) os = Some (SuspendCount e)"
  by (simp add: suspend_count_def find_tid_distinct)

lemma u32_of_nat_eq_0: "n < 2 ^ 32 \<Longrightarrow> (of_nat n = (0 :: u32)) = (n = 0)"
  by (auto simp: word_of_nat_eq_0_iff dest: dvd_imp_le)

lemma open_state_access:
  "e \<in> set (threads os) \<Longrightarrow> OpenThread state_access (ThreadID e) os = thread_grant os state_access (ThreadID e)"
  by (auto simp: OpenThread_def thread_exists_def list_ex_iff)

lemma state_loop_pure:
  assumes "\<forall>e \<in> set es. OwnerProcessID e = pid \<and> OpenThread state_access (ThreadID e) os \<longrightarrow>
             suspend_count (ThreadID e) os = Some (SuspendCount e) \<and> SuspendCount e < MAXIMUM_SUSPEND_COUNT"
  shows "state_loop pid es r s os =
           (r \<or> (\<exists>e \<in> set es. OwnerProcessID e = pid \<and> OpenThread state_access (ThreadID e) os \<and> SuspendCount e = 0),
            s \<or> (\<exists>e \<in> set es. OwnerProcessID e = pid \<and> OpenThread state_access (ThreadID e) os \<and> SuspendCount e \<noteq> 0),
            os)"
  using assms
proof (induction es arbitrary: r s)
  case Nil
  then show ?case by simp
next
  case (Cons e es)
  show ?case
  proof (cases "OwnerProcessID e = pid \<and> OpenThread state_access (ThreadID e) os")
    case True
    with Cons.prems have sc: "suspend_count (ThreadID e) os = Some (SuspendCount e)"
      and lt: "SuspendCount e < MAXIMUM_SUSPEND_COUNT" by auto
    have small: "SuspendCount e < 2 ^ 32" using lt by (simp add: MAXIMUM_SUSPEND_COUNT_def)
    show ?thesis
      using True Cons.IH Cons.prems suspend_resume_restore [OF sc lt] u32_of_nat_eq_0 [OF small]
      by (auto simp: state_access_def Let_def)
  next
    case False
    then show ?thesis using Cons.IH Cons.prems by (auto simp: state_access_def)
  qed
qed

lemma GetProcessState_eq:
  assumes "snap_ok os" "distinct (map ThreadID (threads os))"
    "\<forall>e \<in> set (pid_threads pid os). SuspendCount e < MAXIMUM_SUSPEND_COUNT"
  shows "GetProcessState pid os = (classify (map SuspendCount (pid_threads pid os)), os)"
proof (cases "threads os = []")
  case True
  then show ?thesis using assms(1)
    by (simp add: GetProcessState_def CreateToolhelp32Snapshot_def snapshot_threads_def
        INVALID_HANDLE_VALUE_def pid_threads_def classify_def)
next
  case False
  have pre: "\<forall>e \<in> set (threads os). OwnerProcessID e = pid \<and> OpenThread state_access (ThreadID e) os \<longrightarrow>
              suspend_count (ThreadID e) os = Some (SuspendCount e) \<and> SuspendCount e < MAXIMUM_SUSPEND_COUNT"
    using assms(2,3) by (auto simp: suspend_count_distinct open_state_access pid_threads_def)
  have mem: "(e \<in> set (threads os) \<and> OwnerProcessID e = pid \<and> OpenThread state_access (ThreadID e) os) =
              (e \<in> set (pid_threads pid os))" for e
    by (auto simp: pid_threads_def open_state_access)
  have sl: "state_loop pid (threads os) False False os =
              (\<exists>e \<in> set (pid_threads pid os). SuspendCount e = 0,
               \<exists>e \<in> set (pid_threads pid os). SuspendCount e \<noteq> 0, os)"
    using state_loop_pure [OF pre, of False False] mem by (simp add: Bex_def) blast
  have cls: "(if \<exists>e \<in> set (pid_threads pid os). SuspendCount e = 0 then 0
              else if \<exists>e \<in> set (pid_threads pid os). SuspendCount e \<noteq> 0 then 1 else -1)
             = classify (map SuspendCount (pid_threads pid os))"
    by (auto simp: classify_def)
  have snap: "CreateToolhelp32Snapshot os \<noteq> 0" "CreateToolhelp32Snapshot os \<noteq> INVALID_HANDLE_VALUE"
    using assms(1) by (simp_all add: CreateToolhelp32Snapshot_def INVALID_HANDLE_VALUE_def)
  show ?thesis
    using False snap assms(1)
    by (simp add: GetProcessState_def snapshot_threads_def sl cls [symmetric] state_access_def [symmetric])
qed

lemma state_loop_append:
  "state_loop pid (xs @ ys) r s os =
     (let (r', s', os') = state_loop pid xs r s os in state_loop pid ys r' s' os')"
  by (induction pid xs r s os rule: state_loop.induct) (auto simp: Let_def split: prod.splits)

lemma state_loop_skip:
  "\<forall>e \<in> set es. \<not> (OwnerProcessID e = pid \<and> OpenThread state_access (ThreadID e) os) \<Longrightarrow>
   state_loop pid es r s os = (r, s, os)"
  by (induction es arbitrary: r s) (auto simp: state_access_def)

lemma find_loop_find:
  "find_loop es = (case find (\<lambda>e. ExeFile e = ''StudentMain.exe'') es of None \<Rightarrow> 0 | Some e \<Rightarrow> ProcessID e)"
  by (induction es) auto

lemma TerminateThread_fields [simp]:
  "thread_grant (snd (TerminateThread t os)) = thread_grant os"
  "terminate_ok (snd (TerminateThread t os)) = terminate_ok os"
  by (simp_all add: TerminateThread_def Let_def)

lemma kill_loop_eq:
  "distinct (map ThreadID es) \<Longrightarrow> set es \<subseteq> set (threads os) \<Longrightarrow> distinct (map ThreadID (threads os)) \<Longrightarrow>
   fst (kill_loop pid es b os) = (b \<or> list_ex (killable os pid) es)
   \<and> threads (snd (kill_loop pid es b os)) = filter (\<lambda>th. \<not> (killable os pid th \<and> th \<in> set es)) (threads os)"
proof (induction es arbitrary: b os)
  case Nil
  then show ?case by simp
next
  case (Cons e es)
  have e_in: "e \<in> set (threads os)" using Cons.prems(2) by simp
  have open_e: "OpenThread THREAD_TERMINATE (ThreadID e) os = thread_grant os THREAD_TERMINATE (ThreadID e)"
    using e_in by (auto simp: OpenThread_def thread_exists_def list_ex_iff)
  have tid_e: "\<And>th. th \<in> set (threads os) \<Longrightarrow> ThreadID th = ThreadID e \<Longrightarrow> th = e"
    using Cons.prems(3) e_in by (metis distinct_map inj_onD)
  have es_tid: "\<And>th. th \<in> set es \<Longrightarrow> ThreadID th \<noteq> ThreadID e"
  proof
    fix th assume "th \<in> set es" "ThreadID th = ThreadID e"
    then have "ThreadID e \<in> ThreadID ` set es" by (metis imageI)
    then show False using Cons.prems(1) by simp
  qed
  show ?case
  proof (cases "OwnerProcessID e = pid \<and> thread_grant os THREAD_TERMINATE (ThreadID e) \<and> terminate_ok os (ThreadID e)")
    case True
    define os1 where "os1 = snd (TerminateThread (ThreadID e) os)"
    have th1: "threads os1 = filter (\<lambda>th. ThreadID th \<noteq> ThreadID e) (threads os)"
      using True by (simp add: os1_def TerminateThread_def Let_def)
    have k1: "killable os1 pid = killable os pid" by (simp add: killable_def os1_def fun_eq_iff)
    have pre: "distinct (map ThreadID es)" "set es \<subseteq> set (threads os1)" "distinct (map ThreadID (threads os1))"
      using Cons.prems es_tid by (auto simp: th1 distinct_map_filter)
    have run: "kill_loop pid (e # es) b os = kill_loop pid es True os1"
      using True open_e by (simp add: os1_def TerminateThread_def Let_def)
    show ?thesis
      unfolding run using Cons.IH [OF pre, of True] True tid_e es_tid
      by (auto simp: k1 th1 killable_def intro!: filter_cong)
  next
    case False
    have run: "kill_loop pid (e # es) b os = kill_loop pid es b os"
      using False open_e by (auto simp: TerminateThread_def)
    have nk: "\<not> killable os pid e" using False by (simp add: killable_def)
    show ?thesis
      unfolding run using Cons.IH [of os b] Cons.prems nk by (auto intro!: filter_cong)
  qed
qed

lemma NtSuspendProcess_fields [simp]:
  "procs (snd (NtSuspendProcess p os)) = procs os" "snap_ok (snd (NtSuspendProcess p os)) = snap_ok os"
  "process_grant (snd (NtSuspendProcess p os)) = process_grant os"
  "thread_grant (snd (NtSuspendProcess p os)) = thread_grant os"
  "map ThreadID (threads (snd (NtSuspendProcess p os))) = map ThreadID (threads os)"
  by (simp_all add: NtSuspendProcess_def comp_def)

lemma NtResumeProcess_fields [simp]:
  "procs (snd (NtResumeProcess p os)) = procs os" "snap_ok (snd (NtResumeProcess p os)) = snap_ok os"
  "process_grant (snd (NtResumeProcess p os)) = process_grant os"
  by (simp_all add: NtResumeProcess_def)

lemma FindMythwareProcess_procs:
  "procs os' = procs os \<Longrightarrow> snap_ok os' = snap_ok os \<Longrightarrow> FindMythwareProcess os' = FindMythwareProcess os"
  by (simp add: FindMythwareProcess_def CreateToolhelp32Snapshot_def snapshot_procs_def)

lemma OpenProcess_procs:
  "procs os' = procs os \<Longrightarrow> process_grant os' = process_grant os \<Longrightarrow> OpenProcess a p os' = OpenProcess a p os"
  by (simp add: OpenProcess_def)

lemma SuspendMythwareProcess_True:
  "SuspendMythwareProcess os = (True, os1) \<Longrightarrow>
   FindMythwareProcess os \<noteq> 0 \<and> OpenProcess PROCESS_SUSPEND_RESUME (FindMythwareProcess os) os
   \<and> os1 = snd (NtSuspendProcess (FindMythwareProcess os) os)"
  by (auto simp: SuspendMythwareProcess_def Let_def NtSuspendProcess_def split: if_splits)

lemma resume_suspend_threads:
  assumes "\<forall>th \<in> set (threads os). OwnerProcessID th = p \<longrightarrow> SuspendCount th < MAXIMUM_SUSPEND_COUNT"
  shows "snd (NtResumeProcess p (snd (NtSuspendProcess p os))) = os"
proof -
  have "map ((\<lambda>th. if OwnerProcessID th = p then th\<lparr>SuspendCount := SuspendCount th - 1\<rparr> else th) \<circ>
             (\<lambda>th. if OwnerProcessID th = p \<and> SuspendCount th < MAXIMUM_SUSPEND_COUNT
                   then th\<lparr>SuspendCount := Suc (SuspendCount th)\<rparr> else th)) (threads os) = threads os"
    by (rule map_idI) (use assms in auto)
  then show ?thesis by (simp add: NtSuspendProcess_def NtResumeProcess_def)
qed

lemma pid_threads_suspend:
  assumes "\<forall>th \<in> set (threads os). OwnerProcessID th = p \<longrightarrow> SuspendCount th < MAXIMUM_SUSPEND_COUNT"
  shows "pid_threads p (snd (NtSuspendProcess p os)) =
           map (\<lambda>th. th\<lparr>SuspendCount := Suc (SuspendCount th)\<rparr>) (pid_threads p os)"
proof -
  have "filter (\<lambda>e. OwnerProcessID e = p \<and> thread_grant os state_access (ThreadID e))
          (map (\<lambda>th. if OwnerProcessID th = p \<and> SuspendCount th < MAXIMUM_SUSPEND_COUNT
                     then th\<lparr>SuspendCount := Suc (SuspendCount th)\<rparr> else th) xs)
        = map (\<lambda>th. th\<lparr>SuspendCount := Suc (SuspendCount th)\<rparr>)
            (filter (\<lambda>e. OwnerProcessID e = p \<and> thread_grant os state_access (ThreadID e)) xs)"
    if "\<forall>th \<in> set xs. OwnerProcessID th = p \<longrightarrow> SuspendCount th < MAXIMUM_SUSPEND_COUNT" for xs
    using that by (induction xs) auto
  then show ?thesis using assms by (simp add: pid_threads_def NtSuspendProcess_def)
qed

subsection \<open>Properties of the process controller\<close>

text \<open>
  C24. \<open>GetProcessState\<close> classifies as the specification says, and without a trace:
  with a working snapshot, distinct thread identifiers and every suspend count of
  the process's openable threads below \<open>MAXIMUM_SUSPEND_COUNT\<close>, it reports Unknown
  (-1) when no thread opens, Running (0) when some thread had count 0, Suspended (1)
  when all had a positive count, and leaves the state as it found it.
\<close>

theorem GetProcessState_classifies:
  assumes "snap_ok os" "distinct (map ThreadID (threads os))"
    "\<forall>e \<in> set (pid_threads pid os). SuspendCount e < MAXIMUM_SUSPEND_COUNT"
  shows "(pid_threads pid os = [] \<longrightarrow> fst (GetProcessState pid os) = -1)
       \<and> ((\<exists>e \<in> set (pid_threads pid os). SuspendCount e = 0) \<longrightarrow> fst (GetProcessState pid os) = 0)
       \<and> (pid_threads pid os \<noteq> [] \<and> (\<forall>e \<in> set (pid_threads pid os). 0 < SuspendCount e) \<longrightarrow>
            fst (GetProcessState pid os) = 1)
       \<and> snd (GetProcessState pid os) = os"
  using GetProcessState_eq [OF assms] by (auto simp: classify_def)

text \<open>
  C25. The probe is not harmless at the limit: when the process's one openable thread
  is already at \<open>MAXIMUM_SUSPEND_COUNT\<close>, \<open>SuspendThread\<close> fails with
  \<open>(DWORD) -1\<close> (counted as suspended) but the unconditional \<open>ResumeThread\<close> still
  lowers the count, so the thread ends one resume closer to running.
\<close>

theorem GetProcessState_destructive_at_max:
  assumes "snap_ok os" "distinct (map ThreadID (threads os))" "pid_threads pid os = [e]"
    "SuspendCount e = MAXIMUM_SUSPEND_COUNT"
  shows "GetProcessState pid os = (1, update_thread (ThreadID e) (\<lambda>k. k - 1) os)"
proof -
  obtain xs ys where split: "threads os = xs @ e # ys"
    and xs: "\<forall>u \<in> set xs. \<not> (OwnerProcessID u = pid \<and> thread_grant os state_access (ThreadID u))"
    and e: "OwnerProcessID e = pid \<and> thread_grant os state_access (ThreadID e)"
    and ys: "[] = filter (\<lambda>u. OwnerProcessID u = pid \<and> thread_grant os state_access (ThreadID u)) ys"
    using filter_eq_ConsD [OF assms(3) [unfolded pid_threads_def]] by blast
  have ys': "\<forall>u \<in> set ys. \<not> (OwnerProcessID u = pid \<and> thread_grant os state_access (ThreadID u))"
    using ys [symmetric] by (simp only: filter_empty_conv)
  have mem: "\<And>u. u \<in> set (threads os) \<Longrightarrow> OpenThread state_access (ThreadID u) os = thread_grant os state_access (ThreadID u)"
    by (rule open_state_access)
  have e_in: "e \<in> set (threads os)" using split by simp
  have sc: "suspend_count (ThreadID e) os = Some MAXIMUM_SUSPEND_COUNT"
    using suspend_count_distinct [OF assms(2) e_in] assms(4) by simp
  define os' where "os' = update_thread (ThreadID e) (\<lambda>k. k - 1) os"
  have skip_xs: "state_loop pid xs False False os = (False, False, os)"
    by (rule state_loop_skip) (use xs mem split in auto)
  have skip_ys: "state_loop pid ys False True os' = (False, True, os')"
    by (rule state_loop_skip) (use ys' mem split in \<open>auto simp: os'_def\<close>)
  have step: "state_loop pid (e # ys) False False os = state_loop pid ys False True os'"
  proof -
    have rel: "OwnerProcessID e = pid \<and> OpenThread (THREAD_SUSPEND_RESUME OR THREAD_QUERY_INFORMATION) (ThreadID e) os"
      using e mem [OF e_in] by (simp add: state_access_def)
    show ?thesis using rel by (simp add: suspend_at_max [OF sc] os'_def)
  qed
  have loop: "state_loop pid (threads os) False False os = (False, True, os')"
    by (simp only: split state_loop_append skip_xs Let_def prod.case step skip_ys)
  have snap: "CreateToolhelp32Snapshot os \<noteq> 0" "CreateToolhelp32Snapshot os \<noteq> INVALID_HANDLE_VALUE"
    using assms(1) by (simp_all add: CreateToolhelp32Snapshot_def INVALID_HANDLE_VALUE_def)
  show ?thesis
    using snap loop e_in by (auto simp add: GetProcessState_def snapshot_threads_def os'_def Let_def)
qed

text \<open>
  C26. \<open>FindMythwareProcess\<close> returns the identifier of the first process in the
  snapshot named \<open>StudentMain.exe\<close>, and 0 when there is none; a failed snapshot
  also gives 0, although the source tests the handle against 0 instead of
  \<open>INVALID_HANDLE_VALUE\<close>.
\<close>

theorem FindMythwareProcess_first:
  "FindMythwareProcess os =
     (if snap_ok os then (case find (\<lambda>e. ExeFile e = ''StudentMain.exe'') (procs os) of
                            None \<Rightarrow> 0 | Some e \<Rightarrow> ProcessID e)
      else 0)"
  by (auto simp: FindMythwareProcess_def CreateToolhelp32Snapshot_def snapshot_procs_def
      INVALID_HANDLE_VALUE_def find_loop_find Let_def)

text \<open>
  C27. \<open>KillProcessByThreads\<close> terminates exactly the threads of the process that
  open with \<open>THREAD_TERMINATE\<close> and whose termination succeeds, leaves every other
  thread, and reports success exactly when at least one termination succeeded.
\<close>

theorem KillProcessByThreads_result:
  assumes "snap_ok os" "distinct (map ThreadID (threads os))"
  shows "fst (KillProcessByThreads pid os) = list_ex (killable os pid) (threads os)
       \<and> threads (snd (KillProcessByThreads pid os)) = filter (\<lambda>th. \<not> killable os pid th) (threads os)"
proof -
  have snap: "CreateToolhelp32Snapshot os \<noteq> 0" "CreateToolhelp32Snapshot os \<noteq> INVALID_HANDLE_VALUE"
    using assms(1) by (simp_all add: CreateToolhelp32Snapshot_def INVALID_HANDLE_VALUE_def)
  show ?thesis
    using snap kill_loop_eq [of "threads os" os pid False] assms(2)
    by (auto simp: KillProcessByThreads_def snapshot_threads_def Let_def intro!: filter_cong)
qed

text \<open>
  C28. A successful \<open>SuspendMythwareProcess\<close> followed by \<open>ResumeMythwareProcess\<close>
  succeeds and restores the state exactly, when no thread of the process was at the
  maximum suspend count.
\<close>

theorem Suspend_Resume_roundtrip:
  assumes "SuspendMythwareProcess os = (True, os1)"
    "\<forall>th \<in> set (threads os). OwnerProcessID th = FindMythwareProcess os \<longrightarrow> SuspendCount th < MAXIMUM_SUSPEND_COUNT"
  shows "ResumeMythwareProcess os1 = (True, os)"
proof -
  define p where "p = FindMythwareProcess os"
  have s: "p \<noteq> 0" "OpenProcess PROCESS_SUSPEND_RESUME p os" "os1 = snd (NtSuspendProcess p os)"
    using SuspendMythwareProcess_True [OF assms(1)] by (simp_all add: p_def)
  have f: "FindMythwareProcess os1 = p" "OpenProcess PROCESS_SUSPEND_RESUME p os1"
    using s FindMythwareProcess_procs [of os1 os] OpenProcess_procs [of os1 os PROCESS_SUSPEND_RESUME p] by (simp_all add: p_def)
  show ?thesis
  proof -
    have r: "snd (NtResumeProcess p os1) = os"
      using s(3) resume_suspend_threads [of os p] assms(2) by (simp add: p_def)
    have "fst (NtResumeProcess p os1) = 0" by (simp add: NtResumeProcess_def)
    with r have "NtResumeProcess p os1 = (0, os)" by (simp add: prod_eq_iff)
    then show ?thesis
      using f s(1) by (simp add: ResumeMythwareProcess_def Let_def)
  qed
qed

text \<open>
  C29. After a successful \<open>SuspendMythwareProcess\<close> of a process with an openable
  thread, \<open>IsMythwareSuspended\<close> reports it suspended.
\<close>

theorem suspended_after_Suspend:
  assumes "snap_ok os" "distinct (map ThreadID (threads os))" "SuspendMythwareProcess os = (True, os1)"
    "pid_threads (FindMythwareProcess os) os \<noteq> []"
    "\<forall>th \<in> set (threads os). OwnerProcessID th = FindMythwareProcess os \<longrightarrow> Suc (SuspendCount th) < MAXIMUM_SUSPEND_COUNT"
  shows "fst (IsMythwareSuspended os1)"
proof -
  define p where "p = FindMythwareProcess os"
  have s: "p \<noteq> 0" "os1 = snd (NtSuspendProcess p os)"
    using SuspendMythwareProcess_True [OF assms(3)] by (simp_all add: p_def)
  have f: "FindMythwareProcess os1 = p"
    using s FindMythwareProcess_procs [of os1 os] by (simp add: p_def)
  have lt: "\<forall>th \<in> set (threads os). OwnerProcessID th = p \<longrightarrow> SuspendCount th < MAXIMUM_SUSPEND_COUNT"
    using assms(5) by (auto simp: p_def)
  have pt: "pid_threads p os1 = map (\<lambda>th. th\<lparr>SuspendCount := Suc (SuspendCount th)\<rparr>) (pid_threads p os)"
    using pid_threads_suspend [OF lt] s(2) by simp
  have bound: "\<forall>e \<in> set (pid_threads p os1). SuspendCount e < MAXIMUM_SUSPEND_COUNT"
    unfolding pt using assms(5) by (auto simp: pid_threads_def p_def)
  have d: "distinct (map ThreadID (threads os1))" "snap_ok os1"
    using assms(1,2) s(2) NtSuspendProcess_fields(2,5) [of p os] by simp_all
  have st: "GetProcessState p os1 = (1, os1)"
  proof -
    have ne: "pid_threads p os \<noteq> []" using assms(4) by (simp add: p_def)
    show ?thesis using GetProcessState_eq [OF d(2) d(1) bound] ne by (auto simp: pt classify_def comp_def)
  qed
  show ?thesis
    using f s(1) st by (simp add: IsMythwareSuspended_def GetMythwareProcessState_def)
qed

text \<open>
  C30. \<open>GetMythwareInstallPath\<close> falls back to the native registry key only when the
  WOW6432Node key does not open: if that key opens but lacks \<open>TargetDirectory\<close>, the
  lookup fails whatever the native key holds.
\<close>

theorem GetMythwareInstallPath_no_fallback:
  assumes "registry os key_wow64 = Some k" "k ''TargetDirectory'' = None"
  shows "GetMythwareInstallPath os = Inl (Err ''value not found'')"
  using assms by (simp add: GetMythwareInstallPath_def reg_open_def reg_value_def)


subsection \<open>Witnesses\<close>

lemma lab_win_find: "FindMythwareProcess lab_win = 1200"
  by (simp add: FindMythwareProcess_def CreateToolhelp32Snapshot_def snapshot_procs_def
      INVALID_HANDLE_VALUE_def lab_win_def)

lemma lab_win_suspend: "SuspendMythwareProcess lab_win = (True, snd (NtSuspendProcess 1200 lab_win))"
proof -
  have o: "OpenProcess PROCESS_SUSPEND_RESUME 1200 lab_win" by (simp add: OpenProcess_def lab_win_def)
  show ?thesis unfolding SuspendMythwareProcess_def lab_win_find using o by (simp add: NtSuspendProcess_def)
qed

theorem GetProcessState_classifies_witness:
  "fst (GetProcessState 1200 lab_win) = 0 \<and> snd (GetProcessState 1200 lab_win) = lab_win"
  using GetProcessState_classifies [of lab_win 1200]
  by (simp add: lab_win_def pid_threads_def MAXIMUM_SUSPEND_COUNT_def)

theorem GetProcessState_destructive_at_max_witness:
  "GetProcessState 1200 (lab_win\<lparr>threads := [\<lparr>ThreadID = 1204, OwnerProcessID = 1200, SuspendCount = 127\<rparr>]\<rparr>) =
     (1, lab_win\<lparr>threads := [\<lparr>ThreadID = 1204, OwnerProcessID = 1200, SuspendCount = 126\<rparr>]\<rparr>)"
  using GetProcessState_destructive_at_max
          [of "lab_win\<lparr>threads := [\<lparr>ThreadID = 1204, OwnerProcessID = 1200, SuspendCount = 127\<rparr>]\<rparr>" 1200
              "\<lparr>ThreadID = 1204, OwnerProcessID = 1200, SuspendCount = 127\<rparr>"]
  by (simp add: lab_win_def pid_threads_def MAXIMUM_SUSPEND_COUNT_def update_thread_def)

theorem FindMythwareProcess_first_witness: "FindMythwareProcess lab_win = 1200"
  using FindMythwareProcess_first [of lab_win] by (simp add: lab_win_def)

theorem KillProcessByThreads_result_witness:
  "fst (KillProcessByThreads 1200 lab_win)
   \<and> threads (snd (KillProcessByThreads 1200 lab_win)) = [\<lparr>ThreadID = 8, OwnerProcessID = 4, SuspendCount = 0\<rparr>]"
  using KillProcessByThreads_result [of lab_win 1200] by (simp add: lab_win_def killable_def)

theorem Suspend_Resume_roundtrip_witness:
  "fst (SuspendMythwareProcess lab_win)
   \<and> ResumeMythwareProcess (snd (SuspendMythwareProcess lab_win)) = (True, lab_win)"
proof -
  note f = lab_win_find and s = lab_win_suspend
  have h: "\<forall>th \<in> set (threads lab_win). OwnerProcessID th = FindMythwareProcess lab_win \<longrightarrow>
             SuspendCount th < MAXIMUM_SUSPEND_COUNT"
    unfolding lab_win_find by (simp add: lab_win_def MAXIMUM_SUSPEND_COUNT_def)
  show ?thesis using Suspend_Resume_roundtrip [OF s h] s by simp
qed

theorem suspended_after_Suspend_witness: "fst (IsMythwareSuspended (snd (SuspendMythwareProcess lab_win)))"
proof -
  note f = lab_win_find and s = lab_win_suspend
  have h: "snap_ok lab_win" "distinct (map ThreadID (threads lab_win))"
    "pid_threads (FindMythwareProcess lab_win) lab_win \<noteq> []"
    "\<forall>th \<in> set (threads lab_win). OwnerProcessID th = FindMythwareProcess lab_win \<longrightarrow>
       Suc (SuspendCount th) < MAXIMUM_SUSPEND_COUNT"
    unfolding lab_win_find by (simp_all add: lab_win_def pid_threads_def MAXIMUM_SUSPEND_COUNT_def)
  show ?thesis using suspended_after_Suspend [OF h(1,2) s h(3,4)] s by simp
qed

theorem GetMythwareInstallPath_no_fallback_witness:
  "GetMythwareInstallPath (lab_win\<lparr>registry := (registry lab_win)(key_wow64 \<mapsto> (\<lambda>_. None))\<rparr>) = Inl (Err ''value not found'')"
  using GetMythwareInstallPath_no_fallback [of "lab_win\<lparr>registry := (registry lab_win)(key_wow64 \<mapsto> (\<lambda>_. None))\<rparr>"]
  by simp


end
