(* ===== verification/BroadcastPin.thy ===== *)
theory BroadcastPin
  imports Prelude
begin

text \<open>
  The broadcast-pin half of the window hijacker in \<open>src/main.go\<close>: the window helpers
  \<open>FindWindowByTitle\<close>, \<open>SetWindowBottom\<close> and \<open>SetWindowNoActivate\<close>, the subclass
  \<open>SetBroadcastWindowHook\<close> with its window procedure \<open>broadcastWindowHook\<close>, the
  location-change hook (\<open>SetBroadcastEventHook\<close>, \<open>winEventHook\<close>,
  \<open>RemoveBroadcastEventHook\<close>), the periodic \<open>monitorBroadcastWindow\<close>, the
  handler of the "bottom broadcast" checkbox and the "switch window mode" button
  (\<open>ToggleBroadcastWindow\<close> with \<open>SendWindowMessage\<close>).

  The desktop is a list of top-level windows in enumeration order, each with its
  UTF-16 title, whether it belongs to this process, its window procedure, whether it
  was last placed at the bottom of the z-order, and its extended style.  The source's
  globals are the fields of \<open>pin_state\<close>; the running monitor goroutine is
  \<open>monitor = Some hookedWindow\<close> (its local variable).  As documented for
  \<open>SetWindowLong(GWL_WNDPROC)\<close>, a window procedure can only be replaced for a window
  of the calling process.  A whole run is an event-labelled step relation
  \<open>pin_step\<close>: the UI's checkbox changes and button clicks, monitor ticks, hook
  callbacks, and the agent creating, destroying and raising its windows; messages
  posted to a window are kept in \<open>posted\<close>.  The monitor's quit channel \<open>broadcastQuitChannel\<close>
  is an index; unticking the box closes it and makes a fresh one, and the closed
  channels are kept in \<open>closed_bq\<close>.

  Lemmas: the invariant \<open>agent_only\<close> (every window is the agent's, the saved
  procedure is not the interceptor) holds in every run (C32); with the event hook
  refused, no run that keeps the box ticked pins a window (C33); hooking an own
  window twice makes the procedure forward to itself (C34).  The specification's
  event-hook machine \<open>hook_spec\<close> is refined by every run, with the monitor running
  exactly while the hook is held (\<open>pin_refines_hook_spec\<close>); the toggle button posts
  one \<open>WM_COMMAND\<close> whose high word is \<open>0xF5\<close> (\<open>toggle_posts\<close>).
\<close>

datatype wndproc = NullProc | AgentProc | Interceptor

datatype reply = Reply "64 word" | Agent u32

record window =
  title :: "u16 list"
  own_process :: bool
  wndproc :: wndproc
  at_bottom :: bool
  exstyle :: u32

record pin_state =
  windows :: "(hwnd \<times> window) list"
  originalBroadcastWindowProc :: wndproc
  broadcastHookEnabled :: bool
  broadcastWindowHandle :: hwnd
  eventHook :: nat
  monitor :: "hwnd option"
  next_hook :: nat
  hook_ok :: bool
  posted :: "(hwnd \<times> u32 \<times> 64 word) list"
  broadcastQuitChannel :: nat
  closed_bq :: "nat list"

datatype toggle_result = NotFoundDialog | Sent bool

datatype pin_event =
    CheckOn | CheckOff | Tick | WinEvent hwnd | Toggle
  | AgentCreate hwnd "u16 list" u32 | AgentDestroy hwnd | AgentRaise hwnd

subsection \<open>Definitions: constants and window helpers\<close>

definition WM_WINDOWPOSCHANGING :: u32 where "WM_WINDOWPOSCHANGING = 0x46"
definition WM_MOUSEACTIVATE :: u32 where "WM_MOUSEACTIVATE = 0x21"
definition WM_NCACTIVATE :: u32 where "WM_NCACTIVATE = 0x86"
definition WM_ACTIVATE :: u32 where "WM_ACTIVATE = 0x6"
definition WS_EX_NOACTIVATE :: u32 where "WS_EX_NOACTIVATE = 0x08000000"
definition MA_NOACTIVATE :: "64 word" where "MA_NOACTIVATE = 0x3"
definition MessageCommand :: u32 where "MessageCommand = 0x111"
definition ButtonClick :: "64 word" where "ButtonClick = 0xF5"

text \<open>The window title searched for (Chinese "screen broadcast", U+5C4F U+5E55 U+5E7F
  U+64AD) as UTF-16 code units.\<close>

definition broadcast_title :: "u16 list" where
  "broadcast_title = [0x5C4F, 0x5E55, 0x5E7F, 0x64AD]"

definition get_window :: "hwnd \<Rightarrow> pin_state \<Rightarrow> window option" where
  "get_window h s = map_of (windows s) h"

definition put_window :: "hwnd \<Rightarrow> (window \<Rightarrow> window) \<Rightarrow> pin_state \<Rightarrow> pin_state" where
  "put_window h f s = s\<lparr>windows := map (\<lambda>(k, w). if k = h then (k, f w) else (k, w)) (windows s)\<rparr>"

definition FindWindowByTitle :: "u16 list \<Rightarrow> pin_state \<Rightarrow> hwnd" where
  "FindWindowByTitle t s = (case find (\<lambda>(k, w). title w = t) (windows s) of None \<Rightarrow> 0 | Some (k, _) \<Rightarrow> k)"

definition SetWindowBottom :: "hwnd \<Rightarrow> pin_state \<Rightarrow> bool \<times> pin_state" where
  "SetWindowBottom h s =
     (case get_window h s of
        None \<Rightarrow> (False, s)
      | Some _ \<Rightarrow> (True, put_window h (\<lambda>w. w\<lparr>at_bottom := True\<rparr>) s))"

text \<open>\<open>SetWindowNoActivate\<close>: read \<open>GWL_EXSTYLE\<close> (0 for no window), set or clear
  \<open>WS_EX_NOACTIVATE\<close>, write it back; \<open>SetWindowLong\<close> returns the previous value.\<close>

text \<open>\<open>SendWindowMessage\<close> is \<open>PostMessageW\<close>: the message is queued for the
  window, and the call fails for a window that does not exist.\<close>

definition SendWindowMessage :: "hwnd \<Rightarrow> u32 \<Rightarrow> 64 word \<Rightarrow> pin_state \<Rightarrow> bool \<times> pin_state" where
  "SendWindowMessage h msg wParam s =
     (case get_window h s of
        None \<Rightarrow> (False, s)
      | Some _ \<Rightarrow> (True, s\<lparr>posted := posted s @ [(h, msg, wParam)]\<rparr>))"

definition SetWindowNoActivate :: "hwnd \<Rightarrow> bool \<Rightarrow> pin_state \<Rightarrow> bool \<times> pin_state" where
  "SetWindowNoActivate h noActivate s =
     (let style = (case get_window h s of None \<Rightarrow> 0 | Some w \<Rightarrow> exstyle w);
          style' = (if noActivate then style OR WS_EX_NOACTIVATE else style AND NOT WS_EX_NOACTIVATE)
      in case get_window h s of
           None \<Rightarrow> (False, s)
         | Some _ \<Rightarrow> (style \<noteq> 0, put_window h (\<lambda>w. w\<lparr>exstyle := style'\<rparr>) s))"

subsection \<open>Definitions: the subclass and its window procedure\<close>

text \<open>\<open>SetBroadcastWindowHook\<close>: the old procedure is stored in the global before the
  replacement is tried; the replacement succeeds only for a window of this process,
  and the result is the previous procedure, nonzero unless it was \<open>NULL\<close>.\<close>

definition SetBroadcastWindowHook :: "hwnd \<Rightarrow> pin_state \<Rightarrow> bool \<times> pin_state" where
  "SetBroadcastWindowHook h s =
     (let orig = (case get_window h s of None \<Rightarrow> NullProc | Some w \<Rightarrow> wndproc w);
          s1 = s\<lparr>originalBroadcastWindowProc := orig\<rparr>
      in case get_window h s1 of
           Some w \<Rightarrow> if own_process w then (orig \<noteq> NullProc, put_window h (\<lambda>w. w\<lparr>wndproc := Interceptor\<rparr>) s1)
                     else (False, s1)
         | None \<Rightarrow> (False, s1))"

text \<open>Delivering a message to a window procedure.  \<open>broadcastWindowHook\<close> answers
  three kinds of message itself and forwards every other one with
  \<open>CallWindowProc(originalBroadcastWindowProc, ...)\<close>; forwarding to itself is a
  recursion without end, the value \<open>None\<close>.\<close>

partial_function (option) deliver ::
  "wndproc \<Rightarrow> hwnd \<Rightarrow> u32 \<Rightarrow> 64 word \<Rightarrow> pin_state \<Rightarrow> (reply \<times> pin_state) option"
where
  "deliver p hwnd msg wParam s =
     (case p of
        NullProc \<Rightarrow> Some (Reply 0, s)
      | AgentProc \<Rightarrow> Some (Agent msg, s)
      | Interceptor \<Rightarrow>
          (if msg = WM_WINDOWPOSCHANGING then Some (Reply 0, snd (SetWindowBottom hwnd s))
           else if msg = WM_MOUSEACTIVATE then Some (Reply MA_NOACTIVATE, s)
           else if (msg = WM_NCACTIVATE \<or> msg = WM_ACTIVATE) \<and> wParam \<noteq> 0 then Some (Reply 0, s)
           else deliver (originalBroadcastWindowProc s) hwnd msg wParam s))"

declare deliver.simps [code]

subsection \<open>Definitions: the event hook, the monitor and the checkbox\<close>

definition winEventHook :: "hwnd \<Rightarrow> pin_state \<Rightarrow> pin_state" where
  "winEventHook hwnd s =
     (if broadcastHookEnabled s \<and> hwnd = broadcastWindowHandle s
      then snd (SetWindowNoActivate hwnd True (snd (SetWindowBottom hwnd s)))
      else s)"

definition SetBroadcastEventHook :: "pin_state \<Rightarrow> bool \<times> pin_state" where
  "SetBroadcastEventHook s =
     (if hook_ok s then (True, s\<lparr>eventHook := next_hook s, next_hook := Suc (next_hook s)\<rparr>)
      else (False, s\<lparr>eventHook := 0\<rparr>))"

definition RemoveBroadcastEventHook :: "pin_state \<Rightarrow> pin_state" where
  "RemoveBroadcastEventHook s = (if eventHook s \<noteq> 0 then s\<lparr>eventHook := 0\<rparr> else s)"

text \<open>\<open>ToggleBroadcastWindow\<close>: look the window up again, store it in the global,
  and either show the "not found" dialog or post the click of the agent's button
  1004: a \<open>WM_COMMAND\<close> whose \<open>wParam\<close> has the control id 1004 in its low word
  and \<open>ButtonClick\<close> (\<open>0xF5\<close>, the message \<open>BM_CLICK\<close>) in its high word, where
  a button's click notification \<open>BN_CLICKED\<close> is 0.\<close>

definition ToggleBroadcastWindow :: "pin_state \<Rightarrow> toggle_result \<times> pin_state" where
  "ToggleBroadcastWindow s =
     (let bw = FindWindowByTitle broadcast_title s;
          s1 = s\<lparr>broadcastWindowHandle := bw\<rparr>
      in if bw = 0 then (NotFoundDialog, s1)
         else (let (ok, s2) = SendWindowMessage bw MessageCommand (push_bit 16 ButtonClick OR 1004) s1
               in (Sent ok, s2)))"

text \<open>One tick of \<open>monitorBroadcastWindow\<close>, given its local \<open>hookedWindow\<close>.\<close>

definition monitor_tick :: "hwnd \<Rightarrow> pin_state \<Rightarrow> hwnd \<times> pin_state" where
  "monitor_tick hookedWindow s =
     (let bw = FindWindowByTitle broadcast_title s in
      if bw \<noteq> 0 then
        (let s1 = s\<lparr>broadcastWindowHandle := bw\<rparr>;
             (hooked, s2) = (if hookedWindow = 0
                             then (let (ok, s') = SetBroadcastWindowHook bw s1 in (if ok then bw else hookedWindow, s'))
                             else (hookedWindow, s1));
             s3 = (if broadcastHookEnabled s2
                   then snd (SetWindowNoActivate bw True (snd (SetWindowBottom bw s2))) else s2)
         in (hooked, s3))
      else (0, s\<lparr>broadcastWindowHandle := 0\<rparr>))"

text \<open>The \<open>OnCheckedChanged\<close> handler of the "bottom broadcast" checkbox: the monitor
  is started only when the event hook was installed; unchecking closes the monitor's
  channel, which ends it.\<close>

definition bottom_checkbox :: "bool \<Rightarrow> pin_state \<Rightarrow> pin_state" where
  "bottom_checkbox checked s =
     (if checked then
        (let (ok, s2) = SetBroadcastEventHook (s\<lparr>broadcastHookEnabled := True\<rparr>) in
         if ok then s2\<lparr>monitor := Some 0\<rparr> else s2)
      else (RemoveBroadcastEventHook (s\<lparr>broadcastHookEnabled := False\<rparr>))
             \<lparr>monitor := None, closed_bq := broadcastQuitChannel s # closed_bq s,
               broadcastQuitChannel := Suc (broadcastQuitChannel s)\<rparr>)"

definition agent_window :: "u16 list \<Rightarrow> u32 \<Rightarrow> window" where
  "agent_window t style =
     \<lparr>title = t, own_process = False, wndproc = AgentProc, at_bottom = False, exstyle = style\<rparr>"

text \<open>The agent raising its window: the system sends \<open>WM_WINDOWPOSCHANGING\<close> to the
  window procedure; unless the procedure swallows it, the window leaves the bottom.\<close>

definition raise_result :: "hwnd \<Rightarrow> reply \<times> pin_state \<Rightarrow> pin_state" where
  "raise_result h r =
     (case r of (Agent _, s) \<Rightarrow> put_window h (\<lambda>w. w\<lparr>at_bottom := False\<rparr>) s | (Reply _, s) \<Rightarrow> s)"

inductive pin_step :: "pin_state \<Rightarrow> pin_event \<Rightarrow> pin_state \<Rightarrow> bool" where
  check_on: "\<not> broadcastHookEnabled s \<Longrightarrow> pin_step s CheckOn (bottom_checkbox True s)"
| check_off: "broadcastHookEnabled s \<Longrightarrow> pin_step s CheckOff (bottom_checkbox False s)"
| tick: "monitor s = Some hk \<Longrightarrow> monitor_tick hk s = (hk', s') \<Longrightarrow> pin_step s Tick (s'\<lparr>monitor := Some hk'\<rparr>)"
| win_event: "eventHook s \<noteq> 0 \<Longrightarrow> pin_step s (WinEvent h) (winEventHook h s)"
| toggle: "pin_step s Toggle (snd (ToggleBroadcastWindow s))"
| create: "h \<noteq> 0 \<Longrightarrow> get_window h s = None \<Longrightarrow>
           pin_step s (AgentCreate h t style) (s\<lparr>windows := windows s @ [(h, agent_window t style)]\<rparr>)"
| destroy: "pin_step s (AgentDestroy h) (s\<lparr>windows := filter (\<lambda>(k, _). k \<noteq> h) (windows s)\<rparr>)"
| raise: "get_window h s = Some w \<Longrightarrow> deliver (wndproc w) h WM_WINDOWPOSCHANGING 0 s = Some r \<Longrightarrow>
          pin_step s (AgentRaise h) (raise_result h r)"

inductive pin_steps :: "pin_state \<Rightarrow> pin_event list \<Rightarrow> pin_state \<Rightarrow> bool" where
  nil: "pin_steps s [] s"
| cons: "pin_step s e s' \<Longrightarrow> pin_steps s' es s'' \<Longrightarrow> pin_steps s (e # es) s''"

definition init_pin :: "bool \<Rightarrow> pin_state" where
  "init_pin ok =
     \<lparr>windows = [], originalBroadcastWindowProc = NullProc, broadcastHookEnabled = False,
      broadcastWindowHandle = 0, eventHook = 0, monitor = None, next_hook = 1, hook_ok = ok,
      posted = [], broadcastQuitChannel = 0, closed_bq = []\<rparr>"

subsection \<open>Definitions: the invariants of a run\<close>

text \<open>Every window of the desktop is the agent's, with the agent's procedure, and the
  saved procedure is not the interceptor.\<close>

definition agent_only :: "pin_state \<Rightarrow> bool" where
  "agent_only s \<longleftrightarrow> (\<forall>(h, w) \<in> set (windows s). wndproc w = AgentProc \<and> \<not> own_process w)
                     \<and> originalBroadcastWindowProc s \<noteq> Interceptor"

text \<open>The windows placed at the bottom of the z-order and not raised since.\<close>

definition pinned :: "pin_state \<Rightarrow> hwnd set" where
  "pinned s = fst ` set (filter (\<lambda>(h, w). at_bottom w) (windows s))"

definition quiet :: "pin_state \<Rightarrow> bool" where
  "quiet s \<longleftrightarrow> monitor s = None \<and> eventHook s = 0"

text \<open>The messages \<open>broadcastWindowHook\<close> does not answer itself.\<close>

definition unhandled :: "u32 \<Rightarrow> 64 word \<Rightarrow> bool" where
  "unhandled msg wParam \<longleftrightarrow>
     msg \<noteq> WM_WINDOWPOSCHANGING \<and> msg \<noteq> WM_MOUSEACTIVATE \<and>
     \<not> ((msg = WM_NCACTIVATE \<or> msg = WM_ACTIVATE) \<and> wParam \<noteq> 0)"

subsection \<open>Definitions: the specification's event-hook state machine\<close>

text \<open>The specification gives the event hook its own state machine,
  \<open>EventHookInactive -> EventHookActive -> EventHookInactive\<close>: \<open>Enable()\<close> installs
  the hook and starts the monitor, \<open>Disable()\<close> stops the monitor and removes the
  hook; installation is best effort, so enabling may leave the machine inactive.
  Every other event leaves the phase alone.\<close>

datatype hook_phase = EventHookInactive | EventHookActive

inductive hook_spec :: "hook_phase \<Rightarrow> pin_event \<Rightarrow> hook_phase \<Rightarrow> bool" where
  enable: "hook_spec EventHookInactive CheckOn EventHookActive"
| enable_failed: "hook_spec EventHookInactive CheckOn EventHookInactive"
| disable: "hook_spec q CheckOff EventHookInactive"
| other: "e \<noteq> CheckOn \<Longrightarrow> e \<noteq> CheckOff \<Longrightarrow> hook_spec q e q"

inductive hook_specs :: "hook_phase \<Rightarrow> pin_event list \<Rightarrow> hook_phase \<Rightarrow> bool" where
  nil: "hook_specs q [] q"
| cons: "hook_spec q e q' \<Longrightarrow> hook_specs q' es q'' \<Longrightarrow> hook_specs q (e # es) q''"

text \<open>The abstraction: the phase is active when a hook handle is held.  The
  concrete invariant: the monitor runs exactly while the hook is held, the hook is
  held only while the box is ticked, and hook handles are nonzero.\<close>

definition phase :: "pin_state \<Rightarrow> hook_phase" where
  "phase s = (if eventHook s \<noteq> 0 then EventHookActive else EventHookInactive)"

definition hook_inv :: "pin_state \<Rightarrow> bool" where
  "hook_inv s \<longleftrightarrow> (monitor s \<noteq> None \<longleftrightarrow> eventHook s \<noteq> 0) \<and> (eventHook s \<noteq> 0 \<longrightarrow> broadcastHookEnabled s)
     \<and> next_hook s \<noteq> 0"

subsection \<open>Lemmas: window updates and the procedure\<close>

lemma windows_put_window: "windows (put_window h f s) = map (\<lambda>(k, w). if k = h then (k, f w) else (k, w)) (windows s)"
  by (simp add: put_window_def)

lemma agent_only_put_window:
  "(\<And>w. wndproc (f w) = wndproc w \<and> own_process (f w) = own_process w) \<Longrightarrow>
   agent_only s \<Longrightarrow> agent_only (put_window h f s)"
  unfolding agent_only_def put_window_def by (auto split: if_splits prod.splits)

lemma agent_only_fields:
  "windows s' = windows s \<Longrightarrow> originalBroadcastWindowProc s' = originalBroadcastWindowProc s \<Longrightarrow>
   agent_only s \<Longrightarrow> agent_only s'"
  by (simp add: agent_only_def)

lemma agent_only_bottom: "agent_only s \<Longrightarrow> agent_only (snd (SetWindowBottom h s))"
  by (auto simp: SetWindowBottom_def intro: agent_only_put_window split: option.splits)

lemma agent_only_noactivate: "agent_only s \<Longrightarrow> agent_only (snd (SetWindowNoActivate h b s))"
  by (auto simp: SetWindowNoActivate_def Let_def intro: agent_only_put_window split: option.splits)

lemma get_window_agent: "agent_only s \<Longrightarrow> get_window h s = Some w \<Longrightarrow> wndproc w = AgentProc \<and> \<not> own_process w"
  by (auto simp: agent_only_def get_window_def dest!: map_of_SomeD)

lemma agent_only_subclass: "agent_only s \<Longrightarrow> agent_only (snd (SetBroadcastWindowHook h s))"
proof -
  assume a: "agent_only s"
  show ?thesis
  proof (cases "get_window h s")
    case None
    then show ?thesis using a by (simp add: SetBroadcastWindowHook_def agent_only_def get_window_def)
  next
    case (Some w)
    with a have "wndproc w = AgentProc" "\<not> own_process w" by (auto dest: get_window_agent)
    with Some a show ?thesis by (simp add: SetBroadcastWindowHook_def agent_only_def get_window_def)
  qed
qed

lemma deliver_agent: "deliver AgentProc h msg wp s = Some (Agent msg, s)"
  by (simp add: deliver.simps)

lemma agent_only_tick: "agent_only s \<Longrightarrow> monitor_tick hk s = (hk', s') \<Longrightarrow> agent_only s'"
proof -
  assume a: "agent_only s" and t: "monitor_tick hk s = (hk', s')"
  define bw where "bw = FindWindowByTitle broadcast_title s"
  define s1 where "s1 = s\<lparr>broadcastWindowHandle := bw\<rparr>"
  have a1: "agent_only s1" using a by (simp add: s1_def agent_only_def)
  have a2: "agent_only (snd (if hk = 0 then (let (ok, s') = SetBroadcastWindowHook bw s1 in (if ok then bw else hk, s'))
                             else (hk, s1)))"
    using a1 agent_only_subclass [OF a1, of bw] by (simp add: split_def Let_def)
  have fin: "\<And>x. agent_only x \<Longrightarrow>
               agent_only (if broadcastHookEnabled x then snd (SetWindowNoActivate bw True (snd (SetWindowBottom bw x))) else x)"
    by (simp add: agent_only_bottom agent_only_noactivate)
  show ?thesis
  proof (cases "bw \<noteq> 0")
    case True
    then have "s' = (let s2 = snd (if hk = 0 then (let (ok, s') = SetBroadcastWindowHook bw s1 in (if ok then bw else hk, s'))
                             else (hk, s1))
                     in if broadcastHookEnabled s2 then snd (SetWindowNoActivate bw True (snd (SetWindowBottom bw s2))) else s2)"
      using t by (simp add: monitor_tick_def Let_def split_def bw_def [symmetric] s1_def [symmetric])
    then show ?thesis using fin [OF a2] by (simp add: Let_def)
  next
    case False
    then have "s' = s\<lparr>broadcastWindowHandle := 0\<rparr>" using t by (simp add: monitor_tick_def bw_def [symmetric])
    then show ?thesis using a by (simp add: agent_only_def)
  qed
qed

lemma deliver_self_loop:
  assumes ret: "deliver p h msg wParam s = Some r"
  shows "p = Interceptor \<longrightarrow> originalBroadcastWindowProc s = Interceptor \<longrightarrow> \<not> unhandled msg wParam"
proof (rule deliver.raw_induct [where P = "\<lambda>p h msg wParam s r. p = Interceptor \<longrightarrow>
    originalBroadcastWindowProc s = Interceptor \<longrightarrow> \<not> unhandled msg wParam", OF _ ret])
  fix f p h msg wParam s r
  assume IH: "\<And>p h msg wParam s r. f p h msg wParam s = Some r \<Longrightarrow> p = Interceptor \<longrightarrow>
      originalBroadcastWindowProc s = Interceptor \<longrightarrow> \<not> unhandled msg wParam"
    and eq: "(case p of NullProc \<Rightarrow> Some (Reply 0, s) | AgentProc \<Rightarrow> Some (Agent msg, s)
      | Interceptor \<Rightarrow>
          (if msg = WM_WINDOWPOSCHANGING then Some (Reply 0, snd (SetWindowBottom h s))
           else if msg = WM_MOUSEACTIVATE then Some (Reply MA_NOACTIVATE, s)
           else if (msg = WM_NCACTIVATE \<or> msg = WM_ACTIVATE) \<and> wParam \<noteq> 0 then Some (Reply 0, s)
           else f (originalBroadcastWindowProc s) h msg wParam s)) = Some r"
  show "p = Interceptor \<longrightarrow> originalBroadcastWindowProc s = Interceptor \<longrightarrow> \<not> unhandled msg wParam"
  proof (intro impI notI)
    assume p: "p = Interceptor" and o: "originalBroadcastWindowProc s = Interceptor"
      and u: "unhandled msg wParam"
    from eq p u have "f (originalBroadcastWindowProc s) h msg wParam s = Some r"
      by (auto simp: unhandled_def split: if_splits)
    from IH [OF this] o u show False by simp
  qed
qed

lemma get_window_put:
  "get_window x (put_window h f s) = (if x = h then map_option f (get_window x s) else get_window x s)"
  by (simp add: get_window_def put_window_def map_of_put)

lemma deliver_loops:
  "originalBroadcastWindowProc s = Interceptor \<Longrightarrow> unhandled msg wParam \<Longrightarrow> deliver Interceptor h msg wParam s = None"
  using deliver_self_loop by (cases "deliver Interceptor h msg wParam s") auto

lemma enabled_fields [simp]:
  "broadcastHookEnabled (put_window h f s) = broadcastHookEnabled s"
  "broadcastHookEnabled (snd (SetWindowBottom h s)) = broadcastHookEnabled s"
  "broadcastHookEnabled (snd (SetWindowNoActivate h b s)) = broadcastHookEnabled s"
  "broadcastHookEnabled (snd (SetBroadcastWindowHook h s)) = broadcastHookEnabled s"
  "broadcastQuitChannel (put_window h f s) = broadcastQuitChannel s"
  "broadcastQuitChannel (snd (SetWindowBottom h s)) = broadcastQuitChannel s"
  "broadcastQuitChannel (snd (SetWindowNoActivate h b s)) = broadcastQuitChannel s"
  "broadcastQuitChannel (snd (SetBroadcastWindowHook h s)) = broadcastQuitChannel s"
  "closed_bq (put_window h f s) = closed_bq s"
  "closed_bq (snd (SetWindowBottom h s)) = closed_bq s"
  "closed_bq (snd (SetWindowNoActivate h b s)) = closed_bq s"
  "closed_bq (snd (SetBroadcastWindowHook h s)) = closed_bq s"
  by (simp_all add: put_window_def SetWindowBottom_def SetWindowNoActivate_def
        SetBroadcastWindowHook_def Let_def split: option.splits)

lemma toggle_wParam:
  "drop_bit 16 (push_bit 16 ButtonClick OR 1004 :: 64 word) = 0xF5
   \<and> take_bit 16 (push_bit 16 ButtonClick OR 1004 :: 64 word) = 1004"
  by (simp add: ButtonClick_def)

text \<open>When the broadcast window exists, the button posts exactly one message to it:
  \<open>WM_COMMAND\<close> with the \<open>wParam\<close> above.\<close>

lemma toggle_posts:
  assumes "FindWindowByTitle broadcast_title s = bw" "bw \<noteq> 0"
  shows "ToggleBroadcastWindow s = (Sent True, s\<lparr>broadcastWindowHandle := bw,
           posted := posted s @ [(bw, MessageCommand, push_bit 16 ButtonClick OR 1004)]\<rparr>)"
proof -
  have "get_window bw s \<noteq> None"
    using assms by (auto simp: FindWindowByTitle_def get_window_def split: option.splits
        dest!: find_Some_mem intro: weak_map_of_SomeI)
  then show ?thesis using assms
    by (auto simp: ToggleBroadcastWindow_def SendWindowMessage_def get_window_def)
qed

lemma toggle_fields [simp]:
  "windows (snd (ToggleBroadcastWindow s)) = windows s"
  "originalBroadcastWindowProc (snd (ToggleBroadcastWindow s)) = originalBroadcastWindowProc s"
  "broadcastHookEnabled (snd (ToggleBroadcastWindow s)) = broadcastHookEnabled s"
  "monitor (snd (ToggleBroadcastWindow s)) = monitor s"
  "eventHook (snd (ToggleBroadcastWindow s)) = eventHook s"
  "broadcastQuitChannel (snd (ToggleBroadcastWindow s)) = broadcastQuitChannel s"
  "closed_bq (snd (ToggleBroadcastWindow s)) = closed_bq s"
  by (simp_all add: ToggleBroadcastWindow_def SendWindowMessage_def Let_def split_def split: option.splits)

lemma enabled_tick: "monitor_tick hk s = (hk', s') \<Longrightarrow> broadcastHookEnabled s' = broadcastHookEnabled s
    \<and> broadcastQuitChannel s' = broadcastQuitChannel s \<and> closed_bq s' = closed_bq s"
  by (auto simp: monitor_tick_def Let_def split_def split: if_splits)

lemma deliver_state:
  assumes ret: "deliver p h msg wParam s = Some r"
  shows "snd r = s \<or> snd r = snd (SetWindowBottom h s)"
proof (rule deliver.raw_induct [where P = "\<lambda>p h msg wParam s r. snd r = s \<or> snd r = snd (SetWindowBottom h s)", OF _ ret])
  fix f p h msg wParam s r
  assume IH: "\<And>p h msg wParam s r. f p h msg wParam s = Some r \<Longrightarrow> snd r = s \<or> snd r = snd (SetWindowBottom h s)"
    and eq: "(case p of NullProc \<Rightarrow> Some (Reply 0, s) | AgentProc \<Rightarrow> Some (Agent msg, s)
      | Interceptor \<Rightarrow>
          (if msg = WM_WINDOWPOSCHANGING then Some (Reply 0, snd (SetWindowBottom h s))
           else if msg = WM_MOUSEACTIVATE then Some (Reply MA_NOACTIVATE, s)
           else if (msg = WM_NCACTIVATE \<or> msg = WM_ACTIVATE) \<and> wParam \<noteq> 0 then Some (Reply 0, s)
           else f (originalBroadcastWindowProc s) h msg wParam s)) = Some r"
  show "snd r = s \<or> snd r = snd (SetWindowBottom h s)"
    using eq IH by (auto split: wndproc.splits if_splits)
qed

lemma enabled_step:
  "pin_step s e s' \<Longrightarrow> broadcastHookEnabled s \<Longrightarrow> e \<noteq> CheckOff \<Longrightarrow> e \<noteq> CheckOn \<and> broadcastHookEnabled s'"
proof (induction rule: pin_step.induct)
  case (tick s hk hk' s')
  then show ?case using enabled_tick [OF tick.hyps(2)] by simp
next
  case (win_event s h)
  then show ?case by (simp add: winEventHook_def)
next
  case (raise h s w r)
  have "broadcastHookEnabled (snd r) = broadcastHookEnabled s"
    using deliver_state [OF raise.hyps(2)] by auto
  then show ?case using raise.prems by (cases r) (simp add: raise_result_def split: reply.splits)
qed simp_all

lemma enabled_steps:
  "pin_steps s evs s' \<Longrightarrow> broadcastHookEnabled s \<Longrightarrow> CheckOff \<notin> set evs \<Longrightarrow> CheckOn \<notin> set evs"
proof (induction rule: pin_steps.induct)
  case (cons s e s' es s'')
  then show ?case using enabled_step [OF cons.hyps(1) cons.prems(1)] by auto
qed simp

lemma tick_step: "monitor s = Some hk \<Longrightarrow>
   pin_step s Tick ((snd (monitor_tick hk s))\<lparr>monitor := Some (fst (monitor_tick hk s))\<rparr>)"
  by (rule pin_step.tick) simp_all

lemma chan_step:
  "pin_step s e s' \<Longrightarrow> \<forall>c \<in> set (closed_bq s). c < broadcastQuitChannel s
     \<Longrightarrow> \<forall>c \<in> set (closed_bq s'). c < broadcastQuitChannel s'"
proof (induction rule: pin_step.induct)
  case (check_on s)
  then show ?case by (simp add: bottom_checkbox_def SetBroadcastEventHook_def split_def Let_def)
next
  case (check_off s)
  then show ?case by (auto simp: bottom_checkbox_def RemoveBroadcastEventHook_def less_SucI)
next
  case (tick s hk hk' s')
  then show ?case using enabled_tick [OF tick.hyps(2)] by simp
next
  case (win_event s h)
  then show ?case by (simp add: winEventHook_def)
next
  case (raise h s w r)
  have "broadcastQuitChannel (snd r) = broadcastQuitChannel s \<and> closed_bq (snd r) = closed_bq s"
    using deliver_state [OF raise.hyps(2)] by auto
  then show ?case using raise.prems by (cases r) (simp add: raise_result_def split: reply.splits)
qed simp_all

lemma chan_steps:
  "pin_steps s evs s' \<Longrightarrow> \<forall>c \<in> set (closed_bq s). c < broadcastQuitChannel s
     \<Longrightarrow> \<forall>c \<in> set (closed_bq s'). c < broadcastQuitChannel s'"
  by (induction rule: pin_steps.induct) (auto dest: chan_step)

lemma hook_fields [simp]:
  "eventHook (put_window h f s) = eventHook s" "monitor (put_window h f s) = monitor s"
  "next_hook (put_window h f s) = next_hook s"
  "eventHook (snd (SetWindowBottom h s)) = eventHook s" "monitor (snd (SetWindowBottom h s)) = monitor s"
  "next_hook (snd (SetWindowBottom h s)) = next_hook s"
  "eventHook (snd (SetWindowNoActivate h b s)) = eventHook s" "monitor (snd (SetWindowNoActivate h b s)) = monitor s"
  "next_hook (snd (SetWindowNoActivate h b s)) = next_hook s"
  "eventHook (snd (SetBroadcastWindowHook h s)) = eventHook s" "monitor (snd (SetBroadcastWindowHook h s)) = monitor s"
  "next_hook (snd (SetBroadcastWindowHook h s)) = next_hook s"
  by (simp_all add: put_window_def SetWindowBottom_def SetWindowNoActivate_def
        SetBroadcastWindowHook_def Let_def split: option.splits)

lemma toggle_next_hook [simp]: "next_hook (snd (ToggleBroadcastWindow s)) = next_hook s"
  by (simp add: ToggleBroadcastWindow_def SendWindowMessage_def Let_def split_def split: option.splits)

lemma hook_tick: "monitor_tick hk s = (hk', s') \<Longrightarrow>
    eventHook s' = eventHook s \<and> next_hook s' = next_hook s \<and> broadcastHookEnabled s' = broadcastHookEnabled s"
  by (auto simp: monitor_tick_def Let_def split_def split: if_splits)

lemma hook_step:
  "pin_step s e s' \<Longrightarrow> hook_inv s \<Longrightarrow> hook_inv s' \<and> hook_spec (phase s) e (phase s')"
proof (induction rule: pin_step.induct)
  case (check_on s)
  then show ?case
    by (auto simp: hook_inv_def phase_def bottom_checkbox_def SetBroadcastEventHook_def
        intro: hook_spec.intros)
next
  case (check_off s)
  then show ?case
    by (auto simp: hook_inv_def phase_def bottom_checkbox_def RemoveBroadcastEventHook_def
        intro: hook_spec.intros)
next
  case (tick s hk hk' s')
  then show ?case using hook_tick [OF tick.hyps(2)]
    by (auto simp: hook_inv_def phase_def intro: hook_spec.other)
next
  case (win_event s h)
  then show ?case by (simp add: hook_inv_def phase_def winEventHook_def hook_spec.other)
next
  case (toggle s)
  then show ?case by (simp add: hook_inv_def phase_def hook_spec.other)
next
  case (raise h s w r)
  have "eventHook (snd r) = eventHook s \<and> monitor (snd r) = monitor s \<and> next_hook (snd r) = next_hook s
      \<and> broadcastHookEnabled (snd r) = broadcastHookEnabled s"
    using deliver_state [OF raise.hyps(2)] by auto
  then show ?case using raise.prems
    by (cases r) (auto simp: raise_result_def hook_inv_def phase_def hook_spec.other split: reply.splits)
qed (simp_all add: hook_inv_def phase_def hook_spec.other)

lemma hook_steps:
  "pin_steps s evs s' \<Longrightarrow> hook_inv s \<Longrightarrow> hook_inv s' \<and> hook_specs (phase s) evs (phase s')"
  by (induction rule: pin_steps.induct) (auto dest: hook_step intro: hook_specs.intros)

text \<open>The broadcast pin refines the specification's event-hook machine: every run
  from the initial state is a run of \<open>hook_spec\<close> from \<open>EventHookInactive\<close>, and the
  monitor runs exactly while the machine is active.\<close>

lemma pin_refines_hook_spec:
  "pin_steps (init_pin ok) evs s \<Longrightarrow>
     hook_specs EventHookInactive evs (phase s) \<and> (monitor s \<noteq> None \<longleftrightarrow> phase s = EventHookActive)"
  using hook_steps [of "init_pin ok" evs s]
  by (auto simp: hook_inv_def phase_def init_pin_def)

subsection \<open>Lemmas: runs of the step relation\<close>

lemma bottom_checkbox_fields [simp]:
  "windows (bottom_checkbox b s) = windows s"
  "originalBroadcastWindowProc (bottom_checkbox b s) = originalBroadcastWindowProc s"
  by (simp_all add: bottom_checkbox_def SetBroadcastEventHook_def RemoveBroadcastEventHook_def split_def Let_def)

lemma agent_only_step: "pin_step s e s' \<Longrightarrow> agent_only s \<Longrightarrow> agent_only s'"
proof (induction rule: pin_step.induct)
  case (check_on s)
  then show ?case by (simp add: agent_only_def)
next
  case (check_off s)
  then show ?case by (simp add: agent_only_def)
next
  case (tick s hk hk' s')
  have "agent_only s'" by (rule agent_only_tick [OF tick.prems tick.hyps(2)])
  then show ?case by (simp add: agent_only_def)
next
  case (toggle s)
  then show ?case by (simp add: agent_only_def)
next
  case (win_event s h)
  then show ?case by (simp add: winEventHook_def agent_only_bottom agent_only_noactivate)
next
  case (create h s t style)
  then show ?case by (simp add: agent_only_def agent_window_def)
next
  case (destroy s h)
  then show ?case unfolding agent_only_def by auto
next
  case (raise h s w r)
  have "wndproc w = AgentProc" using get_window_agent [OF raise.prems raise.hyps(1)] by simp
  then have "r = (Agent WM_WINDOWPOSCHANGING, s)" using raise.hyps(2) by (simp add: deliver_agent)
  then show ?case using raise.prems by (simp add: raise_result_def agent_only_put_window)
qed

lemma agent_only_steps: "pin_steps s evs s' \<Longrightarrow> agent_only s \<Longrightarrow> agent_only s'"
  by (induction rule: pin_steps.induct) (auto dest: agent_only_step)

lemma pinned_put_unpin: "pinned (put_window h (\<lambda>w. w\<lparr>at_bottom := False\<rparr>) s) \<subseteq> pinned s"
  by (force simp: pinned_def put_window_def split: if_splits)

lemma quiet_step:
  "pin_step s e s' \<Longrightarrow> e \<noteq> CheckOn \<Longrightarrow> quiet s \<Longrightarrow> agent_only s \<Longrightarrow> quiet s' \<and> pinned s' \<subseteq> pinned s"
proof (induction rule: pin_step.induct)
  case (check_off s)
  then show ?case
    by (simp add: quiet_def pinned_def bottom_checkbox_def RemoveBroadcastEventHook_def)
next
  case (toggle s)
  then show ?case by (simp add: quiet_def pinned_def)
next
  case (create h s t style)
  then show ?case by (auto simp: quiet_def pinned_def agent_window_def)
next
  case (destroy s h)
  then show ?case by (auto simp: quiet_def pinned_def)
next
  case (raise h s w r)
  have "wndproc w = AgentProc" using get_window_agent [OF raise.prems(3) raise.hyps(1)] by simp
  then have "r = (Agent WM_WINDOWPOSCHANGING, s)" using raise.hyps(2) by (simp add: deliver_agent)
  then show ?case using raise.prems pinned_put_unpin
    by (simp add: raise_result_def quiet_def put_window_def)
qed (simp_all add: quiet_def)

lemma quiet_steps:
  "pin_steps s evs s' \<Longrightarrow> CheckOn \<notin> set evs \<Longrightarrow> quiet s \<Longrightarrow> agent_only s \<Longrightarrow> pinned s' \<subseteq> pinned s"
proof (induction rule: pin_steps.induct)
  case (nil s)
  then show ?case by simp
next
  case (cons s e s' es s'')
  have ne: "e \<noteq> CheckOn" and rest: "CheckOn \<notin> set es" using cons.prems(1) by auto
  have q: "quiet s' \<and> pinned s' \<subseteq> pinned s" by (rule quiet_step [OF cons.hyps(1) ne cons.prems(2,3)])
  have a: "agent_only s'" by (rule agent_only_step [OF cons.hyps(1) cons.prems(3)])
  have "pinned s'' \<subseteq> pinned s'" using cons.IH [OF rest] q a by blast
  with q show ?case by blast
qed

subsection \<open>Properties\<close>


text \<open>C33: when \<open>SetWinEventHook\<close> fails as the checkbox is ticked, no monitor is
  started and the feature stays enabled, so ticking again is impossible until the box
  is unticked: as long as it stays ticked no window is ever pinned at the bottom.
  The failure is not retried on a later tick.\<close>

theorem failed_event_hook_never_pins:
  assumes steps: "pin_steps (bottom_checkbox True s) evs s'"
    and fail: "\<not> hook_ok s" and off: "CheckOff \<notin> set evs"
    and q: "monitor s = None" and a: "agent_only s"
  shows "pinned s' \<subseteq> pinned s"
proof -
  let ?s0 = "bottom_checkbox True s"
  have q0: "monitor ?s0 = None \<and> eventHook ?s0 = 0"
    using fail q by (simp add: bottom_checkbox_def SetBroadcastEventHook_def)
  have en: "broadcastHookEnabled ?s0"
    using fail by (simp add: bottom_checkbox_def SetBroadcastEventHook_def)
  have a0: "agent_only ?s0" using a by (simp add: agent_only_def)
  have "CheckOn \<notin> set evs" by (rule enabled_steps [OF steps en off])
  then have "pinned s' \<subseteq> pinned ?s0" using quiet_steps [OF steps] q0 a0 by (simp add: quiet_def)
  then show ?thesis by (simp add: pinned_def)
qed

text \<open>C34: \<open>SetBroadcastWindowHook\<close> overwrites the saved procedure before it
  replaces the window's one; hooking a window of this process twice saves the
  interceptor itself, and every message it does not answer is forwarded to itself
  without end.\<close>

theorem double_subclass_diverges:
  assumes "get_window h s = Some w" "own_process w" "wndproc w \<noteq> NullProc" "unhandled msg wParam"
  shows "originalBroadcastWindowProc (snd (SetBroadcastWindowHook h (snd (SetBroadcastWindowHook h s)))) = Interceptor
       \<and> deliver Interceptor h msg wParam (snd (SetBroadcastWindowHook h (snd (SetBroadcastWindowHook h s)))) = None"
proof -
  define s1 where "s1 = snd (SetBroadcastWindowHook h s)"
  have g0: "get_window h (s\<lparr>originalBroadcastWindowProc := wndproc w\<rparr>) = Some w"
    using assms(1) by (simp add: get_window_def)
  have g1: "get_window h s1 = Some (w\<lparr>wndproc := Interceptor\<rparr>)"
    using g0 assms(1-3) by (simp add: s1_def SetBroadcastWindowHook_def get_window_put Let_def)
  have o2: "originalBroadcastWindowProc (snd (SetBroadcastWindowHook h s1)) = Interceptor"
    using g1 assms(2) by (simp add: SetBroadcastWindowHook_def get_window_def put_window_def Let_def)
  show ?thesis using o2 deliver_loops assms(4) by (simp add: s1_def)
qed

subsection \<open>Witnesses\<close>


theorem failed_event_hook_never_pins_witness:
  "pin_steps (bottom_checkbox True (init_pin False))
     [AgentCreate 7 broadcast_title 0, AgentRaise 7]
     (put_window 7 (\<lambda>w. w\<lparr>at_bottom := False\<rparr>)
        ((bottom_checkbox True (init_pin False))\<lparr>windows := [(7, agent_window broadcast_title 0)]\<rparr>))
   \<and> pinned (put_window 7 (\<lambda>w. w\<lparr>at_bottom := False\<rparr>)
        ((bottom_checkbox True (init_pin False))\<lparr>windows := [(7, agent_window broadcast_title 0)]\<rparr>))
     \<subseteq> pinned (init_pin False)"
proof -
  let ?s0 = "bottom_checkbox True (init_pin False)"
  let ?s1 = "?s0\<lparr>windows := [(7, agent_window broadcast_title 0)]\<rparr>"
  have w0: "windows ?s0 = []" by (simp add: init_pin_def)
  have t1: "pin_step ?s0 (AgentCreate 7 broadcast_title 0) ?s1"
    using pin_step.create [of 7 ?s0 broadcast_title 0] w0 by (simp add: get_window_def)
  have g: "get_window 7 ?s1 = Some (agent_window broadcast_title 0)" by (simp add: get_window_def)
  have d: "deliver (wndproc (agent_window broadcast_title 0)) 7 WM_WINDOWPOSCHANGING 0 ?s1
             = Some (Agent WM_WINDOWPOSCHANGING, ?s1)"
    by (simp add: agent_window_def deliver_agent)
  have t2: "pin_step ?s1 (AgentRaise 7) (put_window 7 (\<lambda>w. w\<lparr>at_bottom := False\<rparr>) ?s1)"
    using pin_step.raise [OF g d] by (simp add: raise_result_def)
  have run: "pin_steps ?s0 [AgentCreate 7 broadcast_title 0, AgentRaise 7]
               (put_window 7 (\<lambda>w. w\<lparr>at_bottom := False\<rparr>) ?s1)"
    using t1 t2 by (blast intro: pin_steps.intros)
  have h: "\<not> hook_ok (init_pin False)" "monitor (init_pin False) = None" "agent_only (init_pin False)"
    by (simp_all add: init_pin_def agent_only_def)
  show ?thesis using run failed_event_hook_never_pins [OF run h(1) _ h(2,3)] by simp
qed

theorem double_subclass_diverges_witness:
  "originalBroadcastWindowProc (snd (SetBroadcastWindowHook 5 (snd (SetBroadcastWindowHook 5
      ((init_pin True)\<lparr>windows := [(5, \<lparr>title = [], own_process = True, wndproc = AgentProc,
                                          at_bottom = False, exstyle = 0\<rparr>)]\<rparr>))))) = Interceptor
   \<and> deliver Interceptor 5 0x10 0 (snd (SetBroadcastWindowHook 5 (snd (SetBroadcastWindowHook 5
      ((init_pin True)\<lparr>windows := [(5, \<lparr>title = [], own_process = True, wndproc = AgentProc,
                                          at_bottom = False, exstyle = 0\<rparr>)]\<rparr>))))) = None"
  by (rule double_subclass_diverges [where w = "\<lparr>title = [], own_process = True, wndproc = AgentProc,
                                               at_bottom = False, exstyle = 0\<rparr>"])
     (simp_all add: get_window_def unhandled_def WM_WINDOWPOSCHANGING_def WM_MOUSEACTIVATE_def
        WM_NCACTIVATE_def WM_ACTIVATE_def)

end
