(* ===== verification/BlackScreen.thy ===== *)
theory BlackScreen
  imports Prelude
begin

text \<open>
  The black-screen half of the window hijacker in \<open>src/main.go\<close>: the window helpers
  \<open>SetParent\<close>, \<open>ShowWindow\<close>, \<open>MoveWindow\<close>, \<open>CreateBlackScreenParentWindow\<close> and
  \<open>DestroyWindow\<close>, one tick of \<open>monitorBlackScreenWindow\<close> and the handler of the
  "hide black screen" checkbox.

  The desktop is a list of windows in z-order, each with its UTF-16 title, its
  parent (0 for a top-level window), whether it is minimized, its position, and
  whether this process created it.  As documented for the Win32 calls,
  \<open>FindWindowW\<close> searches top-level windows only, \<open>SetParent\<close> with parent 0
  makes a window top-level again, and \<open>DestroyWindow\<close> destroys the window with all
  its descendants.  Whether \<open>CreateWindowExW\<close> and \<open>SetParent\<close> succeed are fields
  of the state, so every lemma holds for either outcome.

  The monitor goroutines are a list: each has its quit channel (an index) and a
  program counter.  A tick of the source is a check (read the enable flag, look for
  the window, read \<open>embeddedBlackScreenWindow\<close>, choose a branch) followed by the
  branch's action; the step relation has the whole tick as one step and, for the
  interleavings the goroutine allows, the check and the action as two steps.

  Lemmas: a tick embeds the agent's window and the next tick destroys it with its
  container (C36); with \<open>SetParent\<close> failing, containers leak one per tick (C37);
  unticking between check and action leaves the window embedded with the feature off
  (C38), which runs with uninterrupted ticks never do (C39); every reachable state is
  well formed (\<open>bs_wf\<close>: distinct handles below the allocator, globals naming
  allocated handles, the current quit channel not yet closed) (C23).
\<close>

datatype mon_pc = MIdle | MEmbed hwnd | MClear

record bswin =
  btitle :: "u16 list"
  wparent :: hwnd
  minimized :: bool
  wpos :: "int \<times> int"
  ours :: bool

record bs_state =
  bs_windows :: "(hwnd \<times> bswin) list"
  next_hwnd :: hwnd
  create_ok :: bool
  setparent_ok :: bool
  blackScreenMinimizeEnabled :: bool
  blackScreenParentWindow :: hwnd
  embeddedBlackScreenWindow :: hwnd
  blackScreenQuitChannel :: nat
  closed_channels :: "nat list"
  monitors :: "(mon_pc \<times> nat) list"

datatype bs_event =
    BSCheck bool | BSTick nat | BSTickCheck nat | BSTickAct nat | BSQuit nat
  | AgentShow | AgentClose hwnd

named_theorems bs_globals "the window calls leave the program's globals alone"

subsection \<open>Definitions: window helpers\<close>

text \<open>Window titles as UTF-16: \<open>"BlackScreen Window"\<close> is ASCII; the container's
  title is the Chinese "black screen hijack" (U+9ED1 U+5C4F U+52AB U+6301).\<close>

definition utf16_ascii :: "string \<Rightarrow> u16 list" where
  "utf16_ascii cs = map (\<lambda>c. of_nat (of_char c)) cs"

definition blackscreen_title :: "u16 list" where
  "blackscreen_title = utf16_ascii ''BlackScreen Window''"

definition container_title :: "u16 list" where
  "container_title = [0x9ED1, 0x5C4F, 0x52AB, 0x6301]"

definition bs_get :: "hwnd \<Rightarrow> bs_state \<Rightarrow> bswin option" where
  "bs_get h s = map_of (bs_windows s) h"

definition bs_put :: "hwnd \<Rightarrow> (bswin \<Rightarrow> bswin) \<Rightarrow> bs_state \<Rightarrow> bs_state" where
  "bs_put h f s = s\<lparr>bs_windows := map (\<lambda>(k, w). if k = h then (k, f w) else (k, w)) (bs_windows s)\<rparr>"

definition FindWindowByTitle_bs :: "u16 list \<Rightarrow> bs_state \<Rightarrow> hwnd" where
  "FindWindowByTitle_bs t s =
     (case find (\<lambda>(k, w). wparent w = 0 \<and> btitle w = t) (bs_windows s) of None \<Rightarrow> 0 | Some (k, _) \<Rightarrow> k)"

definition SetParent :: "hwnd \<Rightarrow> hwnd \<Rightarrow> bs_state \<Rightarrow> bool \<times> bs_state" where
  "SetParent child parent s =
     (if setparent_ok s \<and> bs_get child s \<noteq> None \<and> (parent = 0 \<or> bs_get parent s \<noteq> None) \<and> child \<noteq> parent
      then (True, bs_put child (\<lambda>w. w\<lparr>wparent := parent\<rparr>) s)
      else (False, s))"

definition ShowWindow :: "hwnd \<Rightarrow> int \<Rightarrow> bs_state \<Rightarrow> bool \<times> bs_state" where
  "ShowWindow h cmdShow s =
     (case bs_get h s of
        None \<Rightarrow> (False, s)
      | Some w \<Rightarrow> (\<not> minimized w, if cmdShow = 6 then bs_put h (\<lambda>w. w\<lparr>minimized := True\<rparr>) s else s))"

definition MoveWindow :: "hwnd \<Rightarrow> int \<Rightarrow> int \<Rightarrow> int \<Rightarrow> int \<Rightarrow> bool \<Rightarrow> bs_state \<Rightarrow> bool \<times> bs_state" where
  "MoveWindow h x y width height repaint s =
     (case bs_get h s of
        None \<Rightarrow> (False, s)
      | Some _ \<Rightarrow> (True, bs_put h (\<lambda>w. w\<lparr>wpos := (x, y)\<rparr>) s))"

text \<open>\<open>CreateWindowExW\<close> with \<open>WS_MINIMIZE\<close> at (0, 0), then moved off screen.\<close>

definition CreateBlackScreenParentWindow :: "bs_state \<Rightarrow> hwnd \<times> bs_state" where
  "CreateBlackScreenParentWindow s =
     (if create_ok s then
        (let h = next_hwnd s;
             s1 = s\<lparr>bs_windows := bs_windows s @ [(h, \<lparr>btitle = container_title, wparent = 0,
                       minimized = True, wpos = (0, 0), ours = True\<rparr>)], next_hwnd := Suc h\<rparr>
         in (h, snd (MoveWindow h (-10000) (-10000) 100 100 False s1)))
      else (0, s))"

text \<open>The ancestors of a window, following parents; the fuel is the number of
  windows, which bounds every chain of distinct windows.\<close>

fun ancestors :: "nat \<Rightarrow> (hwnd \<times> bswin) list \<Rightarrow> hwnd \<Rightarrow> hwnd list" where
  "ancestors 0 ws x = []"
| "ancestors (Suc n) ws x =
     (case map_of ws x of
        None \<Rightarrow> []
      | Some w \<Rightarrow> if wparent w = 0 then [] else wparent w # ancestors n ws (wparent w))"

definition DestroyWindow :: "hwnd \<Rightarrow> bs_state \<Rightarrow> bool \<times> bs_state" where
  "DestroyWindow h s =
     (case bs_get h s of
        None \<Rightarrow> (False, s)
      | Some _ \<Rightarrow> (True, s\<lparr>bs_windows := filter (\<lambda>(k, w). k \<noteq> h \<and> h \<notin> set (ancestors (length (bs_windows s)) (bs_windows s) k))
                                              (bs_windows s)\<rparr>))"

subsection \<open>Definitions: the monitor and the checkbox\<close>

text \<open>The check of a tick of \<open>monitorBlackScreenWindow\<close>: the branch it takes.\<close>

definition tick_check :: "bs_state \<Rightarrow> mon_pc" where
  "tick_check s =
     (if blackScreenMinimizeEnabled s then
        (let bw = FindWindowByTitle_bs blackscreen_title s in
         if bw \<noteq> 0 \<and> embeddedBlackScreenWindow s = 0 then MEmbed bw
         else if bw = 0 \<and> embeddedBlackScreenWindow s \<noteq> 0 then MClear
         else MIdle)
      else MIdle)"

text \<open>The action of the branch.\<close>

fun tick_act :: "mon_pc \<Rightarrow> bs_state \<Rightarrow> bs_state" where
  "tick_act MIdle s = s"
| "tick_act (MEmbed bw) s =
     (let (p, s1) = CreateBlackScreenParentWindow s;
          s2 = s1\<lparr>blackScreenParentWindow := p\<rparr>
      in if p \<noteq> 0 then
           (let (ok, s3) = SetParent bw p s2 in
            if ok then snd (ShowWindow p 6 (s3\<lparr>embeddedBlackScreenWindow := bw\<rparr>)) else s3)
         else s2)"
| "tick_act MClear s =
     (let s1 = s\<lparr>embeddedBlackScreenWindow := 0\<rparr> in
      if blackScreenParentWindow s1 \<noteq> 0
      then (snd (DestroyWindow (blackScreenParentWindow s1) s1))\<lparr>blackScreenParentWindow := 0\<rparr>
      else s1)"

definition monitor_tick_bs :: "bs_state \<Rightarrow> bs_state" where
  "monitor_tick_bs s = tick_act (tick_check s) s"

text \<open>The \<open>OnCheckedChanged\<close> handler of the "hide black screen" checkbox: ticking
  starts a monitor on the current quit channel; unticking moves the window back to
  the desktop, destroys the container, closes the channel and makes a new one.\<close>

definition blackscreen_checkbox :: "bool \<Rightarrow> bs_state \<Rightarrow> bs_state" where
  "blackscreen_checkbox checked s =
     (if checked then
        s\<lparr>blackScreenMinimizeEnabled := True,
          monitors := monitors s @ [(MIdle, blackScreenQuitChannel s)]\<rparr>
      else
        (let s1 = s\<lparr>blackScreenMinimizeEnabled := False\<rparr>;
             s2 = (if embeddedBlackScreenWindow s1 \<noteq> 0
                   then (snd (SetParent (embeddedBlackScreenWindow s1) 0 s1))\<lparr>embeddedBlackScreenWindow := 0\<rparr>
                   else s1);
             s3 = (if blackScreenParentWindow s2 \<noteq> 0
                   then (snd (DestroyWindow (blackScreenParentWindow s2) s2))\<lparr>blackScreenParentWindow := 0\<rparr>
                   else s2)
         in s3\<lparr>closed_channels := blackScreenQuitChannel s3 # closed_channels s3,
               blackScreenQuitChannel := Suc (blackScreenQuitChannel s3)\<rparr>))"

definition set_pc :: "nat \<Rightarrow> mon_pc \<Rightarrow> bs_state \<Rightarrow> bs_state" where
  "set_pc i pc s = s\<lparr>monitors := (monitors s)[i := (pc, snd (monitors s ! i))]\<rparr>"

definition agent_blackscreen :: "bs_state \<Rightarrow> bs_state" where
  "agent_blackscreen s =
     s\<lparr>bs_windows := bs_windows s @ [(next_hwnd s, \<lparr>btitle = blackscreen_title, wparent = 0,
         minimized = False, wpos = (0, 0), ours = False\<rparr>)], next_hwnd := Suc (next_hwnd s)\<rparr>"

inductive bs_step :: "bs_state \<Rightarrow> bs_event \<Rightarrow> bs_state \<Rightarrow> bool" where
  check_on: "\<not> blackScreenMinimizeEnabled s \<Longrightarrow> bs_step s (BSCheck True) (blackscreen_checkbox True s)"
| check_off: "blackScreenMinimizeEnabled s \<Longrightarrow> bs_step s (BSCheck False) (blackscreen_checkbox False s)"
| tick: "i < length (monitors s) \<Longrightarrow> fst (monitors s ! i) = MIdle \<Longrightarrow>
         bs_step s (BSTick i) (monitor_tick_bs s)"
| tick_check: "i < length (monitors s) \<Longrightarrow> fst (monitors s ! i) = MIdle \<Longrightarrow>
         bs_step s (BSTickCheck i) (set_pc i (tick_check s) s)"
| tick_act: "i < length (monitors s) \<Longrightarrow> fst (monitors s ! i) = pc \<Longrightarrow> pc \<noteq> MIdle \<Longrightarrow>
         bs_step s (BSTickAct i) (set_pc i MIdle (tick_act pc s))"
| quit: "i < length (monitors s) \<Longrightarrow> monitors s ! i = (MIdle, c) \<Longrightarrow> c \<in> set (closed_channels s) \<Longrightarrow>
         bs_step s (BSQuit i) (s\<lparr>monitors := take i (monitors s) @ drop (Suc i) (monitors s)\<rparr>)"
| agent_show: "bs_step s AgentShow (agent_blackscreen s)"
| agent_close: "bs_get h s = Some w \<Longrightarrow> \<not> ours w \<Longrightarrow> bs_step s (AgentClose h) (snd (DestroyWindow h s))"

inductive bs_steps :: "bs_state \<Rightarrow> bs_event list \<Rightarrow> bs_state \<Rightarrow> bool" where
  nil: "bs_steps s [] s"
| cons: "bs_step s e s' \<Longrightarrow> bs_steps s' es s'' \<Longrightarrow> bs_steps s (e # es) s''"

definition init_bs :: "bool \<Rightarrow> bool \<Rightarrow> bs_state" where
  "init_bs cok pok =
     \<lparr>bs_windows = [], next_hwnd = 1, create_ok = cok, setparent_ok = pok,
      blackScreenMinimizeEnabled = False, blackScreenParentWindow = 0, embeddedBlackScreenWindow = 0,
      blackScreenQuitChannel = 0, closed_channels = [], monitors = []\<rparr>"

subsection \<open>Definitions: invariants and a sample desktop\<close>

text \<open>The invariant of runs with uninterrupted ticks; fresh handles; well-formed
  states (fresh handles, issued global handles, an open current quit channel); the number of
  windows of this process; the conditions under which every tick leaks a
  container; the container as moved off screen; and a desktop where the agent shows
  its black screen and the box has just been ticked.\<close>

definition bs_inv :: "bs_state \<Rightarrow> bool" where
  "bs_inv s \<longleftrightarrow> (\<forall>m \<in> set (monitors s). fst m = MIdle)
     \<and> (embeddedBlackScreenWindow s \<noteq> 0 \<longrightarrow> blackScreenParentWindow s \<noteq> 0)
     \<and> (\<not> blackScreenMinimizeEnabled s \<longrightarrow> embeddedBlackScreenWindow s = 0 \<and> blackScreenParentWindow s = 0)"

definition bs_fresh :: "bs_state \<Rightarrow> bool" where
  "bs_fresh s \<longleftrightarrow> 0 < next_hwnd s \<and> distinct (map fst (bs_windows s)) \<and> (\<forall>(k, w) \<in> set (bs_windows s). 0 < k \<and> k < next_hwnd s \<and> wparent w < next_hwnd s)"

definition bs_wf :: "bs_state \<Rightarrow> bool" where
  "bs_wf s \<longleftrightarrow> bs_fresh s \<and> embeddedBlackScreenWindow s < next_hwnd s \<and> blackScreenParentWindow s < next_hwnd s
     \<and> (\<forall>c \<in> set (closed_channels s). c < blackScreenQuitChannel s)"

definition ours_count :: "bs_state \<Rightarrow> nat" where
  "ours_count s = length (filter (\<lambda>(k, w). ours w) (bs_windows s))"

definition leak_ok :: "bs_state \<Rightarrow> bool" where
  "leak_ok s \<longleftrightarrow> blackScreenMinimizeEnabled s \<and> create_ok s \<and> \<not> setparent_ok s
     \<and> embeddedBlackScreenWindow s = 0 \<and> FindWindowByTitle_bs blackscreen_title s \<noteq> 0 \<and> bs_fresh s"

abbreviation hidden_container :: bswin where
  "hidden_container \<equiv> \<lparr>btitle = container_title, wparent = 0, minimized = True, wpos = (-10000, -10000), ours = True\<rparr>"

definition bs_demo :: "bool \<Rightarrow> bs_state" where
  "bs_demo pok = blackscreen_checkbox True (agent_blackscreen (init_bs True pok))"

subsection \<open>Lemmas\<close>

inductive_cases bs_steps_consE: "bs_steps s (e # es) s''"

inductive_cases bs_steps_nilE: "bs_steps s [] s'"

inductive_cases tick_checkE: "bs_step s (BSTickCheck i) s'"

inductive_cases check_offE: "bs_step s (BSCheck False) s'"

inductive_cases tick_actE: "bs_step s (BSTickAct i) s'"

lemma bs_put_globals [bs_globals]:
  "blackScreenMinimizeEnabled (bs_put h f s) = blackScreenMinimizeEnabled s"
  "blackScreenParentWindow (bs_put h f s) = blackScreenParentWindow s"
  "embeddedBlackScreenWindow (bs_put h f s) = embeddedBlackScreenWindow s"
  "monitors (bs_put h f s) = monitors s"
  "closed_channels (bs_put h f s) = closed_channels s"
  "blackScreenQuitChannel (bs_put h f s) = blackScreenQuitChannel s"
  by (simp_all add: bs_put_def)

lemma SetParent_globals [bs_globals]:
  "blackScreenMinimizeEnabled (snd (SetParent c p s)) = blackScreenMinimizeEnabled s"
  "blackScreenParentWindow (snd (SetParent c p s)) = blackScreenParentWindow s"
  "embeddedBlackScreenWindow (snd (SetParent c p s)) = embeddedBlackScreenWindow s"
  "monitors (snd (SetParent c p s)) = monitors s"
  "closed_channels (snd (SetParent c p s)) = closed_channels s"
  "blackScreenQuitChannel (snd (SetParent c p s)) = blackScreenQuitChannel s"
  by (simp_all add: SetParent_def bs_globals)

lemma ShowWindow_globals [bs_globals]:
  "blackScreenMinimizeEnabled (snd (ShowWindow h c s)) = blackScreenMinimizeEnabled s"
  "blackScreenParentWindow (snd (ShowWindow h c s)) = blackScreenParentWindow s"
  "embeddedBlackScreenWindow (snd (ShowWindow h c s)) = embeddedBlackScreenWindow s"
  "monitors (snd (ShowWindow h c s)) = monitors s"
  "closed_channels (snd (ShowWindow h c s)) = closed_channels s"
  "blackScreenQuitChannel (snd (ShowWindow h c s)) = blackScreenQuitChannel s"
  by (simp_all add: ShowWindow_def bs_globals split: option.splits)

lemma MoveWindow_globals [bs_globals]:
  "blackScreenMinimizeEnabled (snd (MoveWindow h x y wd ht r s)) = blackScreenMinimizeEnabled s"
  "blackScreenParentWindow (snd (MoveWindow h x y wd ht r s)) = blackScreenParentWindow s"
  "embeddedBlackScreenWindow (snd (MoveWindow h x y wd ht r s)) = embeddedBlackScreenWindow s"
  "monitors (snd (MoveWindow h x y wd ht r s)) = monitors s"
  "closed_channels (snd (MoveWindow h x y wd ht r s)) = closed_channels s"
  "blackScreenQuitChannel (snd (MoveWindow h x y wd ht r s)) = blackScreenQuitChannel s"
  by (simp_all add: MoveWindow_def bs_globals split: option.splits)

lemma Create_globals [bs_globals]:
  "blackScreenMinimizeEnabled (snd (CreateBlackScreenParentWindow s)) = blackScreenMinimizeEnabled s"
  "blackScreenParentWindow (snd (CreateBlackScreenParentWindow s)) = blackScreenParentWindow s"
  "embeddedBlackScreenWindow (snd (CreateBlackScreenParentWindow s)) = embeddedBlackScreenWindow s"
  "monitors (snd (CreateBlackScreenParentWindow s)) = monitors s"
  "closed_channels (snd (CreateBlackScreenParentWindow s)) = closed_channels s"
  "blackScreenQuitChannel (snd (CreateBlackScreenParentWindow s)) = blackScreenQuitChannel s"
  by (simp_all add: CreateBlackScreenParentWindow_def Let_def bs_globals)

lemma DestroyWindow_globals [bs_globals]:
  "blackScreenMinimizeEnabled (snd (DestroyWindow h s)) = blackScreenMinimizeEnabled s"
  "blackScreenParentWindow (snd (DestroyWindow h s)) = blackScreenParentWindow s"
  "embeddedBlackScreenWindow (snd (DestroyWindow h s)) = embeddedBlackScreenWindow s"
  "monitors (snd (DestroyWindow h s)) = monitors s"
  "closed_channels (snd (DestroyWindow h s)) = closed_channels s"
  "blackScreenQuitChannel (snd (DestroyWindow h s)) = blackScreenQuitChannel s"
  by (simp_all add: DestroyWindow_def split: option.splits)

lemma Create_nonzero: "fst (CreateBlackScreenParentWindow s) \<noteq> 0 \<Longrightarrow> fst (CreateBlackScreenParentWindow s) = next_hwnd s"
  by (simp add: CreateBlackScreenParentWindow_def Let_def split: if_splits)

lemma tick_check_disabled: "\<not> blackScreenMinimizeEnabled s \<Longrightarrow> tick_check s = MIdle"
  by (simp add: tick_check_def)

lemma tick_check_embed:
  "tick_check s = MEmbed bw \<Longrightarrow> blackScreenMinimizeEnabled s \<and> embeddedBlackScreenWindow s = 0
     \<and> bw = FindWindowByTitle_bs blackscreen_title s \<and> bw \<noteq> 0"
  by (simp add: tick_check_def Let_def split: if_splits)

lemma tick_act_embed_inv:
  "bs_inv s \<Longrightarrow> blackScreenMinimizeEnabled s \<Longrightarrow> embeddedBlackScreenWindow s = 0 \<Longrightarrow> bs_inv (tick_act (MEmbed bw) s)"
  by (auto simp: bs_inv_def Let_def split_def bs_globals)

lemma tick_act_clear_inv:
  "bs_inv s \<Longrightarrow> blackScreenMinimizeEnabled s \<Longrightarrow> bs_inv (tick_act MClear s)"
  by (auto simp: bs_inv_def Let_def bs_globals)

lemma monitor_tick_inv: "bs_inv s \<Longrightarrow> bs_inv (monitor_tick_bs s)"
proof (cases "blackScreenMinimizeEnabled s")
  case True
  assume i: "bs_inv s"
  show ?thesis
  proof (cases "tick_check s")
    case MIdle
    then show ?thesis using i by (simp add: monitor_tick_bs_def)
  next
    case (MEmbed bw)
    then show ?thesis using tick_act_embed_inv [OF i True] tick_check_embed [OF MEmbed]
      by (simp add: monitor_tick_bs_def)
  next
    case MClear
    then show ?thesis using tick_act_clear_inv [OF i True] by (simp add: monitor_tick_bs_def)
  qed
next
  case False
  assume "bs_inv s"
  then show ?thesis using False by (simp add: monitor_tick_bs_def tick_check_disabled)
qed

lemma checkbox_inv: "bs_inv s \<Longrightarrow> bs_inv (blackscreen_checkbox b s)"
  by (auto simp: bs_inv_def blackscreen_checkbox_def Let_def bs_globals)

lemma bs_step_inv:
  "bs_step s e s' \<Longrightarrow> (\<forall>i. e \<noteq> BSTickCheck i) \<Longrightarrow> bs_inv s \<Longrightarrow> bs_inv s'"
proof (induction rule: bs_step.induct)
  case (check_on s)
  then show ?case by (simp add: checkbox_inv)
next
  case (check_off s)
  then show ?case by (simp add: checkbox_inv)
next
  case (tick i s)
  then show ?case by (simp add: monitor_tick_inv)
next
  case (tick_act i s pc)
  then have "fst (monitors s ! i) = MIdle" by (auto simp: bs_inv_def)
  then show ?case using tick_act by simp
next
  case (quit i s c)
  then show ?case by (auto simp: bs_inv_def dest: in_set_takeD in_set_dropD)
next
  case (agent_show s)
  then show ?case by (simp add: bs_inv_def agent_blackscreen_def)
next
  case (agent_close h s w)
  then show ?case by (simp add: bs_inv_def bs_globals)
qed simp

lemma bs_steps_inv:
  "bs_steps s evs s' \<Longrightarrow> (\<forall>i. BSTickCheck i \<notin> set evs) \<Longrightarrow> bs_inv s \<Longrightarrow> bs_inv s'"
proof (induction rule: bs_steps.induct)
  case (cons s e s' es s'')
  then show ?case using bs_step_inv [OF cons.hyps(1)] by auto
qed simp

lemma bs_get_put: "bs_get x (bs_put h f s) = (if x = h then map_option f (bs_get x s) else bs_get x s)"
  by (simp add: bs_get_def bs_put_def map_of_put)

lemma fresh_not_key: "bs_fresh s \<Longrightarrow> next_hwnd s \<notin> fst ` set (bs_windows s)"
  by (force simp: bs_fresh_def)

lemma Create_fresh:
  assumes "create_ok s" "bs_fresh s"
  shows "CreateBlackScreenParentWindow s =
           (next_hwnd s, s\<lparr>bs_windows := bs_windows s @ [(next_hwnd s, \<lparr>btitle = container_title, wparent = 0,
                minimized = True, wpos = (-10000, -10000), ours = True\<rparr>)], next_hwnd := Suc (next_hwnd s)\<rparr>)"
proof -
  have n: "next_hwnd s \<notin> fst ` set (bs_windows s)" by (rule fresh_not_key [OF assms(2)])
  then have "map_of (bs_windows s) (next_hwnd s) = None" by (simp add: map_of_eq_None_iff)
  then show ?thesis using assms(1) n
    by (simp add: CreateBlackScreenParentWindow_def MoveWindow_def bs_get_def bs_put_def map_put_fresh
        Let_def map_add_def)
qed

lemma Find_get:
  "bs_fresh s \<Longrightarrow> FindWindowByTitle_bs t s = b \<Longrightarrow> b \<noteq> 0 \<Longrightarrow>
   \<exists>w. bs_get b s = Some w \<and> wparent w = 0 \<and> btitle w = t"
proof -
  assume fr: "bs_fresh s" and f: "FindWindowByTitle_bs t s = b" and b: "b \<noteq> 0"
  then obtain w where "find (\<lambda>(k, w). wparent w = 0 \<and> btitle w = t) (bs_windows s) = Some (b, w)"
    by (auto simp: FindWindowByTitle_bs_def split: option.splits)
  from find_Some_mem [OF this] have "(b, w) \<in> set (bs_windows s)" "wparent w = 0 \<and> btitle w = t" by auto
  moreover from fr have "distinct (map fst (bs_windows s))" by (simp add: bs_fresh_def)
  ultimately show ?thesis by (simp add: bs_get_def map_of_is_SomeI)
qed

lemma set_pc_fields [simp]:
  "bs_windows (set_pc i pc s) = bs_windows s"
  "next_hwnd (set_pc i pc s) = next_hwnd s"
  "create_ok (set_pc i pc s) = create_ok s"
  "setparent_ok (set_pc i pc s) = setparent_ok s"
  "blackScreenMinimizeEnabled (set_pc i pc s) = blackScreenMinimizeEnabled s"
  "blackScreenParentWindow (set_pc i pc s) = blackScreenParentWindow s"
  "embeddedBlackScreenWindow (set_pc i pc s) = embeddedBlackScreenWindow s"
  "bs_fresh (set_pc i pc s) = bs_fresh s"
  by (simp_all add: set_pc_def bs_fresh_def)

lemma set_pc_nth: "i < length (monitors s) \<Longrightarrow> monitors (set_pc i pc s) ! i = (pc, snd (monitors s ! i))"
  by (simp add: set_pc_def)

lemma uncheck_idle:
  "embeddedBlackScreenWindow s = 0 \<Longrightarrow> blackScreenParentWindow s = 0 \<Longrightarrow>
   blackscreen_checkbox False s =
     s\<lparr>blackScreenMinimizeEnabled := False, closed_channels := blackScreenQuitChannel s # closed_channels s,
       blackScreenQuitChannel := Suc (blackScreenQuitChannel s)\<rparr>"
  by (simp add: blackscreen_checkbox_def Let_def)

lemma ShowWindow_get_other: "x \<noteq> h \<Longrightarrow> bs_get x (snd (ShowWindow h c s)) = bs_get x s"
  by (simp add: ShowWindow_def bs_get_put split: option.split)

lemma bs_get_globals [simp]:
  "bs_get x (s\<lparr>embeddedBlackScreenWindow := e\<rparr>) = bs_get x s"
  "bs_get x (s\<lparr>blackScreenParentWindow := p\<rparr>) = bs_get x s"
  "bs_get x (s\<lparr>blackScreenMinimizeEnabled := en\<rparr>) = bs_get x s"
  by (simp_all add: bs_get_def)

text \<open>The action of an embed branch when the container is created and the
  window exists: the window's parent is the new container, which is minimized.\<close>

lemma embed_act:
  assumes ok: "create_ok s" "setparent_ok s" and fr: "bs_fresh s"
    and b: "bs_get b s = Some w"
  shows "embeddedBlackScreenWindow (tick_act (MEmbed b) s) = b
       \<and> blackScreenParentWindow (tick_act (MEmbed b) s) = next_hwnd s
       \<and> bs_get b (tick_act (MEmbed b) s) = Some (w\<lparr>wparent := next_hwnd s\<rparr>)
       \<and> blackScreenMinimizeEnabled (tick_act (MEmbed b) s) = blackScreenMinimizeEnabled s"
proof -
  let ?c = "\<lparr>btitle = container_title, wparent = 0, minimized = True, wpos = (-10000, -10000), ours = True\<rparr>"
  let ?s1 = "s\<lparr>bs_windows := bs_windows s @ [(next_hwnd s, ?c)], next_hwnd := Suc (next_hwnd s)\<rparr>"
  have n: "next_hwnd s \<notin> fst ` set (bs_windows s)" by (rule fresh_not_key [OF fr])
  have "(b, w) \<in> set (bs_windows s)" using b by (simp add: bs_get_def map_of_SomeD)
  then have bn: "b \<noteq> next_hwnd s" using n by force
  have nz: "next_hwnd s \<noteq> 0" using fr by (auto simp: bs_fresh_def) 
  have g1: "bs_get b ?s1 = Some w" using b by (simp add: bs_get_def)
  have g2: "bs_get (next_hwnd s) ?s1 = Some ?c"
    using n by (simp add: bs_get_def map_add_def map_of_eq_None_iff [THEN iffD2])
  have act: "tick_act (MEmbed b) s =
      snd (ShowWindow (next_hwnd s) 6
        ((bs_put b (\<lambda>w. w\<lparr>wparent := next_hwnd s\<rparr>) (?s1\<lparr>blackScreenParentWindow := next_hwnd s\<rparr>))
           \<lparr>embeddedBlackScreenWindow := b\<rparr>))"
    using Create_fresh [OF ok(1) fr] ok(2) g1 g2 bn nz by (simp add: SetParent_def bs_get_def)
  have "bs_get b (tick_act (MEmbed b) s) = Some (w\<lparr>wparent := next_hwnd s\<rparr>)"
    unfolding act using g1 bn by (simp add: ShowWindow_get_other bs_get_put)
  then show ?thesis unfolding act by (simp add: bs_globals)
qed

lemma ancestors_parent:
  "x \<in> set (ancestors n ws k) \<Longrightarrow> \<exists>(k', w) \<in> set ws. wparent w = x"
proof (induction n arbitrary: k)
  case 0 then show ?case by simp
next
  case (Suc n)
  show ?case
  proof (cases "map_of ws k")
    case None
    with Suc.prems show ?thesis by simp
  next
    case (Some w)
    then have mem: "(k, w) \<in> set ws" by (rule map_of_SomeD)
    from Suc.prems Some have "x = wparent w \<or> x \<in> set (ancestors n ws (wparent w))"
      by (simp split: if_splits)
    with mem Suc.IH show ?thesis by blast
  qed
qed

lemma Destroy_leaf:
  assumes "bs_get h s \<noteq> None" "\<forall>(k, w) \<in> set (bs_windows s). wparent w \<noteq> h"
  shows "DestroyWindow h s = (True, s\<lparr>bs_windows := filter (\<lambda>(k, w). k \<noteq> h) (bs_windows s)\<rparr>)"
proof -
  have "\<And>k. h \<notin> set (ancestors (length (bs_windows s)) (bs_windows s) k)"
    using assms(2) ancestors_parent by blast
  then show ?thesis using assms(1) by (auto simp: DestroyWindow_def)
qed

lemma leak_tick:
  assumes "leak_ok s"
  shows "monitor_tick_bs s = s\<lparr>bs_windows := bs_windows s @ [(next_hwnd s, hidden_container)],
                                next_hwnd := Suc (next_hwnd s), blackScreenParentWindow := next_hwnd s\<rparr>"
proof -
  have chk: "tick_check s = MEmbed (FindWindowByTitle_bs blackscreen_title s)"
    using assms by (simp add: tick_check_def leak_ok_def Let_def)
  have nz: "next_hwnd s \<noteq> 0" using assms by (simp add: leak_ok_def bs_fresh_def)
  show ?thesis using assms nz
    by (simp add: monitor_tick_bs_def chk leak_ok_def Create_fresh SetParent_def)
qed

lemma leak_ok_tick: "leak_ok s \<Longrightarrow> leak_ok (monitor_tick_bs s)"
proof -
  assume a: "leak_ok s"
  have n: "next_hwnd s \<notin> fst ` set (bs_windows s)" using a by (simp add: leak_ok_def fresh_not_key)
  have f: "FindWindowByTitle_bs blackscreen_title (monitor_tick_bs s) = FindWindowByTitle_bs blackscreen_title s"
    using a by (auto simp: leak_tick FindWindowByTitle_bs_def find_append_split leak_ok_def split: option.splits)
  have "bs_fresh (monitor_tick_bs s)"
    using a n by (fastforce simp: leak_tick leak_ok_def bs_fresh_def)
  then show ?thesis using a f by (simp add: leak_tick leak_ok_def)
qed

lemma leak_iter:
  "leak_ok s \<Longrightarrow> (monitor_tick_bs ^^ Suc n) s =
     s\<lparr>bs_windows := bs_windows s @ map (\<lambda>h. (h, hidden_container)) [next_hwnd s..<Suc (next_hwnd s + n)],
       next_hwnd := Suc (next_hwnd s + n), blackScreenParentWindow := next_hwnd s + n\<rparr>"
proof (induction n arbitrary: s)
  case 0
  then show ?case by (simp add: leak_tick)
next
  case (Suc n)
  have "(monitor_tick_bs ^^ Suc (Suc n)) s = (monitor_tick_bs ^^ Suc n) (monitor_tick_bs s)"
    by (simp only: funpow_Suc_right comp_def)
  also have "\<dots> = (monitor_tick_bs s)\<lparr>bs_windows := bs_windows (monitor_tick_bs s) @
        map (\<lambda>h. (h, hidden_container)) [next_hwnd (monitor_tick_bs s)..<Suc (next_hwnd (monitor_tick_bs s) + n)],
       next_hwnd := Suc (next_hwnd (monitor_tick_bs s) + n),
       blackScreenParentWindow := next_hwnd (monitor_tick_bs s) + n\<rparr>"
    by (rule Suc.IH [OF leak_ok_tick [OF Suc.prems]])
  also have "\<dots> = s\<lparr>bs_windows := bs_windows s @ map (\<lambda>h. (h, hidden_container)) [next_hwnd s..<Suc (next_hwnd s + Suc n)],
       next_hwnd := Suc (next_hwnd s + Suc n), blackScreenParentWindow := next_hwnd s + Suc n\<rparr>"
    using Suc.prems by (simp add: leak_tick upt_conv_Cons)
  finally show ?case .
qed

lemma embed_act_eq:
  assumes ok: "create_ok s" "setparent_ok s" and fr: "bs_fresh s" and b: "bs_get b s \<noteq> None"
  shows "tick_act (MEmbed b) s =
           s\<lparr>bs_windows := map (\<lambda>(k, w). if k = b then (k, w\<lparr>wparent := next_hwnd s\<rparr>) else (k, w)) (bs_windows s)
                            @ [(next_hwnd s, hidden_container)],
             next_hwnd := Suc (next_hwnd s), blackScreenParentWindow := next_hwnd s,
             embeddedBlackScreenWindow := b\<rparr>"
proof -
  have n: "next_hwnd s \<notin> fst ` set (bs_windows s)" by (rule fresh_not_key [OF fr])
  obtain w where w: "bs_get b s = Some w" using b by auto
  have "(b, w) \<in> set (bs_windows s)" using w by (simp add: bs_get_def map_of_SomeD)
  then have bn: "b \<noteq> next_hwnd s" using n by force
  have nz: "next_hwnd s \<noteq> 0" using fr by (simp add: bs_fresh_def)
  let ?s1 = "s\<lparr>bs_windows := bs_windows s @ [(next_hwnd s, hidden_container)], next_hwnd := Suc (next_hwnd s)\<rparr>"
  have g1: "bs_get b ?s1 = Some w" using w by (simp add: bs_get_def)
  have g2: "bs_get (next_hwnd s) ?s1 = Some hidden_container"
    using n by (simp add: bs_get_def map_add_def map_of_eq_None_iff [THEN iffD2])
  have g3: "bs_get (next_hwnd s) (bs_put b (\<lambda>w. w\<lparr>wparent := next_hwnd s\<rparr>) ?s1) = Some hidden_container"
    using g2 bn by (simp add: bs_get_put)
  have "tick_act (MEmbed b) s =
      snd (ShowWindow (next_hwnd s) 6
        ((bs_put b (\<lambda>w. w\<lparr>wparent := next_hwnd s\<rparr>) (?s1\<lparr>blackScreenParentWindow := next_hwnd s\<rparr>))
           \<lparr>embeddedBlackScreenWindow := b\<rparr>))"
    using Create_fresh [OF ok(1) fr] ok(2) g1 g2 bn nz by (simp add: SetParent_def bs_get_def)
  also have "\<dots> = (bs_put (next_hwnd s) (\<lambda>w. w\<lparr>minimized := True\<rparr>)
        (bs_put b (\<lambda>w. w\<lparr>wparent := next_hwnd s\<rparr>) ?s1))\<lparr>blackScreenParentWindow := next_hwnd s,
           embeddedBlackScreenWindow := b\<rparr>"
    using g3 by (simp add: ShowWindow_def bs_get_def bs_put_def)
  also have "\<dots> = s\<lparr>bs_windows := map (\<lambda>(k, w). if k = b then (k, w\<lparr>wparent := next_hwnd s\<rparr>) else (k, w)) (bs_windows s)
                            @ [(next_hwnd s, hidden_container)],
             next_hwnd := Suc (next_hwnd s), blackScreenParentWindow := next_hwnd s,
             embeddedBlackScreenWindow := b\<rparr>"
  proof -
    have "map (\<lambda>(k, w). if k = next_hwnd s then (k, w\<lparr>minimized := True\<rparr>) else (k, w))
            (map (\<lambda>(k, w). if k = b then (k, w\<lparr>wparent := next_hwnd s\<rparr>) else (k, w)) (bs_windows s)) =
          map (\<lambda>(k, w). if k = b then (k, w\<lparr>wparent := next_hwnd s\<rparr>) else (k, w)) (bs_windows s)"
      by (rule map_put_fresh) (simp only: keys_put n not_False_eq_True)
    then show ?thesis using bn by (simp add: bs_put_def)
  qed
  finally show ?thesis .
qed

lemma clear_destroys_child:
  assumes chk: "tick_check t = MClear" and g: "bs_get c t = Some w" "wparent w = p" "p \<noteq> 0"
    and par: "blackScreenParentWindow t = p" and gp: "bs_get p t \<noteq> None"
  shows "bs_get c (monitor_tick_bs t) = None \<and> bs_get p (monitor_tick_bs t) = None
       \<and> embeddedBlackScreenWindow (monitor_tick_bs t) = 0 \<and> blackScreenParentWindow (monitor_tick_bs t) = 0"
proof -
  let ?t' = "t\<lparr>embeddedBlackScreenWindow := 0\<rparr>"
  obtain n where len: "length (bs_windows t) = Suc n"
    using g(1) by (cases "bs_windows t") (auto simp: bs_get_def)
  have anc: "p \<in> set (ancestors (length (bs_windows ?t')) (bs_windows ?t') c)"
    using g len by (simp add: bs_get_def)
  have t2: "monitor_tick_bs t = (snd (DestroyWindow p ?t'))\<lparr>blackScreenParentWindow := 0\<rparr>"
    unfolding monitor_tick_bs_def chk using g(3) par by simp
  have d: "bs_windows (snd (DestroyWindow p ?t')) =
      filter (\<lambda>(k, w). k \<noteq> p \<and> p \<notin> set (ancestors (length (bs_windows ?t')) (bs_windows ?t') k)) (bs_windows ?t')"
    using gp by (auto simp: DestroyWindow_def bs_get_def split: option.split)
  have "bs_get c (monitor_tick_bs t) = None"
    unfolding t2 using anc by (simp add: bs_get_def d map_of_filter_none)
  moreover have "bs_get p (monitor_tick_bs t) = None"
    unfolding t2 by (simp add: bs_get_def d map_of_filter_none)
  ultimately show ?thesis unfolding t2 by (simp add: bs_globals)
qed

lemma container_title_ne: "container_title \<noteq> blackscreen_title"
  by (simp add: container_title_def blackscreen_title_def utf16_ascii_def)

lemma fresh_put:
  "bs_fresh s \<Longrightarrow> (\<And>w. wparent w < next_hwnd s \<Longrightarrow> wparent (f w) < next_hwnd s) \<Longrightarrow> bs_fresh (bs_put h f s)"
proof -
  assume f: "bs_fresh s" and p: "\<And>w. wparent w < next_hwnd s \<Longrightarrow> wparent (f w) < next_hwnd s"
  have k: "map fst (bs_windows (bs_put h f s)) = map fst (bs_windows s)"
    by (simp add: bs_put_def map_fst_put del: map_map)
  have d: "distinct (map fst (bs_windows (bs_put h f s)))" using f unfolding k by (simp add: bs_fresh_def)
  show ?thesis using f p d unfolding bs_fresh_def by (auto simp: bs_put_def split: if_splits)
qed

lemma fresh_filter: "bs_fresh s \<Longrightarrow> bs_fresh (s\<lparr>bs_windows := filter P (bs_windows s)\<rparr>)"
  unfolding bs_fresh_def by (auto simp: distinct_map_filter)

lemma fresh_new:
  "bs_fresh s \<Longrightarrow> wparent w = 0 \<Longrightarrow>
   bs_fresh (s\<lparr>bs_windows := bs_windows s @ [(next_hwnd s, w)], next_hwnd := Suc (next_hwnd s)\<rparr>)"
  unfolding bs_fresh_def by (auto dest: less_SucI)

lemma fresh_get: "bs_fresh s \<Longrightarrow> bs_get h s = Some w \<Longrightarrow> h < next_hwnd s"
  unfolding bs_fresh_def bs_get_def by (auto dest!: map_of_SomeD)

lemma fresh_fields [simp]:
  "bs_fresh (s\<lparr>embeddedBlackScreenWindow := e\<rparr>) = bs_fresh s"
  "bs_fresh (s\<lparr>blackScreenParentWindow := p\<rparr>) = bs_fresh s"
  "bs_fresh (s\<lparr>blackScreenMinimizeEnabled := b\<rparr>) = bs_fresh s"
  "bs_fresh (s\<lparr>monitors := ms\<rparr>) = bs_fresh s"
  "bs_fresh (s\<lparr>closed_channels := cs, blackScreenQuitChannel := q\<rparr>) = bs_fresh s"
  by (simp_all add: bs_fresh_def)

lemma next_put [simp]: "next_hwnd (bs_put h f s) = next_hwnd s"
  by (simp add: bs_put_def)

lemma SetParent_wf:
  "bs_fresh s \<Longrightarrow> bs_fresh (snd (SetParent c p s)) \<and> next_hwnd (snd (SetParent c p s)) = next_hwnd s"
  by (auto simp: SetParent_def intro!: fresh_put dest: fresh_get)

lemma ShowWindow_wf:
  "bs_fresh s \<Longrightarrow> bs_fresh (snd (ShowWindow h c s)) \<and> next_hwnd (snd (ShowWindow h c s)) = next_hwnd s"
  by (auto simp: ShowWindow_def intro!: fresh_put split: option.split)

lemma DestroyWindow_wf:
  "bs_fresh s \<Longrightarrow> bs_fresh (snd (DestroyWindow h s)) \<and> next_hwnd (snd (DestroyWindow h s)) = next_hwnd s"
  by (auto simp: DestroyWindow_def intro!: fresh_filter split: option.split)

lemma Create_wf:
  "bs_fresh s \<Longrightarrow> bs_fresh (snd (CreateBlackScreenParentWindow s))
     \<and> next_hwnd s \<le> next_hwnd (snd (CreateBlackScreenParentWindow s))
     \<and> fst (CreateBlackScreenParentWindow s) < next_hwnd (snd (CreateBlackScreenParentWindow s))"
  by (cases "create_ok s")
     (auto simp: CreateBlackScreenParentWindow_def Let_def MoveWindow_def fresh_new intro!: fresh_put
      split: option.split, simp add: CreateBlackScreenParentWindow_def bs_fresh_def)

lemma DestroyWindow_gone: "bs_get h (snd (DestroyWindow h s)) = None"
  by (auto simp: DestroyWindow_def bs_get_def intro: map_of_filter_none split: option.splits)

lemma fresh_get_zero: "bs_fresh s \<Longrightarrow> bs_get 0 s = None"
  unfolding bs_fresh_def bs_get_def by (force simp: map_of_eq_None_iff)

lemma init_bs_wf: "bs_wf (init_bs cok pok)"
  by (simp add: bs_wf_def bs_fresh_def init_bs_def)

lemma SetParent_ok: "fst (SetParent c p s) \<Longrightarrow> bs_get c s \<noteq> None"
  by (simp add: SetParent_def split: if_splits)

lemma tick_act_wf: "bs_wf s \<Longrightarrow> bs_wf (tick_act pc s)"
proof (cases pc)
  case MIdle
  then show "bs_wf s \<Longrightarrow> bs_wf (tick_act pc s)" by simp
next
  case (MEmbed bw)
  assume w: "bs_wf s"
  obtain p s1 where c: "CreateBlackScreenParentWindow s = (p, s1)" by fastforce
  have f1: "bs_fresh s1" "next_hwnd s \<le> next_hwnd s1" "p < next_hwnd s1"
    using Create_wf [of s] w c by (auto simp: bs_wf_def)
  let ?s2 = "s1\<lparr>blackScreenParentWindow := p\<rparr>"
  obtain ok s3 where sp: "SetParent bw p ?s2 = (ok, s3)" by fastforce
  have f3: "bs_fresh s3" "next_hwnd s3 = next_hwnd s1"
    using SetParent_wf [of ?s2 bw p] f1 sp by auto
  have g3: "embeddedBlackScreenWindow s3 = embeddedBlackScreenWindow s" "blackScreenParentWindow s3 = p"
      "closed_channels s3 = closed_channels s" "blackScreenQuitChannel s3 = blackScreenQuitChannel s"
    using SetParent_globals [of bw p ?s2] Create_globals [of s] sp c by auto
  have bw: "ok \<Longrightarrow> bw < next_hwnd s1"
    using SetParent_ok [of bw p ?s2] sp f1(1) fresh_get [of ?s2 bw] by (auto simp: bs_get_def)
  let ?s4 = "s3\<lparr>embeddedBlackScreenWindow := bw\<rparr>"
  have f4: "ok \<Longrightarrow> bs_wf (snd (ShowWindow p 6 ?s4))"
    using ShowWindow_wf [of ?s4 p 6] ShowWindow_globals [of p 6 ?s4] f3 g3 bw f1 w
    by (auto simp: bs_wf_def)
  have f5: "bs_wf s3" using f3 g3 f1 w by (auto simp: bs_wf_def)
  have f6: "bs_wf ?s2" using f1 Create_globals [of s] c w by (auto simp: bs_wf_def)
  show ?thesis using MEmbed c sp f4 f5 f6 by (auto simp: Let_def)
next
  case MClear
  assume w: "bs_wf s"
  let ?s1 = "s\<lparr>embeddedBlackScreenWindow := 0\<rparr>"
  have "bs_fresh ?s1" using w by (simp add: bs_wf_def)
  then have "bs_wf ((snd (DestroyWindow (blackScreenParentWindow ?s1) ?s1))\<lparr>blackScreenParentWindow := 0\<rparr>)"
    using DestroyWindow_wf [of ?s1] DestroyWindow_globals [of _ ?s1] w by (auto simp: bs_wf_def)
  moreover have "bs_wf ?s1" using w by (simp add: bs_wf_def)
  ultimately show ?thesis using MClear by (simp add: Let_def)
qed

lemma checkbox_wf: "bs_wf s \<Longrightarrow> bs_wf (blackscreen_checkbox b s)"
proof (cases b)
  case True
  assume "bs_wf s"
  then show ?thesis using True by (simp add: blackscreen_checkbox_def bs_wf_def)
next
  case False
  assume w: "bs_wf s"
  let ?s1 = "s\<lparr>blackScreenMinimizeEnabled := False\<rparr>"
  let ?s2 = "if embeddedBlackScreenWindow ?s1 \<noteq> 0
             then (snd (SetParent (embeddedBlackScreenWindow ?s1) 0 ?s1))\<lparr>embeddedBlackScreenWindow := 0\<rparr> else ?s1"
  have w2: "bs_wf ?s2"
    using w SetParent_wf [of ?s1 "embeddedBlackScreenWindow s" 0]
      SetParent_globals [of "embeddedBlackScreenWindow s" 0 ?s1] by (auto simp: bs_wf_def)
  define s2 where "s2 = ?s2"
  have w2': "bs_wf s2" using w2 by (simp add: s2_def)
  let ?s3 = "if blackScreenParentWindow s2 \<noteq> 0
             then (snd (DestroyWindow (blackScreenParentWindow s2) s2))\<lparr>blackScreenParentWindow := 0\<rparr> else s2"
  have d: "bs_fresh (snd (DestroyWindow (blackScreenParentWindow s2) s2))
      \<and> next_hwnd (snd (DestroyWindow (blackScreenParentWindow s2) s2)) = next_hwnd s2"
    using w2' by (simp add: DestroyWindow_wf bs_wf_def)
  define s3 where "s3 = ?s3"
  have w3: "bs_wf s3" using w2' d by (simp add: s3_def bs_wf_def bs_globals)
  have "bs_wf (s3\<lparr>closed_channels := blackScreenQuitChannel s3 # closed_channels s3,
                  blackScreenQuitChannel := Suc (blackScreenQuitChannel s3)\<rparr>)"
    using w3 by (auto simp: bs_wf_def less_SucI)
  moreover have "blackscreen_checkbox False s = s3\<lparr>closed_channels := blackScreenQuitChannel s3 # closed_channels s3,
                  blackScreenQuitChannel := Suc (blackScreenQuitChannel s3)\<rparr>"
    unfolding blackscreen_checkbox_def Let_def s3_def s2_def by (simp only: if_False)
  ultimately show ?thesis using False by simp
qed

lemma bs_step_wf: "bs_step s e s' \<Longrightarrow> bs_wf s \<Longrightarrow> bs_wf s'"
proof (induction rule: bs_step.induct)
  case (tick i s)
  then show ?case by (simp add: monitor_tick_bs_def tick_act_wf)
next
  case (tick_check i s)
  then show ?case by (simp add: set_pc_def bs_wf_def)
next
  case (tick_act i s pc)
  have "bs_wf (tick_act pc s)" by (rule tick_act_wf [OF tick_act.prems])
  then show ?case by (simp add: set_pc_def bs_wf_def)
next
  case (quit i s c)
  then show ?case by (simp add: bs_wf_def)
next
  case (agent_show s)
  then show ?case by (auto simp: bs_wf_def agent_blackscreen_def intro!: fresh_new)
next
  case (agent_close h s w)
  then show ?case using DestroyWindow_wf [of s h] DestroyWindow_globals [of h s] by (auto simp: bs_wf_def)
qed (simp_all add: checkbox_wf)

lemma bs_steps_wf: "bs_steps s evs s' \<Longrightarrow> bs_wf s \<Longrightarrow> bs_wf s'"
  by (induction rule: bs_steps.induct) (auto dest: bs_step_wf)

lemma monitor_tick_enabled: "blackScreenMinimizeEnabled (monitor_tick_bs s) = blackScreenMinimizeEnabled s"
  by (cases "tick_check s") (simp_all add: monitor_tick_bs_def Let_def split_def bs_globals)

lemma bs_steps_snoc: "bs_steps s es t \<Longrightarrow> bs_step t e u \<Longrightarrow> bs_steps s (es @ [e]) u"
  by (induction rule: bs_steps.induct) (auto intro: bs_steps.intros)

lemma demo_steps:
  "bs_steps (init_bs True True) [BSCheck True, AgentShow, BSTick 0]
     (monitor_tick_bs (agent_blackscreen (blackscreen_checkbox True (init_bs True True))))"
proof -
  let ?s1 = "blackscreen_checkbox True (init_bs True True)"
  have r1: "bs_step (init_bs True True) (BSCheck True) ?s1" by (rule bs_step.check_on) (simp add: init_bs_def)
  have r2: "bs_step ?s1 AgentShow (agent_blackscreen ?s1)" by (rule bs_step.agent_show)
  have r3: "bs_step (agent_blackscreen ?s1) (BSTick 0) (monitor_tick_bs (agent_blackscreen ?s1))"
    by (rule bs_step.tick) (simp_all add: init_bs_def blackscreen_checkbox_def agent_blackscreen_def)
  show ?thesis using r1 r2 r3 by (blast intro: bs_steps.intros)
qed

subsection \<open>Properties\<close>



text \<open>C38: when the box is unticked between the check and the action of a monitor tick,
  the tick completes after the handler's cleanup: the feature is off, yet the agent's
  window is embedded in a fresh container that nothing will destroy.\<close>

theorem uncheck_race_embeds_when_disabled:
  assumes i: "i < length (monitors s)" "fst (monitors s ! i) = MIdle"
    and en: "blackScreenMinimizeEnabled s" "embeddedBlackScreenWindow s = 0" "blackScreenParentWindow s = 0"
    and ok: "create_ok s" "setparent_ok s" and fr: "bs_fresh s"
    and b: "FindWindowByTitle_bs blackscreen_title s = b" "b \<noteq> 0"
    and run: "bs_steps s [BSTickCheck i, BSCheck False, BSTickAct i] s'"
  shows "\<not> blackScreenMinimizeEnabled s' \<and> embeddedBlackScreenWindow s' = b
       \<and> blackScreenParentWindow s' = next_hwnd s
       \<and> map_option wparent (bs_get b s') = Some (next_hwnd s)"
proof -
  obtain w where w: "bs_get b s = Some w" using Find_get [OF fr b] by blast
  have chk: "tick_check s = MEmbed b" using en b by (simp add: tick_check_def)
  let ?s1 = "set_pc i (MEmbed b) s"
  let ?s2 = "blackscreen_checkbox False ?s1"
  from run obtain t1 t2 where s1: "bs_step s (BSTickCheck i) t1" and s2: "bs_step t1 (BSCheck False) t2"
      and s3: "bs_step t2 (BSTickAct i) s'"
    by (auto elim!: bs_steps_consE bs_steps_nilE)
  from s1 have t1: "t1 = ?s1" using chk by (auto elim: tick_checkE)
  from s2 have t2: "t2 = ?s2" using t1 by (auto elim: check_offE)
  have eq2: "?s2 = ?s1\<lparr>blackScreenMinimizeEnabled := False, closed_channels := blackScreenQuitChannel ?s1 # closed_channels ?s1,
       blackScreenQuitChannel := Suc (blackScreenQuitChannel ?s1)\<rparr>"
    using en by (simp add: uncheck_idle)
  have pc2: "fst (monitors ?s2 ! i) = MEmbed b" using i by (simp add: eq2 set_pc_nth)
  have s': "s' = set_pc i MIdle (tick_act (MEmbed b) ?s2)"
    using s3 t2 pc2 by (auto elim: tick_actE)
  have fr2: "bs_fresh ?s2" using fr by (simp add: eq2 bs_fresh_def)
  have w2: "bs_get b ?s2 = Some w" using w by (simp add: eq2 bs_get_def)
  have ok2: "create_ok ?s2" "setparent_ok ?s2" using ok by (simp_all add: eq2)
  show ?thesis using embed_act [OF ok2 fr2 w2] by (simp add: s' eq2 bs_get_def)
qed

text \<open>C39: in every run from the initial state whose monitor ticks run without
  interruption, the feature off means no window is embedded and no container is held,
  and an embedded window always has its container.\<close>

theorem atomic_ticks_never_embed_when_disabled:
  assumes "bs_steps (init_bs cok pok) evs s" "\<forall>i. BSTickCheck i \<notin> set evs"
  shows "(\<not> blackScreenMinimizeEnabled s \<longrightarrow> embeddedBlackScreenWindow s = 0 \<and> blackScreenParentWindow s = 0)
       \<and> (embeddedBlackScreenWindow s \<noteq> 0 \<longrightarrow> blackScreenParentWindow s \<noteq> 0)"
proof -
  have "bs_inv (init_bs cok pok)" by (simp add: bs_inv_def init_bs_def)
  then have "bs_inv s" by (rule bs_steps_inv [OF assms])
  then show ?thesis by (simp add: bs_inv_def)
qed


subsection \<open>Witnesses\<close>

lemma bs_demo_facts:
  "blackScreenMinimizeEnabled (bs_demo p)" "embeddedBlackScreenWindow (bs_demo p) = 0"
  "blackScreenParentWindow (bs_demo p) = 0" "create_ok (bs_demo p)" "setparent_ok (bs_demo p) = p"
  "bs_fresh (bs_demo p)" "FindWindowByTitle_bs blackscreen_title (bs_demo p) = 1"
  "monitors (bs_demo p) = [(MIdle, 0)]" "next_hwnd (bs_demo p) = 2"
  by (simp_all add: bs_demo_def init_bs_def blackscreen_checkbox_def agent_blackscreen_def
        bs_fresh_def FindWindowByTitle_bs_def)



theorem uncheck_race_embeds_when_disabled_witness:
  "\<exists>s'. bs_steps (bs_demo True) [BSTickCheck 0, BSCheck False, BSTickAct 0] s'
      \<and> \<not> blackScreenMinimizeEnabled s' \<and> embeddedBlackScreenWindow s' = 1
      \<and> blackScreenParentWindow s' = 2 \<and> map_option wparent (bs_get 1 s') = Some 2"
proof -
  let ?s0 = "bs_demo True"
  define s1 where "s1 = set_pc 0 (tick_check ?s0) ?s0"
  define s2 where "s2 = blackscreen_checkbox False s1"
  define s3 where "s3 = set_pc 0 MIdle (tick_act (MEmbed 1) s2)"
  have c: "tick_check ?s0 = MEmbed 1" using bs_demo_facts by (simp add: tick_check_def)
  have r1: "bs_step ?s0 (BSTickCheck 0) s1" unfolding s1_def
    by (rule bs_step.tick_check) (simp_all add: bs_demo_facts)
  have e1: "blackScreenMinimizeEnabled s1" using bs_demo_facts by (simp add: s1_def)
  have r2: "bs_step s1 (BSCheck False) s2" unfolding s2_def by (rule bs_step.check_off [OF e1])
  have m2: "fst (monitors s2 ! 0) = MEmbed 1"
    using bs_demo_facts by (simp add: s2_def s1_def c blackscreen_checkbox_def set_pc_def Let_def)
  have l2: "0 < length (monitors s2)"
    using bs_demo_facts by (simp add: s2_def s1_def blackscreen_checkbox_def set_pc_def Let_def)
  have r3: "bs_step s2 (BSTickAct 0) s3" unfolding s3_def
    by (rule bs_step.tick_act [OF l2 m2]) simp
  have run: "bs_steps ?s0 [BSTickCheck 0, BSCheck False, BSTickAct 0] s3"
    using r1 r2 r3 by (blast intro: bs_steps.intros)
  show ?thesis
    using run uncheck_race_embeds_when_disabled [OF _ _ _ _ _ _ _ _ _ _ run] bs_demo_facts by auto
qed

theorem atomic_ticks_never_embed_when_disabled_witness:
  "\<exists>s. bs_steps (init_bs True True) [BSCheck True, AgentShow, BSTick 0, BSCheck False] s
     \<and> (\<not> blackScreenMinimizeEnabled s \<longrightarrow> embeddedBlackScreenWindow s = 0 \<and> blackScreenParentWindow s = 0)
     \<and> (embeddedBlackScreenWindow s \<noteq> 0 \<longrightarrow> blackScreenParentWindow s \<noteq> 0)"
proof -
  let ?s3 = "monitor_tick_bs (agent_blackscreen (blackscreen_checkbox True (init_bs True True)))"
  have e3: "blackScreenMinimizeEnabled ?s3"
    by (simp add: monitor_tick_enabled agent_blackscreen_def blackscreen_checkbox_def)
  have "bs_steps (init_bs True True) ([BSCheck True, AgentShow, BSTick 0] @ [BSCheck False])
          (blackscreen_checkbox False ?s3)"
    by (rule bs_steps_snoc [OF demo_steps bs_step.check_off [OF e3]])
  then have run: "bs_steps (init_bs True True) [BSCheck True, AgentShow, BSTick 0, BSCheck False]
          (blackscreen_checkbox False ?s3)" by simp
  have "\<forall>i. BSTickCheck i \<notin> set [BSCheck True, AgentShow, BSTick 0, BSCheck False]" by simp
  then show ?thesis using run atomic_ticks_never_embed_when_disabled [OF run] by blast
qed


end
