(* ===== verification/InputUnlock.thy ===== *)
theory InputUnlock
  imports Prelude
begin

text \<open>
  The input-unlock loops of \<open>src/main.go\<close>: the hook procedure \<open>HookProc\<close>, one
  iteration of the loops of \<open>MouseHookThread\<close> and \<open>KeyboardHookThread\<close>,
  \<open>StartMouseUnlock\<close>/\<open>StopMouseUnlock\<close>, \<open>StartKeyboardUnlock\<close>/\<open>StopKeyboardUnlock\<close>
  and the two checkbox handlers that call them.

  The OS state holds the installed hooks (handle and type), the cursor clip, the open
  file handles, whether the \<open>\\.\TDKeybd\<close> device exists, the control codes sent to
  it, and which of the two unlock threads is alive.  As documented for
  \<open>SetWindowsHookExW\<close>, a low-level hook (\<open>WH_KEYBOARD_LL\<close>, \<open>WH_MOUSE_LL\<close>) needs
  no module, while a global \<open>WH_KEYBOARD\<close> hook with \<open>hMod = 0\<close> is refused
  (\<open>ERROR_HOOK_NEEDS_HMOD\<close>); whether low-level hooks and \<open>CreateThread\<close> succeed are
  fields of the state.  A thread's loop is a step of the relation \<open>unlock_step\<close>:
  one iteration of its \<open>default\<close> branch while it is alive; \<open>TerminateThread\<close> ends it.

  Lemma: one iteration of the keyboard loop obtains exactly the two low-level hooks
  (the two \<open>WH_KEYBOARD\<close> calls always fail), removes every hook and closes every
  handle it opened, and sends the device its control code once when it exists (C40);
  in every reachable state both Stop operations are idempotent and leave no live
  thread, handle or quit channel behind (C12).
\<close>

record hook_os =
  hooks :: "(nat \<times> nat) list"
  next_hhook :: nat
  ll_hook_ok :: bool
  cursor_clipped :: bool
  tdkeybd :: bool
  open_handles :: "64 word list"
  next_handle :: "64 word"
  ioctls :: "(64 word \<times> u32 \<times> u32) list"
  thread_ok :: bool
  mouse_alive :: bool
  keyboard_alive :: bool

record unlock_state =
  uos :: hook_os
  mouseUnlockEnabled :: bool
  keyboardUnlockEnabled :: bool
  mouseHookThread :: nat
  keyboardHookThread :: nat
  mouseHookQuit :: "nat option"
  keyboardHookQuit :: "nat option"
  mouseHookHandle :: nat
  keyboardHookHandle :: nat
  closed_quits :: "nat list"
  next_chan :: nat

datatype unlock_event = MouseCheck bool | KeyboardCheck bool | MouseIter | KeyboardIter

subsection \<open>Definitions: Win32 calls\<close>

definition WH_KEYBOARD_LL :: nat where "WH_KEYBOARD_LL = 13"
definition WH_MOUSE_LL :: nat where "WH_MOUSE_LL = 14"
definition WH_KEYBOARD :: nat where "WH_KEYBOARD = 2"
definition IOCTL_TDKEYBD :: u32 where "IOCTL_TDKEYBD = 0x220000"
definition INVALID_HANDLE :: "64 word" where "INVALID_HANDLE = - 1"

text \<open>\<open>HookProc\<close> returns 0 without calling \<open>CallNextHookEx\<close>.\<close>

definition HookProc :: "nat \<Rightarrow> nat \<Rightarrow> nat \<Rightarrow> nat" where
  "HookProc nCode wParam lParam = 0"

definition SetWindowsHookEx :: "nat \<Rightarrow> nat \<Rightarrow> nat \<Rightarrow> hook_os \<Rightarrow> nat \<times> hook_os" where
  "SetWindowsHookEx idHook hMod threadId os =
     (if (idHook = WH_KEYBOARD_LL \<or> idHook = WH_MOUSE_LL) \<and> ll_hook_ok os
         \<or> idHook \<noteq> WH_KEYBOARD_LL \<and> idHook \<noteq> WH_MOUSE_LL \<and> (hMod \<noteq> 0 \<or> threadId \<noteq> 0)
      then (next_hhook os, os\<lparr>hooks := hooks os @ [(next_hhook os, idHook)], next_hhook := Suc (next_hhook os)\<rparr>)
      else (0, os))"

definition UnhookWindowsHookEx :: "nat \<Rightarrow> hook_os \<Rightarrow> bool \<times> hook_os" where
  "UnhookWindowsHookEx h os =
     (if h \<in> fst ` set (hooks os) then (True, os\<lparr>hooks := filter (\<lambda>(k, _). k \<noteq> h) (hooks os)\<rparr>)
      else (False, os))"

definition ClipCursor_null :: "hook_os \<Rightarrow> hook_os" where
  "ClipCursor_null os = os\<lparr>cursor_clipped := False\<rparr>"

definition CreateFile_TDKeybd :: "hook_os \<Rightarrow> 64 word \<times> hook_os" where
  "CreateFile_TDKeybd os =
     (if tdkeybd os then (next_handle os, os\<lparr>open_handles := next_handle os # open_handles os,
                                           next_handle := next_handle os + 4\<rparr>)
      else (INVALID_HANDLE, os))"

definition DeviceIoControl :: "64 word \<Rightarrow> u32 \<Rightarrow> u32 \<Rightarrow> hook_os \<Rightarrow> hook_os" where
  "DeviceIoControl dev code input os = os\<lparr>ioctls := ioctls os @ [(dev, code, input)]\<rparr>"

definition CloseHandle :: "64 word \<Rightarrow> hook_os \<Rightarrow> hook_os" where
  "CloseHandle h os = os\<lparr>open_handles := removeAll h (open_handles os)\<rparr>"

subsection \<open>Definitions: the thread loops\<close>

text \<open>One iteration of \<open>MouseHookThread\<close>'s \<open>default\<close> branch.\<close>

definition mouse_iter :: "unlock_state \<Rightarrow> unlock_state" where
  "mouse_iter s =
     (let (hook, os1) = SetWindowsHookEx WH_MOUSE_LL 0 0 (uos s);
          s1 = (if hook \<noteq> 0 then s\<lparr>uos := os1, mouseHookHandle := hook\<rparr> else s\<lparr>uos := os1\<rparr>);
          s2 = s1\<lparr>uos := ClipCursor_null (uos s1)\<rparr>
      in if mouseHookHandle s2 \<noteq> 0
         then s2\<lparr>uos := snd (UnhookWindowsHookEx (mouseHookHandle s2) (uos s2)), mouseHookHandle := 0\<rparr>
         else s2)"

definition unhook_nonzero :: "nat \<Rightarrow> hook_os \<Rightarrow> hook_os" where
  "unhook_nonzero h os = (if h \<noteq> 0 then snd (UnhookWindowsHookEx h os) else os)"

text \<open>One iteration of \<open>KeyboardHookThread\<close>'s \<open>default\<close> branch; the result also
  returns the four hook handles the iteration obtained.\<close>

definition keyboard_iter :: "unlock_state \<Rightarrow> (nat \<times> nat \<times> nat \<times> nat) \<times> unlock_state" where
  "keyboard_iter s =
     (let (hook1, os1) = SetWindowsHookEx WH_KEYBOARD_LL 0 0 (uos s);
          (hook2, os2) = SetWindowsHookEx WH_KEYBOARD_LL 0 0 os1;
          (hook3, os3) = SetWindowsHookEx WH_KEYBOARD 0 0 os2;
          (hook4, os4) = SetWindowsHookEx WH_KEYBOARD 0 0 os3;
          s1 = (if hook1 \<noteq> 0 then s\<lparr>keyboardHookHandle := hook1\<rparr> else s);
          (device, os5) = CreateFile_TDKeybd os4;
          os6 = (if device \<noteq> 0 \<and> device \<noteq> INVALID_HANDLE
                 then CloseHandle device (DeviceIoControl device IOCTL_TDKEYBD 1 os5) else os5);
          os7 = unhook_nonzero hook4 (unhook_nonzero hook3 (unhook_nonzero hook2 (unhook_nonzero hook1 os6)))
      in ((hook1, hook2, hook3, hook4), s1\<lparr>uos := os7, keyboardHookHandle := 0\<rparr>))"

subsection \<open>Definitions: start, stop and the checkboxes\<close>

definition StartMouseUnlock :: "unlock_state \<Rightarrow> unlock_state" where
  "StartMouseUnlock s =
     (let s1 = s\<lparr>mouseHookQuit := Some (next_chan s), next_chan := Suc (next_chan s)\<rparr> in
      if thread_ok (uos s1)
      then s1\<lparr>uos := (uos s1)\<lparr>mouse_alive := True\<rparr>, mouseHookThread := 1\<rparr>
      else s1\<lparr>mouseHookThread := 0\<rparr>)"

definition StopMouseUnlock :: "unlock_state \<Rightarrow> unlock_state" where
  "StopMouseUnlock s =
     (let s1 = (case mouseHookQuit s of None \<Rightarrow> s
                 | Some c \<Rightarrow> s\<lparr>closed_quits := c # closed_quits s, mouseHookQuit := None\<rparr>);
          s2 = (if mouseHookHandle s1 \<noteq> 0
                then s1\<lparr>uos := snd (UnhookWindowsHookEx (mouseHookHandle s1) (uos s1)), mouseHookHandle := 0\<rparr>
                else s1)
      in if mouseHookThread s2 \<noteq> 0
         then s2\<lparr>uos := (uos s2)\<lparr>mouse_alive := False\<rparr>, mouseHookThread := 0\<rparr>
         else s2)"

definition StartKeyboardUnlock :: "unlock_state \<Rightarrow> unlock_state" where
  "StartKeyboardUnlock s =
     (let s1 = s\<lparr>keyboardHookQuit := Some (next_chan s), next_chan := Suc (next_chan s)\<rparr> in
      if thread_ok (uos s1)
      then s1\<lparr>uos := (uos s1)\<lparr>keyboard_alive := True\<rparr>, keyboardHookThread := 2\<rparr>
      else s1\<lparr>keyboardHookThread := 0\<rparr>)"

definition StopKeyboardUnlock :: "unlock_state \<Rightarrow> unlock_state" where
  "StopKeyboardUnlock s =
     (let s1 = (case keyboardHookQuit s of None \<Rightarrow> s
                 | Some c \<Rightarrow> s\<lparr>closed_quits := c # closed_quits s, keyboardHookQuit := None\<rparr>);
          s2 = (if keyboardHookHandle s1 \<noteq> 0
                then s1\<lparr>uos := snd (UnhookWindowsHookEx (keyboardHookHandle s1) (uos s1)), keyboardHookHandle := 0\<rparr>
                else s1)
      in if keyboardHookThread s2 \<noteq> 0
         then s2\<lparr>uos := (uos s2)\<lparr>keyboard_alive := False\<rparr>, keyboardHookThread := 0\<rparr>
         else s2)"

definition mouse_checkbox :: "bool \<Rightarrow> unlock_state \<Rightarrow> unlock_state" where
  "mouse_checkbox checked s =
     (if checked then StartMouseUnlock (s\<lparr>mouseUnlockEnabled := True\<rparr>)
      else StopMouseUnlock (s\<lparr>mouseUnlockEnabled := False\<rparr>))"

definition keyboard_checkbox :: "bool \<Rightarrow> unlock_state \<Rightarrow> unlock_state" where
  "keyboard_checkbox checked s =
     (if checked then StartKeyboardUnlock (s\<lparr>keyboardUnlockEnabled := True\<rparr>)
      else StopKeyboardUnlock (s\<lparr>keyboardUnlockEnabled := False\<rparr>))"

text \<open>The loops read the global quit channel at every iteration; once \<open>Stop\<close> has
  set it to \<open>nil\<close> the \<open>select\<close> always takes \<open>default\<close>, so a thread ends only
  by \<open>TerminateThread\<close>, or by observing a closed channel still stored in the
  global.\<close>

inductive unlock_step :: "unlock_state \<Rightarrow> unlock_event \<Rightarrow> unlock_state \<Rightarrow> bool" where
  mouse_on: "\<not> mouseUnlockEnabled s \<Longrightarrow> unlock_step s (MouseCheck True) (mouse_checkbox True s)"
| mouse_off: "mouseUnlockEnabled s \<Longrightarrow> unlock_step s (MouseCheck False) (mouse_checkbox False s)"
| keyboard_on: "\<not> keyboardUnlockEnabled s \<Longrightarrow> unlock_step s (KeyboardCheck True) (keyboard_checkbox True s)"
| keyboard_off: "keyboardUnlockEnabled s \<Longrightarrow> unlock_step s (KeyboardCheck False) (keyboard_checkbox False s)"
| mouse_iter: "mouse_alive (uos s) \<Longrightarrow> (\<forall>c. mouseHookQuit s = Some c \<longrightarrow> c \<notin> set (closed_quits s)) \<Longrightarrow>
      unlock_step s MouseIter (mouse_iter s)"
| keyboard_iter: "keyboard_alive (uos s) \<Longrightarrow> (\<forall>c. keyboardHookQuit s = Some c \<longrightarrow> c \<notin> set (closed_quits s)) \<Longrightarrow>
      unlock_step s KeyboardIter (snd (keyboard_iter s))"

inductive unlock_steps :: "unlock_state \<Rightarrow> unlock_event list \<Rightarrow> unlock_state \<Rightarrow> bool" where
  nil: "unlock_steps s [] s"
| cons: "unlock_step s e s' \<Longrightarrow> unlock_steps s' es s'' \<Longrightarrow> unlock_steps s (e # es) s''"

definition init_unlock :: "bool \<Rightarrow> bool \<Rightarrow> bool \<Rightarrow> unlock_state" where
  "init_unlock llok tok dev =
     \<lparr>uos = \<lparr>hooks = [], next_hhook = 1, ll_hook_ok = llok, cursor_clipped = True, tdkeybd = dev,
             open_handles = [], next_handle = 4, ioctls = [], thread_ok = tok,
             mouse_alive = False, keyboard_alive = False\<rparr>,
      mouseUnlockEnabled = False, keyboardUnlockEnabled = False, mouseHookThread = 0,
      keyboardHookThread = 0, mouseHookQuit = None, keyboardHookQuit = None, mouseHookHandle = 0,
      keyboardHookHandle = 0, closed_quits = [], next_chan = 0\<rparr>"

subsection \<open>Definitions: fresh handles\<close>

text \<open>The next hook and file handles are unused, nonzero and not \<open>INVALID_HANDLE_VALUE\<close>;
  and the invariant of runs: a live unlock thread has a nonzero handle and its feature
  is enabled.\<close>

definition hook_fresh :: "hook_os \<Rightarrow> bool" where
  "hook_fresh os \<longleftrightarrow> 0 < next_hhook os \<and> (\<forall>(k, t) \<in> set (hooks os). k < next_hhook os)
     \<and> next_handle os \<notin> set (open_handles os) \<and> next_handle os \<noteq> 0 \<and> next_handle os \<noteq> INVALID_HANDLE"

definition unlock_inv :: "unlock_state \<Rightarrow> bool" where
  "unlock_inv s \<longleftrightarrow> (mouse_alive (uos s) \<longrightarrow> mouseHookThread s \<noteq> 0 \<and> mouseUnlockEnabled s)
     \<and> (keyboard_alive (uos s) \<longrightarrow> keyboardHookThread s \<noteq> 0 \<and> keyboardUnlockEnabled s)"

subsection \<open>Lemmas\<close>

lemma hook_global_refused: "SetWindowsHookEx WH_KEYBOARD 0 0 os = (0, os)"
  by (simp add: SetWindowsHookEx_def WH_KEYBOARD_def WH_KEYBOARD_LL_def WH_MOUSE_LL_def)

lemma hook_ll:
  "SetWindowsHookEx WH_KEYBOARD_LL 0 0 os =
     (if ll_hook_ok os then (next_hhook os, os\<lparr>hooks := hooks os @ [(next_hhook os, WH_KEYBOARD_LL)],
                                              next_hhook := Suc (next_hhook os)\<rparr>)
      else (0, os))"
  by (simp add: SetWindowsHookEx_def)

lemma unhook_fresh_last:
  "(\<forall>(k, t) \<in> set hs. k < (n::nat)) \<Longrightarrow> filter (\<lambda>(k, _). k \<noteq> n) (hs @ [(n, t)]) = hs"
proof -
  assume a: "\<forall>(k, t) \<in> set hs. k < (n::nat)"
  have "\<forall>x \<in> set hs. (\<lambda>(k, _). k \<noteq> n) x" using a by fastforce
  then show ?thesis by (simp only: filter_append filter_id_conv [THEN iffD2]) simp
qed

lemma unhook_nonzero_zero [simp]: "unhook_nonzero 0 os = os"
  by (simp add: unhook_nonzero_def)

lemma uos_unhook [simp]:
  "mouse_alive (snd (UnhookWindowsHookEx h os)) = mouse_alive os"
  "keyboard_alive (snd (UnhookWindowsHookEx h os)) = keyboard_alive os"
  by (simp_all add: UnhookWindowsHookEx_def)

lemma mouse_iter_fields [simp]:
  "mouse_alive (uos (mouse_iter s)) = mouse_alive (uos s)"
  "keyboard_alive (uos (mouse_iter s)) = keyboard_alive (uos s)"
  "mouseHookThread (mouse_iter s) = mouseHookThread s"
  "keyboardHookThread (mouse_iter s) = keyboardHookThread s"
  "mouseUnlockEnabled (mouse_iter s) = mouseUnlockEnabled s"
  "keyboardUnlockEnabled (mouse_iter s) = keyboardUnlockEnabled s"
  "thread_ok (uos (mouse_iter s)) = thread_ok (uos s)"
  by (simp_all add: mouse_iter_def UnhookWindowsHookEx_def SetWindowsHookEx_def ClipCursor_null_def Let_def split_def)

lemma hook_alive:
  "SetWindowsHookEx i m t os = (h, os') \<Longrightarrow> mouse_alive os' = mouse_alive os \<and> keyboard_alive os' = keyboard_alive os"
  by (auto simp: SetWindowsHookEx_def split: if_splits)

lemma device_alive:
  "CreateFile_TDKeybd os = (d, os') \<Longrightarrow> mouse_alive os' = mouse_alive os \<and> keyboard_alive os' = keyboard_alive os"
  by (auto simp: CreateFile_TDKeybd_def split: if_splits)

lemma unhook_nonzero_alive [simp]:
  "mouse_alive (unhook_nonzero h os) = mouse_alive os" "keyboard_alive (unhook_nonzero h os) = keyboard_alive os"
  by (simp_all add: unhook_nonzero_def)

lemma keyboard_iter_shape:
  "\<exists>os. snd (keyboard_iter s) = s\<lparr>uos := os, keyboardHookHandle := 0\<rparr>
      \<and> mouse_alive os = mouse_alive (uos s) \<and> keyboard_alive os = keyboard_alive (uos s)"
proof -
  obtain h1 o1 where a1: "SetWindowsHookEx WH_KEYBOARD_LL 0 0 (uos s) = (h1, o1)" by fastforce
  obtain h2 o2 where a2: "SetWindowsHookEx WH_KEYBOARD_LL 0 0 o1 = (h2, o2)" by fastforce
  obtain h3 o3 where a3: "SetWindowsHookEx WH_KEYBOARD 0 0 o2 = (h3, o3)" by fastforce
  obtain h4 o4 where a4: "SetWindowsHookEx WH_KEYBOARD 0 0 o3 = (h4, o4)" by fastforce
  obtain d o5 where a5: "CreateFile_TDKeybd o4 = (d, o5)" by fastforce
  define o6 where "o6 = (if d \<noteq> 0 \<and> d \<noteq> INVALID_HANDLE then CloseHandle d (DeviceIoControl d IOCTL_TDKEYBD 1 o5) else o5)"
  define o7 where "o7 = unhook_nonzero h4 (unhook_nonzero h3 (unhook_nonzero h2 (unhook_nonzero h1 o6)))"
  have eq: "snd (keyboard_iter s) = s\<lparr>uos := o7, keyboardHookHandle := 0\<rparr>"
    by (simp add: keyboard_iter_def a1 a2 a3 a4 a5 Let_def o6_def [symmetric] o7_def [symmetric])
  have "mouse_alive o7 = mouse_alive (uos s) \<and> keyboard_alive o7 = keyboard_alive (uos s)"
    using hook_alive [OF a1] hook_alive [OF a2] hook_alive [OF a3] hook_alive [OF a4] device_alive [OF a5]
    by (simp add: o7_def o6_def CloseHandle_def DeviceIoControl_def)
  then show ?thesis using eq by blast
qed

lemma keyboard_iter_fields [simp]:
  "mouse_alive (uos (snd (keyboard_iter s))) = mouse_alive (uos s)"
  "keyboard_alive (uos (snd (keyboard_iter s))) = keyboard_alive (uos s)"
  "mouseHookThread (snd (keyboard_iter s)) = mouseHookThread s"
  "keyboardHookThread (snd (keyboard_iter s)) = keyboardHookThread s"
  "mouseUnlockEnabled (snd (keyboard_iter s)) = mouseUnlockEnabled s"
  "keyboardUnlockEnabled (snd (keyboard_iter s)) = keyboardUnlockEnabled s"
  using keyboard_iter_shape [of s] by auto

lemma mouse_checkbox_inv: "unlock_inv s \<Longrightarrow> (b \<Longrightarrow> \<not> mouseUnlockEnabled s) \<Longrightarrow> unlock_inv (mouse_checkbox b s)"
  by (cases b) (auto simp: unlock_inv_def mouse_checkbox_def StartMouseUnlock_def StopMouseUnlock_def
      Let_def split: option.split)

lemma keyboard_checkbox_inv: "unlock_inv s \<Longrightarrow> (b \<Longrightarrow> \<not> keyboardUnlockEnabled s) \<Longrightarrow> unlock_inv (keyboard_checkbox b s)"
  by (cases b) (auto simp: unlock_inv_def keyboard_checkbox_def StartKeyboardUnlock_def
      StopKeyboardUnlock_def Let_def split: option.split)

lemma unlock_step_inv: "unlock_step s e s' \<Longrightarrow> unlock_inv s \<Longrightarrow> unlock_inv s'"
proof (induction rule: unlock_step.induct)
  case (mouse_iter s)
  then show ?case by (simp add: unlock_inv_def)
next
  case (keyboard_iter s)
  then show ?case by (simp add: unlock_inv_def)
next
  case (mouse_on s)
  then show ?case by (blast intro: mouse_checkbox_inv)
next
  case (mouse_off s)
  then show ?case by (blast intro: mouse_checkbox_inv)
next
  case (keyboard_on s)
  then show ?case by (blast intro: keyboard_checkbox_inv)
next
  case (keyboard_off s)
  then show ?case by (blast intro: keyboard_checkbox_inv)
qed

lemma unlock_steps_inv: "unlock_steps s evs s' \<Longrightarrow> unlock_inv s \<Longrightarrow> unlock_inv s'"
  by (induction rule: unlock_steps.induct) (auto dest: unlock_step_inv)

lemma init_unlock_inv: "unlock_inv (init_unlock llok tok dev)"
  by (simp add: unlock_inv_def init_unlock_def)

lemma StopMouse_post:
  "(mouse_alive (uos s) \<longrightarrow> mouseHookThread s \<noteq> 0) \<Longrightarrow> \<not> mouse_alive (uos (StopMouseUnlock s)) \<and> mouseHookQuit (StopMouseUnlock s) = None
     \<and> mouseHookHandle (StopMouseUnlock s) = 0 \<and> mouseHookThread (StopMouseUnlock s) = 0"
  by (cases "mouseHookQuit s") (auto simp: StopMouseUnlock_def Let_def)

lemma StopKeyboard_post:
  "(keyboard_alive (uos s) \<longrightarrow> keyboardHookThread s \<noteq> 0) \<Longrightarrow> \<not> keyboard_alive (uos (StopKeyboardUnlock s)) \<and> keyboardHookQuit (StopKeyboardUnlock s) = None
     \<and> keyboardHookHandle (StopKeyboardUnlock s) = 0 \<and> keyboardHookThread (StopKeyboardUnlock s) = 0"
  by (cases "keyboardHookQuit s") (auto simp: StopKeyboardUnlock_def Let_def)

lemma StopMouse_keyboard [simp]:
  "keyboard_alive (uos (StopMouseUnlock s)) = keyboard_alive (uos s)"
  "keyboardHookThread (StopMouseUnlock s) = keyboardHookThread s"
  by (simp_all add: StopMouseUnlock_def Let_def split: option.splits)

lemma StopKeyboard_mouse [simp]:
  "mouse_alive (uos (StopKeyboardUnlock s)) = mouse_alive (uos s)"
  by (simp add: StopKeyboardUnlock_def Let_def split: option.splits)

lemma StopMouse_idem: "StopMouseUnlock (StopMouseUnlock s) = StopMouseUnlock s"
  by (cases "mouseHookQuit s") (simp_all add: StopMouseUnlock_def Let_def)

lemma StopKeyboard_idem: "StopKeyboardUnlock (StopKeyboardUnlock s) = StopKeyboardUnlock s"
  by (cases "keyboardHookQuit s") (simp_all add: StopKeyboardUnlock_def Let_def)

subsection \<open>Properties\<close>

text \<open>C40: one iteration of \<open>KeyboardHookThread\<close>, on fresh handles, gets two
  distinct low-level keyboard hooks when they can be installed and none of the two
  \<open>WH_KEYBOARD\<close> hooks (a global hook needs a module); it leaves the installed hooks
  and the open handles as they were, resets \<open>keyboardHookHandle\<close>, and sends
  \<open>0x220000\<close> to \<open>\\.\TDKeybd\<close> exactly when the device exists.\<close>

theorem keyboard_iter_balanced:
  assumes it: "keyboard_iter s = ((h1, h2, h3, h4), s')" and fr: "hook_fresh (uos s)"
  shows "h3 = 0 \<and> h4 = 0
       \<and> (ll_hook_ok (uos s) \<longrightarrow> h1 \<noteq> 0 \<and> h2 \<noteq> 0 \<and> h1 \<noteq> h2)
       \<and> hooks (uos s') = hooks (uos s)
       \<and> open_handles (uos s') = open_handles (uos s)
       \<and> keyboardHookHandle s' = 0
       \<and> ioctls (uos s') = ioctls (uos s) @ (if tdkeybd (uos s) then [(next_handle (uos s), IOCTL_TDKEYBD, 1)] else [])"
proof (cases "ll_hook_ok (uos s)")
  case True
  let ?n = "next_hhook (uos s)"
  have ks: "\<forall>(k, t) \<in> set (hooks (uos s)). k < ?n" using fr by (simp add: hook_fresh_def)
  have ks2: "\<forall>(k, t) \<in> set (hooks (uos s) @ [(?n, WH_KEYBOARD_LL)]). k < Suc ?n" using ks by auto
  have "?n \<noteq> 0" using fr by (simp add: hook_fresh_def)
  then show ?thesis using it fr True unhook_fresh_last [OF ks] unhook_fresh_last [OF ks2]
    by (auto simp: keyboard_iter_def hook_ll hook_global_refused unhook_nonzero_def UnhookWindowsHookEx_def
        CreateFile_TDKeybd_def CloseHandle_def DeviceIoControl_def hook_fresh_def Let_def)
next
  case False
  then show ?thesis using it fr
    by (auto simp: keyboard_iter_def hook_ll hook_global_refused
        CreateFile_TDKeybd_def CloseHandle_def DeviceIoControl_def hook_fresh_def Let_def)
qed

text \<open>C12: in every state a run reaches, \<open>StopMouseUnlock\<close> and \<open>StopKeyboardUnlock\<close>
  are idempotent, as the specification requires of every Stop, and leave the feature
  with no live thread, a \<open>nil\<close> quit channel and no hook or thread handle.  The
  thread ends by \<open>TerminateThread\<close>, not by observing its quit channel.\<close>

theorem Stop_idempotent:
  assumes "unlock_steps (init_unlock llok tok dev) evs s"
  shows "StopMouseUnlock (StopMouseUnlock s) = StopMouseUnlock s
       \<and> StopKeyboardUnlock (StopKeyboardUnlock s) = StopKeyboardUnlock s
       \<and> \<not> mouse_alive (uos (StopMouseUnlock s)) \<and> mouseHookQuit (StopMouseUnlock s) = None
       \<and> mouseHookHandle (StopMouseUnlock s) = 0 \<and> mouseHookThread (StopMouseUnlock s) = 0
       \<and> \<not> keyboard_alive (uos (StopKeyboardUnlock s)) \<and> keyboardHookQuit (StopKeyboardUnlock s) = None
       \<and> keyboardHookHandle (StopKeyboardUnlock s) = 0 \<and> keyboardHookThread (StopKeyboardUnlock s) = 0"
proof -
  have i: "unlock_inv s" by (rule unlock_steps_inv [OF assms init_unlock_inv])
  then have "mouse_alive (uos s) \<longrightarrow> mouseHookThread s \<noteq> 0" "keyboard_alive (uos s) \<longrightarrow> keyboardHookThread s \<noteq> 0"
    by (simp_all add: unlock_inv_def)
  then show ?thesis using StopMouse_post StopKeyboard_post by (simp add: StopMouse_idem StopKeyboard_idem)
qed

subsection \<open>Witnesses\<close>

theorem keyboard_iter_balanced_witness:
  "hooks (uos (snd (keyboard_iter (init_unlock True True True)))) = []
   \<and> open_handles (uos (snd (keyboard_iter (init_unlock True True True)))) = []
   \<and> keyboardHookHandle (snd (keyboard_iter (init_unlock True True True))) = 0
   \<and> ioctls (uos (snd (keyboard_iter (init_unlock True True True)))) = [(4, IOCTL_TDKEYBD, 1)]"
proof -
  let ?s = "init_unlock True True True"
  have it: "keyboard_iter ?s = ((1, 2, 0, 0), snd (keyboard_iter ?s))"
    by (simp add: keyboard_iter_def init_unlock_def hook_ll hook_global_refused Let_def split_def)
  have fr: "hook_fresh (uos ?s)" by (simp add: hook_fresh_def init_unlock_def INVALID_HANDLE_def)
  show ?thesis using keyboard_iter_balanced [OF it fr] by (simp add: init_unlock_def)
qed

theorem Stop_idempotent_witness:
  "\<exists>s. unlock_steps (init_unlock True True True) [MouseCheck True, MouseIter, KeyboardCheck True] s
     \<and> mouse_alive (uos s) \<and> keyboard_alive (uos s)
     \<and> StopMouseUnlock (StopMouseUnlock s) = StopMouseUnlock s
     \<and> StopKeyboardUnlock (StopKeyboardUnlock s) = StopKeyboardUnlock s
     \<and> \<not> mouse_alive (uos (StopMouseUnlock s)) \<and> mouseHookQuit (StopMouseUnlock s) = None
     \<and> mouseHookHandle (StopMouseUnlock s) = 0 \<and> mouseHookThread (StopMouseUnlock s) = 0
     \<and> \<not> keyboard_alive (uos (StopKeyboardUnlock s)) \<and> keyboardHookQuit (StopKeyboardUnlock s) = None
     \<and> keyboardHookHandle (StopKeyboardUnlock s) = 0 \<and> keyboardHookThread (StopKeyboardUnlock s) = 0"
proof -
  let ?s0 = "init_unlock True True True"
  let ?s1 = "mouse_checkbox True ?s0"
  let ?s2 = "mouse_iter ?s1"
  let ?s3 = "keyboard_checkbox True ?s2"
  have r1: "unlock_step ?s0 (MouseCheck True) ?s1" by (rule unlock_step.mouse_on) (simp add: init_unlock_def)
  have a1: "mouse_alive (uos ?s1)" "mouseHookQuit ?s1 = Some 0" "closed_quits ?s1 = []"
    by (simp_all add: init_unlock_def mouse_checkbox_def StartMouseUnlock_def Let_def)
  have r2: "unlock_step ?s1 MouseIter ?s2" by (rule unlock_step.mouse_iter) (simp_all add: a1)
  have e2: "\<not> keyboardUnlockEnabled ?s2" by (simp add: init_unlock_def mouse_checkbox_def StartMouseUnlock_def Let_def)
  have r3: "unlock_step ?s2 (KeyboardCheck True) ?s3" by (rule unlock_step.keyboard_on [OF e2])
  have run: "unlock_steps ?s0 [MouseCheck True, MouseIter, KeyboardCheck True] ?s3"
    using r1 r2 r3 by (blast intro: unlock_steps.intros)
  have al: "mouse_alive (uos ?s3) \<and> keyboard_alive (uos ?s3)"
    using a1 by (simp add: keyboard_checkbox_def StartKeyboardUnlock_def Let_def init_unlock_def
                   mouse_checkbox_def StartMouseUnlock_def)
  show ?thesis using run al Stop_idempotent [OF run] by blast
qed

end
