(* ===== verification/WindowSettings.thy ===== *)
theory WindowSettings
  imports Prelude
begin

text \<open>
  The settings of this program's own windows in \<open>src/main.go\<close> and
  \<open>src/control.go\<close>: \<open>SetWindowDisplayAffinity\<close>, \<open>SetWindowTopmost\<close> and
  \<open>BringWindowToFront\<close>, the handlers of the "prevent capture" and "topmost"
  checkboxes, the initial settings after the main window is created, one tick of the
  topmost loop, and the control window of \<open>control.go\<close> (\<open>CreateControlWindow\<close>,
  its closing handler, \<open>UpdateControlWindowCaptureState\<close>).

  The declarative construction of the windows (layout, icon, widgets) is not
  modelled: creating the control dialog is one call that succeeds or fails.  Each of
  the two windows is a record of the attributes the code sets: display affinity,
  the topmost band, whether it was brought to the front or activated, and whether it
  is shown.  Whether \<open>SetWindowDisplayAffinity\<close> and the dialog creation succeed are
  fields of the state.  \<open>SetWindowTopmost\<close> passes the \<open>uintptr\<close> handles
  \<open>WindowHandleTopMost\<close> and \<open>WindowHandleNotTopMost\<close> (\<open>-1\<close> and \<open>-2\<close>,
  \<open>topmost_handles\<close>) to \<open>SetWindowPos\<close>.  The global \<open>controlWindow\<close> that
  \<open>control.go\<close> uses is declared nowhere under \<open>src/\<close>; it is a field here.

  Lemmas: in every run the main window's affinity follows its checkbox
  (\<open>main_capture_follows_box\<close>); a control window stays excluded from capture
  after the box is unticked (\<open>control_capture_stale\<close>).
\<close>

record own_window =
  affinity :: u32
  topmost :: bool
  front :: bool
  active :: bool
  shown :: bool

datatype which = MainWin | ControlWin

record ws_state =
  mainWindow :: "own_window option"
  controlWindow :: "own_window option"
  preventCaptureChecked :: bool
  topmostChecked :: bool
  affinity_ok :: bool
  dialog_ok :: bool

subsection \<open>Definitions: Win32 window calls\<close>

definition WindowDisplayAffinityNone :: u32 where "WindowDisplayAffinityNone = 0"
definition WindowDisplayAffinityExcludeFromCapture :: u32 where
  "WindowDisplayAffinityExcludeFromCapture = 0x11"

definition get_win :: "which \<Rightarrow> ws_state \<Rightarrow> own_window option" where
  "get_win k s = (case k of MainWin \<Rightarrow> mainWindow s | ControlWin \<Rightarrow> controlWindow s)"

definition put_win :: "which \<Rightarrow> (own_window \<Rightarrow> own_window) \<Rightarrow> ws_state \<Rightarrow> ws_state" where
  "put_win k f s = (case k of MainWin \<Rightarrow> s\<lparr>mainWindow := map_option f (mainWindow s)\<rparr>
                          | ControlWin \<Rightarrow> s\<lparr>controlWindow := map_option f (controlWindow s)\<rparr>)"

definition SetWindowDisplayAffinity :: "which \<Rightarrow> u32 \<Rightarrow> ws_state \<Rightarrow> bool \<times> ws_state" where
  "SetWindowDisplayAffinity k aff s =
     (if affinity_ok s \<and> get_win k s \<noteq> None then (True, put_win k (\<lambda>w. w\<lparr>affinity := aff\<rparr>) s)
      else (False, s))"

text \<open>The \<open>uintptr\<close> constants for the \<open>hWndInsertAfter\<close> argument of
  \<open>SetWindowPos\<close>, written as in the source.\<close>

definition WindowHandleTopMost :: "64 word" where "WindowHandleTopMost = NOT 0"
definition WindowHandleNotTopMost :: "64 word" where "WindowHandleNotTopMost = NOT 1"

text \<open>\<open>SetWindowPos\<close> with \<open>SWP_NOSIZE | SWP_NOMOVE\<close>: \<open>HWND_TOPMOST\<close> moves the
  window into the topmost band, \<open>HWND_NOTOPMOST\<close> out of it; any other handle only
  reorders the window within its band.\<close>

definition SetWindowPos :: "which \<Rightarrow> 64 word \<Rightarrow> ws_state \<Rightarrow> bool \<times> ws_state" where
  "SetWindowPos k insertAfter s =
     (if get_win k s \<noteq> None
      then (True, put_win k (\<lambda>w. if insertAfter = WindowHandleTopMost then w\<lparr>topmost := True\<rparr>
                                else if insertAfter = WindowHandleNotTopMost then w\<lparr>topmost := False\<rparr>
                                else w) s)
      else (False, s))"

definition SetWindowTopmost :: "which \<Rightarrow> bool \<Rightarrow> ws_state \<Rightarrow> bool \<times> ws_state" where
  "SetWindowTopmost k isTopmost s =
     (let insertAfterHandle = (if isTopmost then WindowHandleTopMost else WindowHandleNotTopMost)
      in SetWindowPos k insertAfterHandle s)"

definition BringWindowToFront :: "which \<Rightarrow> ws_state \<Rightarrow> bool \<times> ws_state" where
  "BringWindowToFront k s =
     (if get_win k s \<noteq> None then (True, put_win k (\<lambda>w. w\<lparr>front := True\<rparr>) s) else (False, s))"

subsection \<open>Definitions: the main window's handlers\<close>

definition capture_checkbox :: "bool \<Rightarrow> ws_state \<Rightarrow> ws_state" where
  "capture_checkbox checked s =
     (let s1 = s\<lparr>preventCaptureChecked := checked\<rparr> in
      if mainWindow s1 = None then s1
      else if checked then snd (SetWindowDisplayAffinity MainWin WindowDisplayAffinityExcludeFromCapture s1)
      else snd (SetWindowDisplayAffinity MainWin WindowDisplayAffinityNone s1))"

definition topmost_checkbox :: "bool \<Rightarrow> ws_state \<Rightarrow> ws_state" where
  "topmost_checkbox checked s =
     (let s1 = s\<lparr>topmostChecked := checked\<rparr> in
      if mainWindow s1 = None then s1
      else if checked then snd (SetWindowTopmost MainWin True s1)
      else put_win MainWin (\<lambda>w. w\<lparr>active := True\<rparr>)
             (snd (BringWindowToFront MainWin (snd (SetWindowTopmost MainWin False s1)))))"

text \<open>The settings applied once the main window exists (both boxes start ticked).\<close>

definition initial_settings :: "ws_state \<Rightarrow> ws_state" where
  "initial_settings s =
     (let s1 = (if preventCaptureChecked s
                then snd (SetWindowDisplayAffinity MainWin WindowDisplayAffinityExcludeFromCapture s) else s)
      in snd (SetWindowTopmost MainWin (topmostChecked s1) s1))"

definition topmost_tick :: "ws_state \<Rightarrow> ws_state" where
  "topmost_tick s =
     (if topmostChecked s \<and> mainWindow s \<noteq> None then snd (SetWindowTopmost MainWin True s) else s)"

subsection \<open>Definitions: the control window\<close>

definition new_window :: own_window where
  "new_window = \<lparr>affinity = WindowDisplayAffinityNone, topmost = False, front = False, active = False,
                  shown = False\<rparr>"

definition show_win :: "which \<Rightarrow> ws_state \<Rightarrow> ws_state" where
  "show_win k s = put_win k (\<lambda>w. w\<lparr>shown := True\<rparr>) s"

definition CreateControlWindow :: "ws_state \<Rightarrow> unit result \<times> ws_state" where
  "CreateControlWindow s =
     (if controlWindow s \<noteq> None then (Inr (), put_win ControlWin (\<lambda>w. w\<lparr>front := True\<rparr>) (show_win ControlWin s))
      else if \<not> dialog_ok s then (Inl (Err ''dialog creation failed''), s)
      else
        (let s1 = s\<lparr>controlWindow := Some new_window\<rparr>;
             s2 = (if preventCaptureChecked s1
                   then snd (SetWindowDisplayAffinity ControlWin WindowDisplayAffinityExcludeFromCapture s1) else s1);
             s3 = (if topmostChecked s2 then snd (SetWindowTopmost ControlWin True s2) else s2)
         in (Inr (), show_win ControlWin s3)))"

definition control_closing :: "ws_state \<Rightarrow> ws_state" where
  "control_closing s = s\<lparr>controlWindow := None\<rparr>"

definition UpdateControlWindowCaptureState :: "bool \<Rightarrow> ws_state \<Rightarrow> ws_state" where
  "UpdateControlWindowCaptureState preventCapture s =
     (if controlWindow s \<noteq> None then
        (if preventCapture then snd (SetWindowDisplayAffinity ControlWin WindowDisplayAffinityExcludeFromCapture s)
         else snd (SetWindowDisplayAffinity ControlWin WindowDisplayAffinityNone s))
      else s)"

text \<open>The events of the main window's settings: the two checkboxes and the ticks of
  the topmost loop.  \<open>CreateControlWindow\<close> and \<open>UpdateControlWindowCaptureState\<close>
  have no caller in the program, so they are not events.\<close>

datatype ws_event = CaptureCheck bool | TopmostCheck bool | TopmostTick

inductive ws_step :: "ws_state \<Rightarrow> ws_event \<Rightarrow> ws_state \<Rightarrow> bool" where
  capture: "b \<noteq> preventCaptureChecked s \<Longrightarrow> ws_step s (CaptureCheck b) (capture_checkbox b s)"
| topmost: "b \<noteq> topmostChecked s \<Longrightarrow> ws_step s (TopmostCheck b) (topmost_checkbox b s)"
| tick: "ws_step s TopmostTick (topmost_tick s)"

inductive ws_steps :: "ws_state \<Rightarrow> ws_event list \<Rightarrow> ws_state \<Rightarrow> bool" where
  nil: "ws_steps s [] s"
| cons: "ws_step s e s' \<Longrightarrow> ws_steps s' es s'' \<Longrightarrow> ws_steps s (e # es) s''"

definition init_ws :: "bool \<Rightarrow> bool \<Rightarrow> ws_state" where
  "init_ws aok dok =
     \<lparr>mainWindow = Some new_window, controlWindow = None, preventCaptureChecked = True,
      topmostChecked = True, affinity_ok = aok, dialog_ok = dok\<rparr>"

definition capture_synced :: "ws_state \<Rightarrow> bool" where
  "capture_synced s \<longleftrightarrow> (\<forall>w. mainWindow s = Some w \<longrightarrow>
     affinity w = (if preventCaptureChecked s then WindowDisplayAffinityExcludeFromCapture else WindowDisplayAffinityNone))"

subsection \<open>Lemmas\<close>

text \<open>The two constants are the handles \<open>-1\<close> and \<open>-2\<close> that their comments name.\<close>

lemma topmost_handles: "sint WindowHandleTopMost = -1" "sint WindowHandleNotTopMost = -2"
  by (simp_all add: WindowHandleTopMost_def WindowHandleNotTopMost_def)

lemma SetWindowTopmost_eq:
  "SetWindowTopmost k b s =
     (if get_win k s \<noteq> None then (True, put_win k (\<lambda>w. w\<lparr>topmost := b\<rparr>) s) else (False, s))"
  by (simp add: SetWindowTopmost_def SetWindowPos_def WindowHandleTopMost_def WindowHandleNotTopMost_def)

lemma ws_main_fields [simp]:
  "mainWindow (put_win ControlWin f s) = mainWindow s"
  "controlWindow (put_win MainWin f s) = controlWindow s"
  "mainWindow (put_win MainWin f s) = map_option f (mainWindow s)"
  "preventCaptureChecked (put_win k f s) = preventCaptureChecked s"
  "topmostChecked (put_win k f s) = topmostChecked s"
  "affinity_ok (put_win k f s) = affinity_ok s"
  by (simp_all add: put_win_def split: which.split)

lemma topmost_keeps_affinity:
  "mainWindow (snd (SetWindowTopmost MainWin b s)) = map_option (\<lambda>w. w\<lparr>topmost := b\<rparr>) (mainWindow s)"
  "mainWindow (snd (BringWindowToFront MainWin s)) = map_option (\<lambda>w. w\<lparr>front := True\<rparr>) (mainWindow s)"
  by (auto simp: SetWindowTopmost_eq BringWindowToFront_def get_win_def)

lemma ws_step_synced:
  "ws_step s e s' \<Longrightarrow> affinity_ok s \<Longrightarrow> capture_synced s \<Longrightarrow> capture_synced s' \<and> affinity_ok s'"
proof (induction rule: ws_step.induct)
  case (capture b s)
  then show ?case
    by (auto simp: capture_checkbox_def capture_synced_def SetWindowDisplayAffinity_def get_win_def Let_def)
next
  case (topmost b s)
  then show ?case
    by (auto simp: topmost_checkbox_def capture_synced_def topmost_keeps_affinity Let_def
        SetWindowTopmost_eq BringWindowToFront_def get_win_def)
next
  case (tick s)
  then show ?case
    by (auto simp: topmost_tick_def capture_synced_def topmost_keeps_affinity SetWindowTopmost_eq get_win_def)
qed

lemma ws_steps_synced:
  "ws_steps s evs s' \<Longrightarrow> affinity_ok s \<Longrightarrow> capture_synced s \<Longrightarrow> capture_synced s'"
  by (induction rule: ws_steps.induct) (auto dest: ws_step_synced)

text \<open>In every run after the initial settings, with \<open>SetWindowDisplayAffinity\<close>
  succeeding, the main window's affinity is the one its checkbox asks for.\<close>

lemma main_capture_follows_box:
  "ws_steps (initial_settings (init_ws True dok)) evs s \<Longrightarrow> mainWindow s = Some w \<Longrightarrow>
   affinity w = (if preventCaptureChecked s then WindowDisplayAffinityExcludeFromCapture else WindowDisplayAffinityNone)"
  using ws_steps_synced [of "initial_settings (init_ws True dok)" evs s]
  by (simp add: capture_synced_def initial_settings_def init_ws_def SetWindowDisplayAffinity_def
      SetWindowTopmost_eq get_win_def put_win_def new_window_def)

text \<open>The capture handler updates only the main window: a control window created
  while capture was prevented stays excluded from capture after the box is unticked,
  because \<open>UpdateControlWindowCaptureState\<close> is never called.\<close>

lemma control_capture_stale:
  assumes "affinity_ok s" "preventCaptureChecked s" "controlWindow s = None" "dialog_ok s"
  shows "map_option affinity (controlWindow (capture_checkbox False (snd (CreateControlWindow s))))
           = Some WindowDisplayAffinityExcludeFromCapture"
  using assms
  by (auto simp: CreateControlWindow_def capture_checkbox_def SetWindowDisplayAffinity_def SetWindowTopmost_eq
      show_win_def get_win_def put_win_def Let_def new_window_def)

end
