(* ===== verification/Spec2Isabelle.thy ===== *)
theory Spec2Isabelle
  imports Transport ProcessController BroadcastPin BlackScreen InputUnlock WindowSettings
begin

text \<open>
  \<^bold>\<open>A verification library for mythgone.\<close>

  mythgone is a Windows tool (Go, \<open>src/\<close>) that talks to a classroom-management
  agent over UDP port 4705 and manipulates the agent's process and windows.  Its
  parts are: the protocol codec and transport (\<open>src/udp.go\<close>: \<open>UDPClient\<close>, the
  packet builders \<open>SendMessage\<close>, \<open>Shutdown\<close>, \<open>Reboot\<close>, \<open>CloseApp\<close>,
  \<open>SetLoginMode\<close>, \<open>RunCommand\<close>, and the target resolver \<open>parseIPRange\<close> with
  \<open>incrementIP\<close>); the process controller (\<open>src/process.go\<close>); the window
  hijacker, black-screen embed and input-unlock loops (\<open>src/main.go\<close>); and the UI
  (\<open>src/main.go\<close> \<open>main\<close>, \<open>src/control.go\<close>).  The Send* methods build a packet
  and hand it to \<open>SendPacket\<close> or \<open>SendBroadcastPacket\<close>, which resolve targets
  through \<open>parseIPRange\<close>.  The UI's checkboxes and buttons start and stop the
  window hijacker's monitor goroutines and the input-unlock threads, which share
  the program's global handles with the handlers; these interleavings are the
  step relations of the window and input theories, and this theory composes them
  into one run of the whole program that ends with the window's close handler.

  \<^bold>\<open>Theories.\<close>
  \<^item> \<open>Prelude\<close>: machine words (\<open>byte\<close>, \<open>u16\<close>, \<open>u32\<close> as \<open>8/16/32 word\<close>), the
    error model (\<open>error + 'a\<close>: a Go \<open>error\<close> value \<open>Err\<close> or a runtime \<open>Panic\<close>),
    \<open>binary.LittleEndian\<close> encoding \<open>le16\<close>/\<open>le32\<close> and reading \<open>get_le32\<close>, the
    slice overwrite done by \<open>copy\<close>, \<open>strings.Split\<close>, decimal printing, and the
    association-list lemmas the window models share.
  \<^item> \<open>GoSlices\<close>: a buffer is a \<open>byte list\<close>; each write the builders perform is a
    \<open>buf_op\<close> (\<open>copy(packet[a:b], src)\<close>, \<open>PutUint32(packet[a:b], v)\<close>,
    \<open>packet[i] = v\<close>) and \<open>run_op\<close> performs it with Go's bounds checks:
    a slice \<open>[a:b]\<close> with \<open>b > len\<close> panics with slice-bounds-out-of-range,
    \<open>PutUint32\<close> on fewer than four bytes and an index \<open>\<ge> len\<close> panic with
    index-out-of-range.  \<open>run_ops\<close> stops at the first panic.
  \<^item> \<open>ProtocolCodec\<close>: every builder of \<open>udp.go\<close> as its list of writes, in source
    order, into \<open>make([]byte, n)\<close>: \<open>message_ops\<close>/\<open>message_packet\<close>
    (\<open>SendMessage\<close>, lines 252-265), \<open>control_ops\<close> with \<open>shutdown_packet\<close>,
    \<open>reboot_packet\<close>, \<open>closeapp_packet\<close> (281-301, 317-337, 354-374),
    \<open>login_ops\<close>/\<open>login_packet\<close> (394-416), \<open>command_ops\<close>/\<open>command_packet\<close>
    (434-450), and \<open>stringToUTF16LE\<close> (108-116) over the runes of the Go string.
    The nonce and the teacher address are parameters, so every lemma holds for
    every random nonce.  Lemmas: the exact layout of each packet that is built
    (C1, C2), the declared-length fields (C7), the UTF-16LE round trip (C6), and
    the error branches: \<open>SetLoginMode\<close> and \<open>RunCommand\<close> panic on every input (C3,
    C4), an over-long message panics (C5).
  \<^item> \<open>GoNet\<close>: the part of package \<open>net\<close> that \<open>parseIPRange\<close> uses, for IPv4 text:
    \<open>parse_ip\<close> (\<open>net.ParseIP\<close>, giving the 4-byte form), \<open>parse_cidr\<close>
    (\<open>net.ParseCIDR\<close>: masked network address and prefix), \<open>ipnet_contains\<close>,
    \<open>ip_string\<close> (\<open>IP.String\<close>), and the numeric view \<open>ip_nat\<close> (big-endian value of
    an address) with the lemmas relating masks to division by powers of two.
  \<^item> \<open>AddressResolver\<close>: \<open>incrementIP\<close> (186-193), the CIDR loop \<open>cidr_loop\<close>
    (127-130), the range loop \<open>range_loop\<close> (170-177), the wildcard expansion
    \<open>wildcard_ips\<close> (140-148) and \<open>parseIPRange\<close> (119-183), whose branches are
    tried in the source's order (\<open>/\<close>, \<open>*\<close>, \<open>-\<close>, literal).  Lemmas: \<open>incrementIP\<close>
    refines the successor modulo \<open>256^len\<close> (C13); each branch's result (C8, C10,
    C11, C14) and its errors (C15); non-termination of \<open>/0\<close> (C9) and of every
    range with distinct endpoints (C10).
  \<^item> \<open>Transport\<close>: the \<open>UDPClient\<close> record, \<open>NewUDPClient\<close>, \<open>Connect\<close> and
    \<open>Close\<close> over an explicit set of open sockets, \<open>SendPacket\<close>, the fan-out loop of
    \<open>SendBroadcastPacket\<close> and the common body of the Send* methods, with
    \<open>net.ResolveUDPAddr\<close> and the socket calls as operations on an explicit network
    state.  Lemmas: the fan-out's success count (C16), what \<open>SendMessage\<close> sends in
    each mode (C17, C18), \<open>SetLoginMode\<close>/\<open>RunCommand\<close> never send (C19), the
    socket discipline of \<open>Connect\<close>/\<open>Close\<close> and its leak on a failed broadcast
    \<open>Connect\<close> (C20, C21), and the broadcast target specification (C22).
  \<^item> \<open>ProcessController\<close>: every function of \<open>src/process.go\<close> over an explicit
    Win32 state (process and thread snapshots, suspend counts, access grants, the
    registry, process creation).  Lemmas: \<open>GetProcessState\<close> refines an abstract
    classification and its probe is destructive at the maximum suspend count (C24,
    C25), \<open>FindMythwareProcess\<close> returns the first match (C26), the kill loop (C27),
    suspend/resume round trip (C28, C29), the install path lookup has no fallback
    (C30), and start-then-running (C31).
  \<^item> \<open>BroadcastPin\<close>: the broadcast-pin half of the window hijacker
    (\<open>src/main.go\<close> lines 139-349, 644-663, 804-833): the window helpers, the
    subclass \<open>SetBroadcastWindowHook\<close> with its window procedure as a
    \<open>partial_function (option)\<close> (forwarding to itself is the value \<open>None\<close>), the
    location-change hook, the monitor tick, the checkbox with its quit channel and
    the toggle button, in an event-labelled step relation with the agent's actions.
    Lemmas C32-C34, the quit-channel invariant \<open>chan_steps\<close>, and the refinement of
    the specification's event-hook state machine (\<open>pin_refines_hook_spec\<close>).
  \<^item> \<open>BlackScreen\<close>: the black-screen half (lines 204-269, 676-693, 836-865): window
    creation, reparenting and destruction over a desktop with parents, the monitor
    tick split into its check and its action, the checkbox, and a list of monitor
    goroutines with their quit channels.  Lemmas C36-C39 and the well-formedness
    of every reachable state (C23).
  \<^item> \<open>InputUnlock\<close>: the input-unlock loops (lines 374-553, 705-727): one iteration of
    each thread loop, Start/Stop for mouse and keyboard, and the checkboxes, over an
    explicit hook/file/thread state.  Lemmas: one keyboard iteration (C40) and the
    idempotence and effect of both Stops in every reachable state (C12).
  \<^item> \<open>WindowSettings\<close>: the settings of this program's own windows (\<open>main.go\<close>
    lines 113-153, 605-634, 755-777; \<open>control.go\<close>): \<open>SetWindowDisplayAffinity\<close>,
    \<open>SetWindowTopmost\<close>, \<open>BringWindowToFront\<close>, the "prevent capture" and "topmost"
    checkbox handlers, the initial settings, the topmost loop's tick, and
    \<open>CreateControlWindow\<close>, its closing handler and
    \<open>UpdateControlWindowCaptureState\<close>.  Lemmas: the main window's display affinity
    follows its checkbox in every run (\<open>main_capture_follows_box\<close>); a control
    window keeps excluding itself from capture after the box is unticked, since
    nothing calls \<open>UpdateControlWindowCaptureState\<close> (\<open>control_capture_stale\<close>).
  \<^item> This theory: the program's global state \<open>app_state\<close> (one field per
    component, the topmost loop's \<open>quitChannel\<close>, whether the process exited, and
    the shell requests of \<open>OpenURL\<close>); \<open>main\<close>'s startup \<open>main_start\<close>
    (\<open>walk.InitApp\<close> and the channels, lines 569-578) and
    \<open>main_window_create\<close> (\<open>Create\<close> and the initial settings, lines 750-760), each
    failing with \<open>log.Fatal\<close> as an \<open>Err\<close>; the main window's close handler
    \<open>on_close\<close> (lines 780-797); \<open>OpenURL\<close> (556-567) behind the repository link;
    and \<open>app_step\<close>, the interleaving of the components' step relations and the
    link, ended by the close handler.  The state \<open>main\<close> hands to
    \<open>application.Run\<close> is each component's initial state (\<open>main_boot_state\<close>).  A
    run of the whole program projects to a run of each component
    (\<open>app_steps_parts\<close>), so the components' invariants hold together (for
    instance \<open>app_capture_follows_box\<close>), and from every state a run from \<open>main\<close>
    reaches, the close handler returns without a panic, with every feature stopped
    (C35).

  \<^bold>\<open>Loops and fuel.\<close>  The two loops of \<open>parseIPRange\<close> are not bounded in the
  source, so they are \<open>partial_function (option)\<close>: \<open>None\<close> is the loop that never
  returns, and termination is proved as \<open>Some\<close> of an explicit value (for a CIDR
  block with prefix \<open>1..32\<close> the loop visits exactly the \<open>2^(32-n)\<close> addresses
  of the block, by induction on the remaining count) while divergence is proved by
  fixed-point induction (\<open>raw_induct\<close>) with an invariant that excludes the exit.
  The window procedure of \<open>BroadcastPin\<close> is handled the same way (C34).  The
  goroutine and thread loops that run until told to stop (\<open>monitorBroadcastWindow\<close>,
  \<open>monitorBlackScreenWindow\<close>, \<open>MouseHookThread\<close>, \<open>KeyboardHookThread\<close>, the
  topmost loop) are one step of a step relation per iteration, so a run is any
  finite sequence of iterations interleaved with the UI's events.  The only fuel is
  the parent-chain walk \<open>ancestors\<close> of \<open>DestroyWindow\<close>, bounded by the number of
  windows, which bounds every chain of distinct windows.

  \<^bold>\<open>Win32 and the agent.\<close>  Calls into the OS are definitions over explicit
  state records, written from their documented behaviour: \<open>SetWindowLong(GWL_WNDPROC)\<close>
  fails for a window of another process, \<open>FindWindowW\<close> searches top-level windows
  only, \<open>DestroyWindow\<close> destroys descendants, and a global \<open>WH_KEYBOARD\<close> hook needs
  a module.  Outcomes the program cannot control (whether a hook, a window, a thread,
  a dialog or a socket can be created, whether the display affinity can be set) are
  fields of the state, so every lemma holds for each outcome.  The agent's own
  behaviour (showing, raising and closing windows) is a set of events of the step
  relations.

  \<^bold>\<open>Not modelled.\<close>  The declarative construction of the UI in \<open>main\<close> and
  \<open>src/control.go\<close> (layout, icons, fonts, the message dialogs: they configure
  widgets and hold no state the program reads), the browser that \<open>ShellExecuteW\<close>
  starts, and \<open>syscall.Exit\<close> beyond the flag \<open>exited\<close>.  The package-level
  declarations (\<open>var\<close> blocks of DLL procedures, imports) are not code to model;
  note that \<open>main.go\<close> and \<open>process.go\<close> both declare \<open>kernel32DLL\<close> and five
  procedures of it, and \<open>control.go\<close> uses an undeclared \<open>controlWindow\<close>, so the
  package as shipped does not compile; the model takes each file as written.  IPv6 text in
  \<open>net.ParseIP\<close> is outside the model of package \<open>net\<close>: \<open>parse_ip\<close> returns
  \<open>None\<close> for it.
\<close>

subsection \<open>Definitions: the application\<close>

text \<open>The program's global state is the state of each component; \<open>quitChannel\<close>
  is the channel that stops the topmost loop, \<open>exited\<close> records \<open>syscall.Exit\<close>,
  and \<open>shell_opened\<close> the \<open>ShellExecuteW\<close> requests (verb and file) in order.\<close>

record app_state =
  app_pin :: pin_state
  app_bs :: bs_state
  app_unlock :: unlock_state
  app_ws :: ws_state
  quitChannel_closed :: bool
  exited :: bool
  shell_opened :: "(string \<times> string) list"

text \<open>\<open>main\<close> up to the main window (lines 569-578): \<open>walk.InitApp\<close>, whose failure
  is \<open>log.Fatal\<close>, then the three quit channels; every global has its zero value
  and the main window does not exist yet.\<close>

definition main_start ::
  "bool \<Rightarrow> bool \<Rightarrow> bool \<Rightarrow> bool \<Rightarrow> bool \<Rightarrow> bool \<Rightarrow> bool \<Rightarrow> bool \<Rightarrow> bool \<Rightarrow> app_state result" where
  "main_start initOk hok cok pok llok tok dev aok dok =
     (if \<not> initOk then Inl (Err ''walk.InitApp failed: log.Fatal'')
      else Inr \<lparr>app_pin = init_pin hok, app_bs = init_bs cok pok, app_unlock = init_unlock llok tok dev,
                app_ws = (init_ws aok dok)\<lparr>mainWindow := None\<rparr>, quitChannel_closed = False,
                exited = False, shell_opened = []\<rparr>)"

text \<open>\<open>MainWindow{...}.Create()\<close>, its \<open>log.Fatal\<close> on failure, and the initial
  settings (lines 750-760).\<close>

definition main_window_create :: "bool \<Rightarrow> app_state \<Rightarrow> app_state result" where
  "main_window_create createOk a =
     (if \<not> createOk then Inl (Err ''MainWindow.Create failed: log.Fatal'')
      else Inr (a\<lparr>app_ws := initial_settings ((app_ws a)\<lparr>mainWindow := Some new_window\<rparr>)\<rparr>))"

text \<open>\<open>OpenURL\<close> (lines 556-567): \<open>ShellExecuteW\<close> with the verb \<open>open\<close>; its
  result is ignored.  The link of the main window opens the repository page.\<close>

definition OpenURL :: "string \<Rightarrow> app_state \<Rightarrow> app_state" where
  "OpenURL url a = a\<lparr>shell_opened := shell_opened a @ [(''open'', url)]\<rparr>"

definition github_url :: string where
  "github_url = ''https://github.com/dotcubecn/mythgone''"

text \<open>The handler of the main window's \<open>Closing\<close> event (\<open>main.go\<close> lines 780-797):
  clear the four feature flags, remove the event hook, stop both unlock threads,
  give the embedded window back to the desktop, destroy the container, close the
  three quit channels (closing a closed channel panics) and exit.\<close>

definition on_close :: "app_state \<Rightarrow> app_state result" where
  "on_close a =
     (let p = RemoveBroadcastEventHook ((app_pin a)\<lparr>broadcastHookEnabled := False\<rparr>);
          b1 = (app_bs a)\<lparr>blackScreenMinimizeEnabled := False\<rparr>;
          u = StopKeyboardUnlock (StopMouseUnlock
                ((app_unlock a)\<lparr>mouseUnlockEnabled := False, keyboardUnlockEnabled := False\<rparr>));
          b2 = (if embeddedBlackScreenWindow b1 \<noteq> 0
                then snd (SetParent (embeddedBlackScreenWindow b1) 0 b1) else b1);
          b3 = (if blackScreenParentWindow b2 \<noteq> 0
                then snd (DestroyWindow (blackScreenParentWindow b2) b2) else b2)
      in if quitChannel_closed a then Inl (Panic CloseOfClosedChannel)
         else if broadcastQuitChannel p \<in> set (closed_bq p) then Inl (Panic CloseOfClosedChannel)
         else if blackScreenQuitChannel b3 \<in> set (closed_channels b3) then Inl (Panic CloseOfClosedChannel)
         else Inr (a\<lparr>app_pin := p\<lparr>closed_bq := broadcastQuitChannel p # closed_bq p\<rparr>,
                     app_bs := b3\<lparr>closed_channels := blackScreenQuitChannel b3 # closed_channels b3\<rparr>,
                     app_unlock := u, quitChannel_closed := True, exited := True\<rparr>))"

text \<open>A run of the whole program: any interleaving of the components' events until
  the window is closed; \<open>main\<close> applies the initial window settings before the UI
  runs.\<close>

datatype app_event = PinEv pin_event | BsEv bs_event | UnlockEv unlock_event | WsEv ws_event | LinkEv | CloseEv

inductive app_step :: "app_state \<Rightarrow> app_event \<Rightarrow> app_state \<Rightarrow> bool" where
  pin: "\<not> exited a \<Longrightarrow> pin_step (app_pin a) e p \<Longrightarrow> app_step a (PinEv e) (a\<lparr>app_pin := p\<rparr>)"
| bs: "\<not> exited a \<Longrightarrow> bs_step (app_bs a) e b \<Longrightarrow> app_step a (BsEv e) (a\<lparr>app_bs := b\<rparr>)"
| unlock: "\<not> exited a \<Longrightarrow> unlock_step (app_unlock a) e u \<Longrightarrow> app_step a (UnlockEv e) (a\<lparr>app_unlock := u\<rparr>)"
| ws: "\<not> exited a \<Longrightarrow> ws_step (app_ws a) e w \<Longrightarrow> app_step a (WsEv e) (a\<lparr>app_ws := w\<rparr>)"
| link: "\<not> exited a \<Longrightarrow> app_step a LinkEv (OpenURL github_url a)"
| close: "\<not> exited a \<Longrightarrow> on_close a = Inr a' \<Longrightarrow> app_step a CloseEv a'"

inductive app_steps :: "app_state \<Rightarrow> app_event list \<Rightarrow> app_state \<Rightarrow> bool" where
  nil: "app_steps a [] a"
| cons: "app_step a e a' \<Longrightarrow> app_steps a' es a'' \<Longrightarrow> app_steps a (e # es) a''"

subsection \<open>Lemmas: the close handler and runs of the whole program\<close>

lemma main_boot_state:
  assumes "main_start initOk hok cok pok llok tok dev aok dok = Inr a0" "main_window_create createOk a0 = Inr a"
  shows "app_pin a = init_pin hok \<and> app_bs a = init_bs cok pok \<and> app_unlock a = init_unlock llok tok dev
     \<and> app_ws a = initial_settings (init_ws aok dok) \<and> \<not> quitChannel_closed a \<and> \<not> exited a"
  using assms by (auto simp: main_start_def main_window_create_def init_ws_def split: if_splits)

lemma on_close_exits: "on_close a = Inr a' \<Longrightarrow> exited a'"
  by (auto simp: on_close_def Let_def split: if_splits)

lemma on_close_ok:
  assumes q: "\<not> quitChannel_closed a"
    and pc: "\<forall>c \<in> set (closed_bq (app_pin a)). c < broadcastQuitChannel (app_pin a)"
    and bw: "bs_wf (app_bs a)"
    and ui: "unlock_inv (app_unlock a)"
  shows "\<exists>a'. on_close a = Inr a' \<and> exited a' \<and> quitChannel_closed a'
     \<and> \<not> broadcastHookEnabled (app_pin a') \<and> eventHook (app_pin a') = 0
     \<and> \<not> blackScreenMinimizeEnabled (app_bs a')
     \<and> \<not> mouse_alive (uos (app_unlock a')) \<and> \<not> keyboard_alive (uos (app_unlock a'))
     \<and> bs_get (blackScreenParentWindow (app_bs a)) (app_bs a') = None"
proof -
  define p where "p = RemoveBroadcastEventHook ((app_pin a)\<lparr>broadcastHookEnabled := False\<rparr>)"
  define b1 where "b1 = (app_bs a)\<lparr>blackScreenMinimizeEnabled := False\<rparr>"
  define u0 where "u0 = (app_unlock a)\<lparr>mouseUnlockEnabled := False, keyboardUnlockEnabled := False\<rparr>"
  define b2 where "b2 = (if embeddedBlackScreenWindow b1 \<noteq> 0
                then snd (SetParent (embeddedBlackScreenWindow b1) 0 b1) else b1)"
  define b3 where "b3 = (if blackScreenParentWindow b2 \<noteq> 0
                then snd (DestroyWindow (blackScreenParentWindow b2) b2) else b2)"
  have p: "broadcastQuitChannel p \<notin> set (closed_bq p)" "\<not> broadcastHookEnabled p" "eventHook p = 0"
    using pc by (auto simp: p_def RemoveBroadcastEventHook_def)
  have f1: "bs_fresh b1" using bw by (simp add: b1_def bs_wf_def)
  have f2: "bs_fresh b2" using SetParent_wf [OF f1] f1 by (simp add: b2_def)
  have g2: "blackScreenQuitChannel b2 = blackScreenQuitChannel (app_bs a)"
    "closed_channels b2 = closed_channels (app_bs a)"
    "blackScreenParentWindow b2 = blackScreenParentWindow (app_bs a)"
    "\<not> blackScreenMinimizeEnabled b2"
    by (simp_all add: b2_def b1_def bs_globals)
  have b: "blackScreenQuitChannel b3 \<notin> set (closed_channels b3)" "\<not> blackScreenMinimizeEnabled b3"
    "bs_get (blackScreenParentWindow (app_bs a)) b3 = None"
    using bw g2 fresh_get_zero [OF f2]
    by (auto simp: b3_def bs_wf_def bs_globals DestroyWindow_gone)
  have "mouse_alive (uos u0) \<longrightarrow> mouseHookThread u0 \<noteq> 0" "keyboard_alive (uos u0) \<longrightarrow> keyboardHookThread u0 \<noteq> 0"
    using ui by (simp_all add: u0_def unlock_inv_def)
  then have u: "\<not> mouse_alive (uos (StopKeyboardUnlock (StopMouseUnlock u0)))"
    "\<not> keyboard_alive (uos (StopKeyboardUnlock (StopMouseUnlock u0)))"
    using StopMouse_post [of u0] StopKeyboard_post [of "StopMouseUnlock u0"] by simp_all
  have "on_close a = Inr (a\<lparr>app_pin := p\<lparr>closed_bq := broadcastQuitChannel p # closed_bq p\<rparr>,
                     app_bs := b3\<lparr>closed_channels := blackScreenQuitChannel b3 # closed_channels b3\<rparr>,
                     app_unlock := StopKeyboardUnlock (StopMouseUnlock u0), quitChannel_closed := True, exited := True\<rparr>)"
    using q p(1) b(1) unfolding on_close_def Let_def p_def b1_def u0_def b2_def b3_def by simp
  then show ?thesis using p b u by (simp add: bs_get_def)
qed

lemma app_steps_parts:
  "app_steps a evs a' \<Longrightarrow> \<not> exited a' \<Longrightarrow> \<not> exited a \<and> quitChannel_closed a' = quitChannel_closed a
     \<and> (\<exists>e1 e2 e3 e4. pin_steps (app_pin a) e1 (app_pin a') \<and> bs_steps (app_bs a) e2 (app_bs a')
          \<and> unlock_steps (app_unlock a) e3 (app_unlock a') \<and> ws_steps (app_ws a) e4 (app_ws a'))"
proof (induction rule: app_steps.induct)
  case (nil a)
  then show ?case by (blast intro: pin_steps.nil bs_steps.nil unlock_steps.nil ws_steps.nil)
next
  case (cons a e a1 es a'')
  then obtain e1 e2 e3 e4 where IH: "\<not> exited a1" "quitChannel_closed a'' = quitChannel_closed a1"
    "pin_steps (app_pin a1) e1 (app_pin a'')" "bs_steps (app_bs a1) e2 (app_bs a'')"
    "unlock_steps (app_unlock a1) e3 (app_unlock a'')" "ws_steps (app_ws a1) e4 (app_ws a'')"
    by blast
  from cons.hyps(1) show ?case
  proof (cases rule: app_step.cases)
    case (pin e p)
    then show ?thesis using IH by simp (blast intro: pin_steps.cons)
  next
    case (bs e b)
    then show ?thesis using IH by simp (blast intro: bs_steps.cons)
  next
    case (unlock e u)
    then show ?thesis using IH by simp (blast intro: unlock_steps.cons)
  next
    case (ws e w)
    then show ?thesis using IH by simp (blast intro: ws_steps.cons)
  next
    case link
    then show ?thesis using IH by (simp add: OpenURL_def) blast
  next
    case close
    then show ?thesis using IH(1) on_close_exits by blast
  qed
qed

text \<open>The component invariants hold together in a run of the whole program: for
  example, while the program runs, the main window's display affinity is the one its
  "prevent capture" box asks for whenever \<open>SetWindowDisplayAffinity\<close> succeeds.\<close>

lemma app_capture_follows_box:
  assumes "main_start initOk hok cok pok llok tok dev True dok = Inr a0" "main_window_create createOk a0 = Inr a1"
    and "app_steps a1 evs a" "\<not> exited a" and "mainWindow (app_ws a) = Some w"
  shows "affinity w = (if preventCaptureChecked (app_ws a) then WindowDisplayAffinityExcludeFromCapture
                       else WindowDisplayAffinityNone)"
proof -
  obtain e4 where "ws_steps (app_ws a1) e4 (app_ws a)"
    using app_steps_parts [OF assms(3,4)] by blast
  then show ?thesis using main_capture_follows_box assms(5) main_boot_state [OF assms(1,2)] by metis
qed

subsection \<open>Properties of the whole program\<close>

text \<open>C35: in every state a run of the whole program reaches from \<open>main\<close> (once
  \<open>walk.InitApp\<close> and the main window's creation have succeeded) before the window is
  closed, the close handler returns instead of panicking: none of the three quit
  channels it closes is closed already, because the checkboxes that close
  \<open>broadcastQuitChannel\<close> and \<open>blackScreenQuitChannel\<close> replace them with fresh ones.
  Afterwards every feature is off, the event hook is removed, neither unlock thread
  is alive and the black-screen container is gone.\<close>

theorem close_handler_never_panics:
  assumes "main_start initOk hok cok pok llok tok dev aok dok = Inr a0" "main_window_create createOk a0 = Inr a1"
    and "app_steps a1 evs a" "\<not> exited a"
  shows "\<exists>a'. on_close a = Inr a' \<and> exited a' \<and> quitChannel_closed a'
     \<and> \<not> broadcastHookEnabled (app_pin a') \<and> eventHook (app_pin a') = 0
     \<and> \<not> blackScreenMinimizeEnabled (app_bs a')
     \<and> \<not> mouse_alive (uos (app_unlock a')) \<and> \<not> keyboard_alive (uos (app_unlock a'))
     \<and> bs_get (blackScreenParentWindow (app_bs a)) (app_bs a') = None"
proof -
  obtain e1 e2 e3 where r: "pin_steps (init_pin hok) e1 (app_pin a)" "bs_steps (init_bs cok pok) e2 (app_bs a)"
    "unlock_steps (init_unlock llok tok dev) e3 (app_unlock a)" and q: "\<not> quitChannel_closed a"
    using app_steps_parts [OF assms(3,4)] main_boot_state [OF assms(1,2)] by auto
  have "\<forall>c \<in> set (closed_bq (app_pin a)). c < broadcastQuitChannel (app_pin a)"
    using chan_steps [OF r(1)] by (simp add: init_pin_def)
  moreover have "bs_wf (app_bs a)" by (rule bs_steps_wf [OF r(2) init_bs_wf])
  moreover have "unlock_inv (app_unlock a)" by (rule unlock_steps_inv [OF r(3) init_unlock_inv])
  ultimately show ?thesis using on_close_ok q by blast
qed

subsection \<open>Witnesses\<close>

lemma close_handler_never_panics_witness:
  "\<exists>a0 a1 a. main_start True True True True True True True True True = Inr a0
     \<and> main_window_create True a0 = Inr a1 \<and> app_steps a1 [UnlockEv (MouseCheck True)] a
     \<and> mouse_alive (uos (app_unlock a)) \<and> (\<exists>a'. on_close a = Inr a' \<and> \<not> mouse_alive (uos (app_unlock a')))"
proof -
  obtain a0 where s: "main_start True True True True True True True True True = Inr a0"
    by (simp add: main_start_def)
  obtain a1 where b: "main_window_create True a0 = Inr a1" by (simp add: main_window_create_def)
  have u: "app_unlock a1 = init_unlock True True True" "\<not> exited a1"
    using main_boot_state [OF s b] by simp_all
  have r: "app_steps a1 [UnlockEv (MouseCheck True)] (a1\<lparr>app_unlock := mouse_checkbox True (app_unlock a1)\<rparr>)"
    by (rule app_steps.cons [OF _ app_steps.nil], rule app_step.unlock)
       (simp_all add: u init_unlock_def unlock_step.mouse_on)
  have "mouse_alive (uos (mouse_checkbox True (init_unlock True True True)))"
    by (simp add: mouse_checkbox_def StartMouseUnlock_def init_unlock_def Let_def)
  with close_handler_never_panics [OF s b r] s b r u show ?thesis by fastforce
qed

end
